theory Spec2Isabelle
  imports Complex_Main "HOL-Library.Char_ord" "HOL-Library.List_Lexorder"
begin

section \<open>Numbers and series\<close>

text \<open>
  The notebook computes on pandas Series and numpy arrays of 64-bit floats. A series is
  modelled as the list of its values in row order, and a float as a real number: the
  arithmetic is exact. The one non-number the metric helpers can produce, NaN (the mean
  of an empty series, or the correlation of a constant series), is a value of its own.
\<close>

datatype error =
  KeyError | TypeError | ValueError | IndexError | NameError | FloatingPointError | PatsyError

datatype pyfloat = Fin real | NaN

text \<open>
  numpy and Python round to the nearest value and send a tie to the even neighbour.
\<close>

definition round_half_even :: "real \<Rightarrow> int" where
  "round_half_even x =
     (let f = \<lfloor>x\<rfloor>; d = x - of_int f
      in if d < 1 / 2 then f
         else if 1 / 2 < d then f + 1
         else if even f then f else f + 1)"

text \<open>\<^verbatim>\<open>round(x, ndigits)\<close> on a float: the nearest multiple of \<open>10 ^ -ndigits\<close>.\<close>

definition py_round :: "real \<Rightarrow> nat \<Rightarrow> real" where
  "py_round x ndigits = of_int (round_half_even (x * 10 ^ ndigits)) / 10 ^ ndigits"

text \<open>
  \<^verbatim>\<open>observed - estimated\<close> on two Series aligns them on their index. Both arguments
  carry the default index \<open>0, 1, 2, ...\<close> of one table, so the rows pair up by position;
  a position present in one series only gives NaN, which \<^verbatim>\<open>mean\<close> skips, so only the
  common positions count.
\<close>

definition series_sub :: "real list \<Rightarrow> real list \<Rightarrow> real list" where
  "series_sub xs ys = map2 (-) xs ys"

definition series_pow2 :: "real list \<Rightarrow> real list" where
  "series_pow2 xs = map (\<lambda>v. v ^ 2) xs"

text \<open>\<^verbatim>\<open>Series.mean()\<close>: NaN on an empty series.\<close>

definition series_mean :: "real list \<Rightarrow> pyfloat" where
  "series_mean xs = (if xs = [] then NaN else Fin (sum_list xs / real (length xs)))"

text \<open>\<^verbatim>\<open>math.sqrt\<close>: NaN for NaN, \<^verbatim>\<open>ValueError\<close> for a negative argument.\<close>

definition math_sqrt :: "pyfloat \<Rightarrow> error + pyfloat" where
  "math_sqrt v =
     (case v of
        NaN \<Rightarrow> Inr NaN
      | Fin x \<Rightarrow> if x < 0 then Inl ValueError else Inr (Fin (sqrt x)))"

section \<open>The metric helpers\<close>

text \<open>
  \<^verbatim>\<open>
  def CalcRMSE(observed, estimated):
      res = (observed -estimated)**2
      RMSE = round(sqrt(res.mean()), 3)
      return RMSE
  \<close>
\<close>

definition CalcRMSE :: "real list \<Rightarrow> real list \<Rightarrow> error + pyfloat" where
  "CalcRMSE observed estimated =
     (let res = series_pow2 (series_sub observed estimated)
      in case math_sqrt (series_mean res) of
           Inl e \<Rightarrow> Inl e
         | Inr NaN \<Rightarrow> Inr NaN
         | Inr (Fin s) \<Rightarrow> Inr (Fin (py_round s 3)))"

text \<open>
  \<^verbatim>\<open>scipy.stats.pearsonr\<close> is a library routine. Its body, as scipy ships it:
  \<^verbatim>\<open>
  n = len(x)
  if n != len(y): raise ValueError('x and y must have the same length.')
  if n < 2: raise ValueError('x and y must have length at least 2.')
  if (x == x[0]).all() or (y == y[0]).all(): return nan, nan
  if n == 2: return sign(x[1] - x[0])*sign(y[1] - y[0]), 1.0
  xmean = x.mean(); ymean = y.mean()
  xm = x - xmean; ym = y - ymean
  normxm = linalg.norm(xm); normym = linalg.norm(ym)
  r = dot(xm/normxm, ym/normym)
  r = max(min(r, 1.0), -1.0)
  return r, prob
  \<close>
  The second component, the p-value, is dropped by the only caller and is not modelled.
\<close>

definition mean :: "real list \<Rightarrow> real" where
  "mean xs = sum_list xs / real (length xs)"

definition norm2 :: "real list \<Rightarrow> real" where
  "norm2 xs = sqrt (sum_list (map (\<lambda>v. v * v) xs))"

definition dot :: "real list \<Rightarrow> real list \<Rightarrow> real" where
  "dot xs ys = sum_list (map2 (*) xs ys)"

definition all_equal_first :: "real list \<Rightarrow> bool" where
  "all_equal_first xs = list_all (\<lambda>v. v = hd xs) xs"

definition pearsonr :: "real list \<Rightarrow> real list \<Rightarrow> error + pyfloat" where
  "pearsonr x y =
     (let n = length x in
      if n \<noteq> length y then Inl ValueError
      else if n < 2 then Inl ValueError
      else if all_equal_first x \<or> all_equal_first y then Inr NaN
      else if n = 2 then Inr (Fin (sgn (x ! 1 - x ! 0) * sgn (y ! 1 - y ! 0)))
      else
        let xmean = mean x; ymean = mean y;
            xm = map (\<lambda>v. v - xmean) x; ym = map (\<lambda>v. v - ymean) y;
            normxm = norm2 xm; normym = norm2 ym;
            r = dot (map (\<lambda>v. v / normxm) xm) (map (\<lambda>v. v / normym) ym)
        in Inr (Fin (max (min r 1) (- 1))))"

text \<open>
  \<^verbatim>\<open>
  def CalcRSquared(observed, estimated):
      r, p = scipy.stats.pearsonr(observed, estimated)
      R2 = r **2
      return R2
  \<close>
\<close>

definition CalcRSquared :: "real list \<Rightarrow> real list \<Rightarrow> error + pyfloat" where
  "CalcRSquared observed estimated =
     (case pearsonr observed estimated of
        Inl e \<Rightarrow> Inl e
      | Inr NaN \<Rightarrow> Inr NaN
      | Inr (Fin r) \<Rightarrow> Inr (Fin (r ^ 2)))"

text \<open>
  What the claims compare the helpers with: the root mean square error and the Pearson
  correlation coefficient, as the textbooks define them.
\<close>

definition root_mean_square_error :: "real list \<Rightarrow> real list \<Rightarrow> real" where
  "root_mean_square_error observed estimated =
     sqrt ((\<Sum>i<length observed. (observed ! i - estimated ! i) ^ 2) / real (length observed))"

definition covariance :: "real list \<Rightarrow> real list \<Rightarrow> real" where
  "covariance xs ys =
     (\<Sum>i<length xs. (xs ! i - mean xs) * (ys ! i - mean ys)) / real (length xs)"

definition variance :: "real list \<Rightarrow> real" where
  "variance xs = covariance xs xs"

definition pearson_correlation :: "real list \<Rightarrow> real list \<Rightarrow> real" where
  "pearson_correlation xs ys = covariance xs ys / (sqrt (variance xs) * sqrt (variance ys))"

section \<open>Tables\<close>

text \<open>
  The flow table \<^verbatim>\<open>cdatasub\<close> is a pandas DataFrame: named columns of equal length, one
  entry per row. A cell is a string (the zone codes and names) or a float. Columns keep
  their order, as in pandas; a new column goes to the end.
\<close>

datatype cell = Str string | Num pyfloat

type_synonym series = "cell list"

type_synonym frame = "(string \<times> series) list"

text \<open>
  pandas keeps all columns of a frame at one length, the number of rows. Where two
  columns carry one name, the model reads the first (pandas refuses a merge that would
  produce such a pair).
\<close>

definition well_formed :: "nat \<Rightarrow> frame \<Rightarrow> bool" where
  "well_formed n df \<longleftrightarrow> list_all (\<lambda>p. length (snd p) = n) df"

text \<open>Running one statement after another, until one raises.\<close>

definition and_then :: "error + 'a \<Rightarrow> ('a \<Rightarrow> error + 'b) \<Rightarrow> error + 'b" where
  "and_then m f = (case m of Inl e \<Rightarrow> Inl e | Inr v \<Rightarrow> f v)"

fun traverse :: "('a \<Rightarrow> error + 'b) \<Rightarrow> 'a list \<Rightarrow> error + 'b list" where
  "traverse f [] = Inr []"
| "traverse f (x # xs) =
     and_then (f x) (\<lambda>y. and_then (traverse f xs) (\<lambda>ys. Inr (y # ys)))"

text \<open>\<^verbatim>\<open>df[c]\<close>: \<^verbatim>\<open>KeyError\<close> for a name that is not a column.\<close>

definition column :: "frame \<Rightarrow> string \<Rightarrow> error + series" where
  "column df c = (case map_of df c of None \<Rightarrow> Inl KeyError | Some s \<Rightarrow> Inr s)"

text \<open>Arithmetic on a column that holds a string raises \<^verbatim>\<open>TypeError\<close>.\<close>

fun as_float :: "cell \<Rightarrow> error + pyfloat" where
  "as_float (Num v) = Inr v"
| "as_float (Str s) = Inl TypeError"

definition numeric :: "frame \<Rightarrow> string \<Rightarrow> error + pyfloat list" where
  "numeric df c = and_then (column df c) (traverse as_float)"

text \<open>\<^verbatim>\<open>df[c] = s\<close>: replaces the column of that name, or appends a new one.\<close>

fun assign :: "string \<Rightarrow> series \<Rightarrow> frame \<Rightarrow> frame" where
  "assign c s [] = [(c, s)]"
| "assign c s (p # df) = (if fst p = c then (c, s) # df else p # assign c s df)"

text \<open>\<^verbatim>\<open>df.drop(columns=[c], inplace=True)\<close>.\<close>

definition drop_column :: "string \<Rightarrow> frame \<Rightarrow> error + frame" where
  "drop_column c df =
     (case map_of df c of
        None \<Rightarrow> Inl KeyError
      | Some s \<Rightarrow> Inr (filter (\<lambda>p. fst p \<noteq> c) df))"

subsection \<open>Arithmetic on floats\<close>

text \<open>
  NaN goes through every operation. The three operations that numpy reports as
  "divide by zero" (\<open>x / 0\<close>, \<open>log 0\<close>, \<open>0 ** negative\<close>) give an infinity there and go
  on with a warning; infinities are not part of this model, and the run ends with
  \<^verbatim>\<open>FloatingPointError\<close>, as it does in numpy under \<^verbatim>\<open>errstate(divide='raise')\<close>.
\<close>

fun f_add :: "pyfloat \<Rightarrow> pyfloat \<Rightarrow> pyfloat" where
  "f_add (Fin a) (Fin b) = Fin (a + b)"
| "f_add _ _ = NaN"

fun f_sub :: "pyfloat \<Rightarrow> pyfloat \<Rightarrow> pyfloat" where
  "f_sub (Fin a) (Fin b) = Fin (a - b)"
| "f_sub _ _ = NaN"

fun f_mul :: "pyfloat \<Rightarrow> pyfloat \<Rightarrow> pyfloat" where
  "f_mul (Fin a) (Fin b) = Fin (a * b)"
| "f_mul _ _ = NaN"

fun f_exp :: "pyfloat \<Rightarrow> pyfloat" where
  "f_exp (Fin a) = Fin (exp a)"
| "f_exp NaN = NaN"

fun f_log :: "pyfloat \<Rightarrow> error + pyfloat" where
  "f_log (Fin a) =
     (if 0 < a then Inr (Fin (ln a)) else if a = 0 then Inl FloatingPointError else Inr NaN)"
| "f_log NaN = Inr NaN"

text \<open>
  \<^verbatim>\<open>x ** p\<close> for a float exponent \<open>p\<close>: anything to the power 0 is 1; a negative base
  has a power only for a whole exponent.
\<close>

definition f_power :: "pyfloat \<Rightarrow> real \<Rightarrow> error + pyfloat" where
  "f_power v p =
     (if p = 0 then Inr (Fin 1)
      else case v of
        NaN \<Rightarrow> Inr NaN
      | Fin b \<Rightarrow>
          if 0 < b then Inr (Fin (b powr p))
          else if b = 0 then (if 0 < p then Inr (Fin 0) else Inl FloatingPointError)
          else if of_int \<lfloor>p\<rfloor> = p then Inr (Fin (b powi \<lfloor>p\<rfloor>))
          else Inr NaN)"

text \<open>\<^verbatim>\<open>1 / x\<close>.\<close>

fun f_recip :: "pyfloat \<Rightarrow> error + pyfloat" where
  "f_recip (Fin a) = (if a = 0 then Inl FloatingPointError else Inr (Fin (1 / a)))"
| "f_recip NaN = Inr NaN"

text \<open>\<^verbatim>\<open>round(series, 0)\<close> and \<^verbatim>\<open>round(series)\<close>: to the nearest whole number, ties to even.\<close>

fun f_round :: "pyfloat \<Rightarrow> pyfloat" where
  "f_round (Fin a) = Fin (of_int (round_half_even a))"
| "f_round NaN = NaN"

subsection \<open>Grouping and merging\<close>

text \<open>
  \<^verbatim>\<open>df.groupby([key])[col].agg(np.sum)\<close>: one entry per key value, NaN keys left out,
  with the sum of the group's values, NaN values skipped. pandas returns the groups
  sorted by key; the model does not sort them, and nothing below depends on their order:
  the groups are only looked up by key.
\<close>

fun finite_values :: "pyfloat list \<Rightarrow> real list" where
  "finite_values [] = []"
| "finite_values (Fin x # vs) = x # finite_values vs"
| "finite_values (NaN # vs) = finite_values vs"

definition group_sum :: "series \<Rightarrow> pyfloat list \<Rightarrow> cell \<Rightarrow> real" where
  "group_sum keys vals k =
     sum_list (finite_values (map snd (filter (\<lambda>p. fst p = k) (zip keys vals))))"

definition group_keys :: "series \<Rightarrow> series" where
  "group_keys keys = remdups (filter (\<lambda>k. k \<noteq> Num NaN) keys)"

definition groupby_sum :: "series \<Rightarrow> pyfloat list \<Rightarrow> (cell \<times> pyfloat) list" where
  "groupby_sum keys vals = map (\<lambda>k. (k, Fin (group_sum keys vals k))) (group_keys keys)"

text \<open>
  \<^verbatim>\<open>left.merge(right, ..., how="left")\<close>: every left row, in order, once for each right
  row whose key equals its own, or once with NaN in the right columns when there is
  none. \<open>right_keys\<close> are the right frame's keys (its index, or its key column) and
  \<open>right\<close> the columns it brings. A column name that both sides have gets the suffix
  \<^verbatim>\<open>_x\<close> on the left and \<^verbatim>\<open>_y\<close> on the right.
\<close>

definition matches :: "series \<Rightarrow> cell \<Rightarrow> nat list" where
  "matches keys k = filter (\<lambda>j. keys ! j = k) [0..<length keys]"

definition join_index :: "series \<Rightarrow> series \<Rightarrow> (nat \<times> nat option) list" where
  "join_index left_keys right_keys =
     concat (map (\<lambda>i. case matches right_keys (left_keys ! i) of
                          [] \<Rightarrow> [(i, None)]
                        | j # js \<Rightarrow> map (\<lambda>j. (i, Some j)) (j # js))
                 [0..<length left_keys])"

definition take_left :: "(nat \<times> nat option) list \<Rightarrow> series \<Rightarrow> series" where
  "take_left idx s = map (\<lambda>p. s ! fst p) idx"

definition take_right :: "(nat \<times> nat option) list \<Rightarrow> series \<Rightarrow> series" where
  "take_right idx s = map (\<lambda>p. case snd p of None \<Rightarrow> Num NaN | Some j \<Rightarrow> s ! j) idx"

definition has_column :: "frame \<Rightarrow> string \<Rightarrow> bool" where
  "has_column df c \<longleftrightarrow> map_of df c \<noteq> None"

definition merge_left :: "frame \<Rightarrow> string \<Rightarrow> series \<Rightarrow> frame \<Rightarrow> error + frame" where
  "merge_left left left_on right_keys right =
     and_then (column left left_on) (\<lambda>left_keys.
       let idx = join_index left_keys right_keys
       in Inr (map (\<lambda>p. (if has_column right (fst p) then fst p @ ''_x'' else fst p,
                           take_left idx (snd p))) left
             @ map (\<lambda>p. (if has_column left (fst p) then fst p @ ''_y'' else fst p,
                           take_right idx (snd p))) right))"

subsection \<open>Rows\<close>

text \<open>
  \<^verbatim>\<open>df.apply(f, axis=1)\<close> hands \<open>f\<close> each row as a Series indexed by the column names.
\<close>

type_synonym row = "(string \<times> cell) list"

definition nrows :: "frame \<Rightarrow> nat" where
  "nrows df = (case df of [] \<Rightarrow> 0 | p # _ \<Rightarrow> length (snd p))"

definition row_at :: "frame \<Rightarrow> nat \<Rightarrow> row" where
  "row_at df i = map (\<lambda>p. (fst p, snd p ! i)) df"

definition rows :: "frame \<Rightarrow> row list" where
  "rows df = map (row_at df) [0..<nrows df]"

definition row_get :: "row \<Rightarrow> string \<Rightarrow> error + cell" where
  "row_get r c = (case map_of r c of None \<Rightarrow> Inl KeyError | Some v \<Rightarrow> Inr v)"

section \<open>The Poisson regressions\<close>

text \<open>
  \<^verbatim>\<open>smf.glm(formula = 'y ~ cat + x1 + x2-1', data = df, family = sm.families.Poisson()).fit()\<close>
  is a call into statsmodels and patsy, not code of the notebook. What follows is its
  contract. The string column \<open>cat\<close> is categorical, and without an intercept it gets one
  coefficient per level, named \<^verbatim>\<open>cat[level]\<close>; the numeric columns \<open>x1\<close> and \<open>x2\<close> get one
  coefficient each, named after the column. The fitted mean of a row is the exponential
  of its linear predictor, and the coefficients returned maximise the Poisson
  log-likelihood of the observed \<open>y\<close>. The model takes the maximum as exact (statsmodels
  iterates to a tolerance) and covers tables whose formula columns hold no missing
  value (patsy would drop such rows); anything else is a \<^verbatim>\<open>PatsyError\<close>.
\<close>

record observation =
  category :: string
  regressor1 :: real
  regressor2 :: real
  response :: real

fun design_row :: "cell \<Rightarrow> cell \<Rightarrow> cell \<Rightarrow> cell \<Rightarrow> error + observation" where
  "design_row (Str l) (Num (Fin u)) (Num (Fin v)) (Num (Fin t)) =
     Inr \<lparr>category = l, regressor1 = u, regressor2 = v, response = t\<rparr>"
| "design_row _ _ _ _ = Inl PatsyError"

definition design ::
  "frame \<Rightarrow> string \<Rightarrow> string \<Rightarrow> string \<Rightarrow> string \<Rightarrow> error + observation list" where
  "design df yname cat xname1 xname2 =
     and_then (column df yname) (\<lambda>ts.
     and_then (column df cat) (\<lambda>ls.
     and_then (column df xname1) (\<lambda>us.
     and_then (column df xname2) (\<lambda>vs.
       traverse (\<lambda>(l, u, v, t). design_row l u v t) (zip ls (zip us (zip vs ts)))))))"

definition linear_predictor :: "(string \<Rightarrow> real) \<Rightarrow> real \<Rightarrow> real \<Rightarrow> observation \<Rightarrow> real" where
  "linear_predictor a b1 b2 ob = a (category ob) + b1 * regressor1 ob + b2 * regressor2 ob"

text \<open>
  The Poisson log-likelihood, without the term \<open>- ln (y!)\<close> that the coefficients do not
  enter.
\<close>

definition log_likelihood :: "observation list \<Rightarrow> (string \<Rightarrow> real) \<Rightarrow> real \<Rightarrow> real \<Rightarrow> real" where
  "log_likelihood obs a b1 b2 =
     (\<Sum>ob\<leftarrow>obs. response ob * linear_predictor a b1 b2 ob - exp (linear_predictor a b1 b2 ob))"

definition maximum_likelihood ::
  "observation list \<Rightarrow> (string \<Rightarrow> real) \<Rightarrow> real \<Rightarrow> real \<Rightarrow> bool" where
  "maximum_likelihood obs a b1 b2 \<longleftrightarrow>
     (\<forall>a' b1' b2'. log_likelihood obs a' b1' b2' \<le> log_likelihood obs a b1 b2)"

text \<open>
  patsy collects the values of a string factor and sorts them, so the levels, and with
  them the coefficients, come in Python's order on strings whatever the order of the
  rows: character by character on the character codes, a proper prefix first. This is
  the lexicographic order on \<open>string\<close>.
\<close>

definition levels :: "observation list \<Rightarrow> string list" where
  "levels obs = sort (remdups (map category obs))"

definition level_name :: "string \<Rightarrow> string \<Rightarrow> string" where
  "level_name cat l = cat @ ''['' @ l @ '']''"

definition params_of ::
  "string \<Rightarrow> string \<Rightarrow> string \<Rightarrow> string list \<Rightarrow> (string \<Rightarrow> real) \<Rightarrow> real \<Rightarrow> real
     \<Rightarrow> (string \<times> real) list" where
  "params_of cat xname1 xname2 ls a b1 b2 =
     map (\<lambda>l. (level_name cat l, a l)) ls @ [(xname1, b1), (xname2, b2)]"

text \<open>
  \<open>params\<close> is what \<^verbatim>\<open>.fit().params\<close> holds: the named coefficients in design order, the
  sorted levels first, then the two numeric columns in the order of the formula.
\<close>

definition glm_fit ::
  "frame \<Rightarrow> string \<Rightarrow> string \<Rightarrow> string \<Rightarrow> string \<Rightarrow> (string \<times> real) list \<Rightarrow> bool" where
  "glm_fit df yname cat xname1 xname2 params \<longleftrightarrow>
     (\<exists>obs a b1 b2.
        design df yname cat xname1 xname2 = Inr obs \<and>
        maximum_likelihood obs a b1 b2 \<and>
        params = params_of cat xname1 xname2 (levels obs) a b1 b2)"

text \<open>
  \<^verbatim>\<open>model.get_prediction(df[[cat, x1, x2]]).summary_frame()["mean"]\<close>: the fitted mean of
  every row. A level the model was not fitted on is a \<^verbatim>\<open>PatsyError\<close>.
\<close>

fun predict_row ::
  "(string \<times> real) list \<Rightarrow> string \<Rightarrow> string \<Rightarrow> string \<Rightarrow> cell \<Rightarrow> cell \<Rightarrow> cell
     \<Rightarrow> error + pyfloat" where
  "predict_row params cat xname1 xname2 (Str l) (Num (Fin u)) (Num (Fin v)) =
     (case map_of params (level_name cat l) of
        None \<Rightarrow> Inl PatsyError
      | Some a \<Rightarrow>
          (case map_of params xname1 of
             None \<Rightarrow> Inl PatsyError
           | Some b1 \<Rightarrow>
               (case map_of params xname2 of
                  None \<Rightarrow> Inl PatsyError
                | Some b2 \<Rightarrow> Inr (Fin (exp (a + b1 * u + b2 * v))))))"
| "predict_row params cat xname1 xname2 _ _ _ = Inl PatsyError"

definition glm_predict ::
  "(string \<times> real) list \<Rightarrow> frame \<Rightarrow> string \<Rightarrow> string \<Rightarrow> string \<Rightarrow> error + pyfloat list" where
  "glm_predict params df cat xname1 xname2 =
     and_then (column df cat) (\<lambda>ls.
     and_then (column df xname1) (\<lambda>us.
     and_then (column df xname2) (\<lambda>vs.
       traverse (\<lambda>(l, u, v). predict_row params cat xname1 xname2 l u v)
         (zip ls (zip us vs)))))"

section \<open>The notebook\<close>

text \<open>
  The notebook is a linear script. Its state is the table \<^verbatim>\<open>cdatasub\<close> and the variables
  that later cells read; a variable read before its cell has run is a \<^verbatim>\<open>NameError\<close>.
  The two fitted models, \<^verbatim>\<open>prodSim\<close> and \<^verbatim>\<open>attrSim\<close>, enter as their coefficient tables.
  Cells that only display a value (\<^verbatim>\<open>head\<close>, the pivot tables, the metric calls) leave the
  state as it is and are left out.
\<close>

record state =
  cdatasub :: frame
  alpha_i :: "(string \<times> real) list option"
  gamma :: "real option"
  beta :: "real option"
  Dj2_gamma :: "pyfloat list option"
  dist_beta :: "pyfloat list option"
  Dj3_gamma :: "pyfloat list option"

definition start :: "frame \<Rightarrow> state" where
  "start df =
     \<lparr>cdatasub = df, alpha_i = None, gamma = None, beta = None,
      Dj2_gamma = None, dist_beta = None, Dj3_gamma = None\<rparr>"

definition variable :: "'a option \<Rightarrow> error + 'a" where
  "variable v = (case v of None \<Rightarrow> Inl NameError | Some x \<Rightarrow> Inr x)"

fun run :: "(state \<Rightarrow> error + state) list \<Rightarrow> state \<Rightarrow> error + state" where
  "run [] s = Inr s"
| "run (c # cs) s = and_then (c s) (run cs)"

text \<open>The states that a run goes through, from the start to the last cell.\<close>

fun trace :: "(state \<Rightarrow> error + state) list \<Rightarrow> state \<Rightarrow> error + state list" where
  "trace [] s = Inr [s]"
| "trace (c # cs) s = and_then (c s) (\<lambda>s'. and_then (trace cs s') (\<lambda>ss. Inr (s # ss)))"

subsection \<open>Origin and destination totals\<close>

text \<open>
  \<^verbatim>\<open>
  O_i = pd.DataFrame(cdatasub.groupby(["OrigCodeNew"])["Total"].agg(np.sum))
  O_i.rename(columns={"Total":"O_i"}, inplace = True)
  cdatasub = cdatasub.merge(O_i, on = "OrigCodeNew", how = "left" )

  D_j = pd.DataFrame(cdatasub.groupby(["DestCodeNew"])["Total"].agg(np.sum))
  D_j.rename(columns={"Total":"D_j"}, inplace = True)
  cdatasub = cdatasub.merge(D_j, on = "DestCodeNew", how = "left" )
  \<close>
\<close>

definition merge_totals :: "string \<Rightarrow> string \<Rightarrow> frame \<Rightarrow> error + frame" where
  "merge_totals key name df =
     and_then (column df key) (\<lambda>keys.
     and_then (numeric df ''Total'') (\<lambda>total.
       let groups = groupby_sum keys total
       in merge_left df key (map fst groups) [(name, map (\<lambda>p. Num (snd p)) groups)]))"

definition cell_O_i_D_j :: "state \<Rightarrow> error + state" where
  "cell_O_i_D_j s =
     and_then (merge_totals ''OrigCodeNew'' ''O_i'' (cdatasub s)) (\<lambda>df.
     and_then (merge_totals ''DestCodeNew'' ''D_j'' df) (\<lambda>df.
       Inr (s\<lparr>cdatasub := df\<rparr>)))"

subsection \<open>The fitted coefficients\<close>

text \<open>
  \<^verbatim>\<open>
  coefs = pd.DataFrame(prodSim.params)
  coefs.reset_index(inplace=True)
  coefs.rename(columns = {0:"alpha_i", "index":"coef"}, inplace = True)
  to_repl = ["(OrigCodeNew)", "\[", "\]"]
  for x in to_repl:
      coefs["coef"] = coefs["coef"].str.replace(x, "")
  cdatasub = cdatasub.merge(coefs, left_on="OrigCodeNew", right_on="coef", how = "left")
  cdatasub.drop(columns = ["coef"], inplace = True)
  \<close>
  \<^verbatim>\<open>str.replace\<close> reads its pattern as a regular expression (the default of the pandas the
  notebook was written for): the three patterns stand for the texts \<^verbatim>\<open>OrigCodeNew\<close>,
  \<^verbatim>\<open>[\<close> and \<^verbatim>\<open>]\<close>, and every occurrence goes, from left to right.
\<close>

function remove_all :: "string \<Rightarrow> string \<Rightarrow> string" where
  "remove_all p s =
     (if s = [] \<or> p = [] then s
      else if take (length p) s = p then remove_all p (drop (length p) s)
      else hd s # remove_all p (tl s))"
  by pat_completeness auto
termination
  by (relation "measure (\<lambda>(p, s). length s)") auto

declare remove_all.simps [simp del]

definition clean_name :: "string \<Rightarrow> string" where
  "clean_name n = remove_all '']'' (remove_all ''['' (remove_all ''OrigCodeNew'' n))"

definition cell_coefs :: "(string \<times> real) list \<Rightarrow> state \<Rightarrow> error + state" where
  "cell_coefs prodSim s =
     (let coef = map (\<lambda>p. Str (clean_name (fst p))) prodSim;
          alpha = map (\<lambda>p. Num (Fin (snd p))) prodSim
      in and_then (merge_left (cdatasub s) ''OrigCodeNew'' coef
                     [(''coef'', coef), (''alpha_i'', alpha)]) (\<lambda>df.
         and_then (drop_column ''coef'' df) (\<lambda>df.
           Inr (s\<lparr>cdatasub := df\<rparr>))))"

text \<open>
  \<^verbatim>\<open>
  alpha_i = prodSim.params[0:7]
  gamma = prodSim.params[7]
  beta = -prodSim.params[8]
  \<close>
\<close>

definition param_at :: "(string \<times> real) list \<Rightarrow> nat \<Rightarrow> error + real" where
  "param_at params i = (if i < length params then Inr (snd (params ! i)) else Inl IndexError)"

definition cell_parameters :: "(string \<times> real) list \<Rightarrow> state \<Rightarrow> error + state" where
  "cell_parameters prodSim s =
     and_then (param_at prodSim 7) (\<lambda>p7.
     and_then (param_at prodSim 8) (\<lambda>p8.
       Inr (s\<lparr>alpha_i := Some (take 7 prodSim), gamma := Some p7, beta := Some (- p8)\<rparr>)))"

subsection \<open>The production-constrained estimates\<close>

text \<open>
  \<^verbatim>\<open>
  cdatasub["prodsimest1"] = np.exp(cdatasub["alpha_i"]+gamma*cdatasub["log_Dj2_destsal"]
                                   - beta*cdatasub["log_Dist"])
  \<close>
\<close>

definition exp_linear ::
  "pyfloat list \<Rightarrow> real \<Rightarrow> pyfloat list \<Rightarrow> real \<Rightarrow> pyfloat list \<Rightarrow> pyfloat list" where
  "exp_linear alpha g log_attraction b log_dist =
     map (\<lambda>(a, d, l). f_exp (f_sub (f_add a (f_mul (Fin g) d)) (f_mul (Fin b) l)))
       (zip alpha (zip log_attraction log_dist))"

definition cell_prodsimest1 :: "state \<Rightarrow> error + state" where
  "cell_prodsimest1 s =
     and_then (numeric (cdatasub s) ''alpha_i'') (\<lambda>alpha.
     and_then (variable (gamma s)) (\<lambda>g.
     and_then (numeric (cdatasub s) ''log_Dj2_destsal'') (\<lambda>log_attraction.
     and_then (variable (beta s)) (\<lambda>b.
     and_then (numeric (cdatasub s) ''log_Dist'') (\<lambda>log_dist.
       Inr (s\<lparr>cdatasub := assign ''prodsimest1''
                  (map Num (exp_linear alpha g log_attraction b log_dist)) (cdatasub s)\<rparr>))))))"

text \<open>
  \<^verbatim>\<open>
  cdatasub["prodsimest1"] = round(cdatasub["prodsimest1"],0)
  \<close>
\<close>

definition round_column :: "string \<Rightarrow> frame \<Rightarrow> error + frame" where
  "round_column c df =
     and_then (numeric df c) (\<lambda>v. Inr (assign c (map (\<lambda>x. Num (f_round x)) v) df))"

definition cell_round_prodsimest1 :: "state \<Rightarrow> error + state" where
  "cell_round_prodsimest1 s =
     and_then (round_column ''prodsimest1'' (cdatasub s)) (\<lambda>df. Inr (s\<lparr>cdatasub := df\<rparr>))"

subsection \<open>The scenario\<close>

text \<open>
  \<^verbatim>\<open>
  def new_sal(row):
      if row["DestCodeNew"] == "E09000002":
          val = 25000
      else:
          val = row["Dj2_destsal"]
      return val

  cdatasub["Dj3_destsalScenario"] = cdatasub.apply(new_sal, axis =1)
  \<close>
\<close>

definition new_sal :: "row \<Rightarrow> error + cell" where
  "new_sal row =
     and_then (row_get row ''DestCodeNew'') (\<lambda>code.
       if code = Str ''E09000002'' then Inr (Num (Fin 25000))
       else row_get row ''Dj2_destsal'')"

definition cell_scenario :: "state \<Rightarrow> error + state" where
  "cell_scenario s =
     and_then (traverse new_sal (rows (cdatasub s))) (\<lambda>v.
       Inr (s\<lparr>cdatasub := assign ''Dj3_destsalScenario'' v (cdatasub s)\<rparr>))"

text \<open>
  \<^verbatim>\<open>
  cdatasub["prodsimest2"] = np.exp(cdatasub["alpha_i"]+gamma*np.log(cdatasub["Dj3_destsalScenario"]) - beta*cdatasub["log_Dist"])
  cdatasub["prodsimest2"] = round(cdatasub["prodsimest2"],0)
  \<close>
\<close>

definition cell_prodsimest2 :: "state \<Rightarrow> error + state" where
  "cell_prodsimest2 s =
     and_then (numeric (cdatasub s) ''alpha_i'') (\<lambda>alpha.
     and_then (variable (gamma s)) (\<lambda>g.
     and_then (numeric (cdatasub s) ''Dj3_destsalScenario'') (\<lambda>attraction.
     and_then (traverse f_log attraction) (\<lambda>log_attraction.
     and_then (variable (beta s)) (\<lambda>b.
     and_then (numeric (cdatasub s) ''log_Dist'') (\<lambda>log_dist.
     and_then (round_column ''prodsimest2''
                 (assign ''prodsimest2''
                    (map Num (exp_linear alpha g log_attraction b log_dist)) (cdatasub s))) (\<lambda>df.
       Inr (s\<lparr>cdatasub := df\<rparr>))))))))"

subsection \<open>The balancing factors\<close>

text \<open>
  \<^verbatim>\<open>
  Dj2_gamma = cdatasub["Dj2_destsal"]**gamma
  dist_beta = cdatasub["Dist"]**beta
  cdatasub["Ai1"] = Dj2_gamma * dist_beta
  A_i = pd.DataFrame(cdatasub.groupby(["OrigCodeNew"])["Ai1"].agg(np.sum))
  A_i["Ai1"] = 1/A_i["Ai1"]
  A_i.rename(columns={"Ai1":"A_i"}, inplace=True)
  cdatasub = cdatasub.merge(A_i, left_on="OrigCodeNew", right_index=True, how="left")
  \<close>
  The second computation, for the scenario, has the same steps from the third line on,
  with \<^verbatim>\<open>Dj3_gamma\<close> in place of \<^verbatim>\<open>Dj2_gamma\<close> and \<^verbatim>\<open>A_i2\<close> as the name of the new column.
\<close>

definition series_power :: "pyfloat list \<Rightarrow> real \<Rightarrow> error + pyfloat list" where
  "series_power v p = traverse (\<lambda>x. f_power x p) v"

definition balancing_factors ::
  "string \<Rightarrow> pyfloat list \<Rightarrow> pyfloat list \<Rightarrow> frame \<Rightarrow> error + frame" where
  "balancing_factors name attraction deterrence df =
     (let df1 = assign ''Ai1'' (map Num (map2 f_mul attraction deterrence)) df
      in and_then (column df1 ''OrigCodeNew'') (\<lambda>keys.
         and_then (numeric df1 ''Ai1'') (\<lambda>ai1.
           let groups = groupby_sum keys ai1
           in and_then (traverse f_recip (map snd groups)) (\<lambda>recips.
                merge_left df1 ''OrigCodeNew'' (map fst groups) [(name, map Num recips)]))))"

definition cell_A_i :: "state \<Rightarrow> error + state" where
  "cell_A_i s =
     and_then (numeric (cdatasub s) ''Dj2_destsal'') (\<lambda>attraction.
     and_then (variable (gamma s)) (\<lambda>g.
     and_then (series_power attraction g) (\<lambda>dj2_gamma.
     and_then (numeric (cdatasub s) ''Dist'') (\<lambda>dist.
     and_then (variable (beta s)) (\<lambda>b.
     and_then (series_power dist b) (\<lambda>dist_b.
     and_then (balancing_factors ''A_i'' dj2_gamma dist_b (cdatasub s)) (\<lambda>df.
       Inr (s\<lparr>cdatasub := df, Dj2_gamma := Some dj2_gamma, dist_beta := Some dist_b\<rparr>))))))))"

text \<open>
  \<^verbatim>\<open>
  cdatasub["prodsimest3"] = cdatasub["A_i"]*cdatasub["O_i"]*Dj2_gamma*dist_beta
  cdatasub["prodsimest3"] = round(cdatasub["prodsimest3"])
  \<close>
\<close>

definition balanced_estimate ::
  "pyfloat list \<Rightarrow> pyfloat list \<Rightarrow> pyfloat list \<Rightarrow> pyfloat list \<Rightarrow> pyfloat list" where
  "balanced_estimate a oi attraction deterrence =
     map2 f_mul (map2 f_mul (map2 f_mul a oi) attraction) deterrence"

definition cell_prodsimest3 :: "state \<Rightarrow> error + state" where
  "cell_prodsimest3 s =
     and_then (numeric (cdatasub s) ''A_i'') (\<lambda>a.
     and_then (numeric (cdatasub s) ''O_i'') (\<lambda>oi.
     and_then (variable (Dj2_gamma s)) (\<lambda>dj2_gamma.
     and_then (variable (dist_beta s)) (\<lambda>dist_b.
     and_then (round_column ''prodsimest3''
                 (assign ''prodsimest3''
                    (map Num (balanced_estimate a oi dj2_gamma dist_b)) (cdatasub s))) (\<lambda>df.
       Inr (s\<lparr>cdatasub := df\<rparr>))))))"

text \<open>
  \<^verbatim>\<open>
  Dj3_gamma = cdatasub["Dj3_destsalScenario"]**gamma
  cdatasub["Ai1"] = Dj3_gamma * dist_beta
  A_i = pd.DataFrame(cdatasub.groupby(["OrigCodeNew"])["Ai1"].agg(np.sum))
  A_i["Ai1"] = 1/A_i["Ai1"]
  A_i.rename(columns={"Ai1":"A_i2"}, inplace=True)
  cdatasub = cdatasub.merge(A_i, left_on="OrigCodeNew", right_index=True, how="left")
  \<close>
\<close>

definition cell_A_i2 :: "state \<Rightarrow> error + state" where
  "cell_A_i2 s =
     and_then (numeric (cdatasub s) ''Dj3_destsalScenario'') (\<lambda>attraction.
     and_then (variable (gamma s)) (\<lambda>g.
     and_then (series_power attraction g) (\<lambda>dj3_gamma.
     and_then (variable (dist_beta s)) (\<lambda>dist_b.
     and_then (balancing_factors ''A_i2'' dj3_gamma dist_b (cdatasub s)) (\<lambda>df.
       Inr (s\<lparr>cdatasub := df, Dj3_gamma := Some dj3_gamma\<rparr>))))))"

text \<open>
  \<^verbatim>\<open>
  cdatasub["prodsimest4"] = cdatasub["A_i2"]*cdatasub["O_i"]*Dj3_gamma*dist_beta
  cdatasub["prodsimest4"] = round(cdatasub["prodsimest4"])
  \<close>
\<close>

definition cell_prodsimest4 :: "state \<Rightarrow> error + state" where
  "cell_prodsimest4 s =
     and_then (numeric (cdatasub s) ''A_i2'') (\<lambda>a.
     and_then (numeric (cdatasub s) ''O_i'') (\<lambda>oi.
     and_then (variable (Dj3_gamma s)) (\<lambda>dj3_gamma.
     and_then (variable (dist_beta s)) (\<lambda>dist_b.
     and_then (round_column ''prodsimest4''
                 (assign ''prodsimest4''
                    (map Num (balanced_estimate a oi dj3_gamma dist_b)) (cdatasub s))) (\<lambda>df.
       Inr (s\<lparr>cdatasub := df\<rparr>))))))"

subsection \<open>The attraction-constrained estimates\<close>

text \<open>
  \<^verbatim>\<open>
  predictions = attrSim.get_prediction(cdatasub[["DestCodeNew", "log_Oi1_origpop", "log_Dist"]])
  predictions_summary_frame = predictions.summary_frame()
  cdatasub["attrsimFitted"] = round(predictions_summary_frame["mean"],0)
  \<close>
\<close>

definition cell_attrsimFitted :: "(string \<times> real) list \<Rightarrow> state \<Rightarrow> error + state" where
  "cell_attrsimFitted attrSim s =
     and_then (glm_predict attrSim (cdatasub s) ''DestCodeNew'' ''log_Oi1_origpop'' ''log_Dist'')
       (\<lambda>mean.
          Inr (s\<lparr>cdatasub := assign ''attrsimFitted''
                    (map (\<lambda>x. Num (f_round x)) mean) (cdatasub s)\<rparr>))"

subsection \<open>The cells in order\<close>

definition production_model :: "(string \<times> real) list \<Rightarrow> (state \<Rightarrow> error + state) list" where
  "production_model prodSim =
     [cell_O_i_D_j, cell_coefs prodSim, cell_parameters prodSim,
      cell_prodsimest1, cell_round_prodsimest1]"

definition scenario :: "(state \<Rightarrow> error + state) list" where
  "scenario = [cell_scenario, cell_prodsimest2]"

definition balancing :: "(state \<Rightarrow> error + state) list" where
  "balancing = [cell_A_i, cell_prodsimest3, cell_A_i2, cell_prodsimest4]"

definition notebook ::
  "(string \<times> real) list \<Rightarrow> (string \<times> real) list \<Rightarrow> (state \<Rightarrow> error + state) list" where
  "notebook prodSim attrSim =
     production_model prodSim @ scenario @ balancing @ [cell_attrsimFitted attrSim]"

section \<open>The input table and the new columns\<close>

text \<open>
  The columns of \<^verbatim>\<open>Data/cdatasub1.csv\<close> that the cells read, one record per row: the origin
  and destination codes, the observed flow, the destination salary, the distance, and the
  three log-transformed predictors.
\<close>

record flow =
  OrigCodeNew :: string
  DestCodeNew :: string
  Total :: real
  Dj2_destsal :: real
  Dist :: real
  log_Dj2_destsal :: real
  log_Dist :: real
  log_Oi1_origpop :: real

definition text_column :: "(flow \<Rightarrow> string) \<Rightarrow> flow list \<Rightarrow> series" where
  "text_column f rs = map (\<lambda>r. Str (f r)) rs"

definition number_column :: "(flow \<Rightarrow> real) \<Rightarrow> flow list \<Rightarrow> series" where
  "number_column f rs = map (\<lambda>r. Num (Fin (f r))) rs"

text \<open>The names of the columns that the cells add, in the order in which they appear.\<close>

definition derived_columns :: "string list" where
  "derived_columns =
     [''O_i'', ''D_j'', ''coef'', ''alpha_i'', ''prodsimest1'', ''Dj3_destsalScenario'',
      ''prodsimest2'', ''Ai1'', ''A_i'', ''prodsimest3'', ''A_i2'', ''prodsimest4'',
      ''attrsimFitted'']"

text \<open>
  \<open>flow_table df rs\<close>: the frame \<open>df\<close> holds the rows \<open>rs\<close> in the eight columns above,
  whatever else it holds, and none of the names that the cells are going to add.
\<close>

definition flow_table :: "frame \<Rightarrow> flow list \<Rightarrow> bool" where
  "flow_table df rs \<longleftrightarrow>
     well_formed (length rs) df \<and>
     map_of df ''OrigCodeNew'' = Some (text_column OrigCodeNew rs) \<and>
     map_of df ''DestCodeNew'' = Some (text_column DestCodeNew rs) \<and>
     map_of df ''Total'' = Some (number_column Total rs) \<and>
     map_of df ''Dj2_destsal'' = Some (number_column Dj2_destsal rs) \<and>
     map_of df ''Dist'' = Some (number_column Dist rs) \<and>
     map_of df ''log_Dj2_destsal'' = Some (number_column log_Dj2_destsal rs) \<and>
     map_of df ''log_Dist'' = Some (number_column log_Dist rs) \<and>
     map_of df ''log_Oi1_origpop'' = Some (number_column log_Oi1_origpop rs) \<and>
     list_all (\<lambda>c. map_of df c = None) derived_columns"

text \<open>
  An origin code is plain when the cleaning of the coefficient names gives it back from
  the name of its coefficient, and it is not the name of a regressor: then the merge of
  the coefficients finds exactly one coefficient for it.
\<close>

definition plain_code :: "string \<Rightarrow> bool" where
  "plain_code l \<longleftrightarrow>
     clean_name (level_name ''OrigCodeNew'' l) = l \<and>
     l \<noteq> ''log_Dj2_destsal'' \<and> l \<noteq> ''log_Dist''"

text \<open>The rows of one origin, and of one destination.\<close>

definition from_origin :: "string \<Rightarrow> flow list \<Rightarrow> flow list" where
  "from_origin i rs = filter (\<lambda>r. OrigCodeNew r = i) rs"

definition to_destination :: "string \<Rightarrow> flow list \<Rightarrow> flow list" where
  "to_destination j rs = filter (\<lambda>r. DestCodeNew r = j) rs"

text \<open>
  What a left merge brings to a row with key \<open>k\<close> from a right column \<open>s\<close>, when the
  right keys are distinct: the entry of \<open>s\<close> at the position of \<open>k\<close> among the right keys,
  or NaN.
\<close>

definition position :: "series \<Rightarrow> cell \<Rightarrow> nat option" where
  "position keys k = (case matches keys k of [] \<Rightarrow> None | j # js \<Rightarrow> Some j)"

definition brought :: "series \<Rightarrow> series \<Rightarrow> cell \<Rightarrow> cell" where
  "brought keys s k = (case position keys k of None \<Rightarrow> Num NaN | Some j \<Rightarrow> s ! j)"

text \<open>
  The design of the two regressions, row by row, and the totals that the claims speak of:
  the observed flow out of an origin and into a destination.
\<close>

definition production_design :: "flow list \<Rightarrow> observation list" where
  "production_design rs =
     map (\<lambda>r. \<lparr>category = OrigCodeNew r, regressor1 = log_Dj2_destsal r,
                regressor2 = log_Dist r, response = Total r\<rparr>) rs"

definition attraction_design :: "flow list \<Rightarrow> observation list" where
  "attraction_design rs =
     map (\<lambda>r. \<lparr>category = DestCodeNew r, regressor1 = log_Oi1_origpop r,
                regressor2 = log_Dist r, response = Total r\<rparr>) rs"

definition origin_total :: "flow list \<Rightarrow> string \<Rightarrow> real" where
  "origin_total rs i = (\<Sum>r\<leftarrow>from_origin i rs. Total r)"

definition destination_total :: "flow list \<Rightarrow> string \<Rightarrow> real" where
  "destination_total rs j = (\<Sum>r\<leftarrow>to_destination j rs. Total r)"

text \<open>The columns that the cells of the production-constrained model add.\<close>

definition totals_columns :: "flow list \<Rightarrow> frame" where
  "totals_columns rs =
     [(''O_i'', number_column (\<lambda>r. origin_total rs (OrigCodeNew r)) rs),
      (''D_j'', number_column (\<lambda>r. destination_total rs (DestCodeNew r)) rs)]"

text \<open>
  The estimate of the notebook's equation (4), \<open>exp (\<alpha>\<^sub>i + \<gamma> ln D\<^sub>j - \<beta> ln d\<^sub>i\<^sub>j)\<close>, for one row.
\<close>

definition fitted_flow :: "(string \<Rightarrow> real) \<Rightarrow> real \<Rightarrow> real \<Rightarrow> flow \<Rightarrow> real" where
  "fitted_flow a g b r = exp (a (OrigCodeNew r) + g * log_Dj2_destsal r - b * log_Dist r)"

definition rounded :: "real \<Rightarrow> real" where
  "rounded x = of_int (round_half_even x)"

definition production_columns :: "flow list \<Rightarrow> (string \<Rightarrow> real) \<Rightarrow> real \<Rightarrow> real \<Rightarrow> frame" where
  "production_columns rs a g b =
     totals_columns rs @
     [(''alpha_i'', number_column (\<lambda>r. a (OrigCodeNew r)) rs),
      (''prodsimest1'', number_column (\<lambda>r. rounded (fitted_flow a g b r)) rs)]"

text \<open>
  The coefficient that the merge of the coefficient table finds under a cleaned name.
\<close>

definition coefficient_cell :: "(string \<Rightarrow> real) \<Rightarrow> real \<Rightarrow> real \<Rightarrow> cell \<Rightarrow> cell" where
  "coefficient_cell a g c k =
     (case k of
        Str l \<Rightarrow> Num (Fin (if l = ''log_Dist'' then c else if l = ''log_Dj2_destsal'' then g else a l))
      | Num v \<Rightarrow> Num NaN)"

text \<open>The columns that the scenario and the balancing-factor cells add, row by row.\<close>

definition scenario_salary :: "flow \<Rightarrow> real" where
  "scenario_salary r = (if DestCodeNew r = ''E09000002'' then 25000 else Dj2_destsal r)"

definition scenario_flow :: "(string \<Rightarrow> real) \<Rightarrow> real \<Rightarrow> real \<Rightarrow> flow \<Rightarrow> real" where
  "scenario_flow a g b r = exp (a (OrigCodeNew r) + g * ln (scenario_salary r) - b * log_Dist r)"

text \<open>
  The balancing factor as the cells compute it, with the attractiveness \<open>w\<close> (the salary,
  or the scenario salary): the distance enters with the exponent \<open>b\<close>, the value of the
  variable \<^verbatim>\<open>beta\<close>.
\<close>

definition computed_factor :: "(flow \<Rightarrow> real) \<Rightarrow> real \<Rightarrow> real \<Rightarrow> flow list \<Rightarrow> string \<Rightarrow> real" where
  "computed_factor w g b rs i = 1 / (\<Sum>r\<leftarrow>from_origin i rs. w r powr g * Dist r powr b)"

definition computed_flow :: "(flow \<Rightarrow> real) \<Rightarrow> real \<Rightarrow> real \<Rightarrow> flow list \<Rightarrow> flow \<Rightarrow> real" where
  "computed_flow w g b rs r =
     computed_factor w g b rs (OrigCodeNew r) * origin_total rs (OrigCodeNew r)
       * w r powr g * Dist r powr b"

definition scenario_columns :: "flow list \<Rightarrow> (string \<Rightarrow> real) \<Rightarrow> real \<Rightarrow> real \<Rightarrow> frame" where
  "scenario_columns rs a g b =
     [(''Dj3_destsalScenario'', number_column scenario_salary rs),
      (''prodsimest2'', number_column (\<lambda>r. rounded (scenario_flow a g b r)) rs)]"

definition balancing_columns :: "flow list \<Rightarrow> real \<Rightarrow> real \<Rightarrow> frame" where
  "balancing_columns rs g b =
     [(''Ai1'', number_column (\<lambda>r. scenario_salary r powr g * Dist r powr b) rs),
      (''A_i'', number_column (\<lambda>r. computed_factor Dj2_destsal g b rs (OrigCodeNew r)) rs),
      (''prodsimest3'', number_column (\<lambda>r. rounded (computed_flow Dj2_destsal g b rs r)) rs),
      (''A_i2'', number_column (\<lambda>r. computed_factor scenario_salary g b rs (OrigCodeNew r)) rs),
      (''prodsimest4'', number_column (\<lambda>r. rounded (computed_flow scenario_salary g b rs r)) rs)]"

text \<open>The fitted mean of the attraction-constrained model for one row.\<close>

definition attraction_flow :: "(string \<Rightarrow> real) \<Rightarrow> real \<Rightarrow> real \<Rightarrow> flow \<Rightarrow> real" where
  "attraction_flow a g c r = exp (a (DestCodeNew r) + g * log_Oi1_origpop r + c * log_Dist r)"

text \<open>All the columns that a run of the notebook adds to the table, in order.\<close>

definition notebook_columns ::
  "flow list \<Rightarrow> (string \<Rightarrow> real) \<Rightarrow> real \<Rightarrow> real \<Rightarrow> (string \<Rightarrow> real) \<Rightarrow> real \<Rightarrow> real \<Rightarrow> frame" where
  "notebook_columns rs a g b a' g' c' =
     production_columns rs a g b @ scenario_columns rs a g b @ balancing_columns rs g b @
     [(''attrsimFitted'', number_column (\<lambda>r. rounded (attraction_flow a' g' c' r)) rs)]"

text \<open>
  The new columns of the table at the start and after each of the twelve cells. The cell
  that saves the parameters leaves the table alone; the second computation of balancing
  factors overwrites the helper column \<^verbatim>\<open>Ai1\<close> of the first.
\<close>

definition notebook_stages ::
  "flow list \<Rightarrow> (string \<Rightarrow> real) \<Rightarrow> real \<Rightarrow> real \<Rightarrow> (string \<Rightarrow> real) \<Rightarrow> real \<Rightarrow> real
     \<Rightarrow> frame list" where
  "notebook_stages rs a g b a' g' c' =
     (let alpha = (''alpha_i'', number_column (\<lambda>r. a (OrigCodeNew r)) rs);
          P = production_columns rs a g b;
          S = scenario_columns rs a g b;
          Ai1 = (''Ai1'', number_column (\<lambda>r. Dj2_destsal r powr g * Dist r powr b) rs);
          Ai1' = (''Ai1'', number_column (\<lambda>r. scenario_salary r powr g * Dist r powr b) rs);
          A = (''A_i'', number_column
                 (\<lambda>r. computed_factor Dj2_destsal g b rs (OrigCodeNew r)) rs);
          E3 = (''prodsimest3'', number_column
                  (\<lambda>r. rounded (computed_flow Dj2_destsal g b rs r)) rs);
          A2 = (''A_i2'', number_column
                  (\<lambda>r. computed_factor scenario_salary g b rs (OrigCodeNew r)) rs)
      in [[],
          totals_columns rs,
          totals_columns rs @ [alpha],
          totals_columns rs @ [alpha],
          totals_columns rs @ [alpha, (''prodsimest1'', number_column (fitted_flow a g b) rs)],
          P,
          P @ [(''Dj3_destsalScenario'', number_column scenario_salary rs)],
          P @ S,
          P @ S @ [Ai1, A],
          P @ S @ [Ai1, A, E3],
          P @ S @ [Ai1', A, E3, A2],
          P @ S @ balancing_columns rs g b,
          notebook_columns rs a g b a' g' c'])"


subsection \<open>The balancing factor as the notebook states it\<close>

text \<open>
  These two definitions do not come from the code cells but from the notebook's own
  equations: equation (3), \<open>A\<^sub>i = 1 / (\<Sum>\<^sub>j D\<^sub>j\<^sup>\<gamma> d\<^sub>i\<^sub>j\<^sup>-\<^sup>\<beta>)\<close>, and equation (1),
  \<open>T\<^sub>i\<^sub>j = A\<^sub>i O\<^sub>i D\<^sub>j\<^sup>\<gamma> d\<^sub>i\<^sub>j\<^sup>-\<^sup>\<beta>\<close>. They differ from \<open>computed_factor\<close> and \<open>computed_flow\<close>,
  which follow the cells, in the sign of the exponent of the distance.
\<close>

definition equation_factor :: "(flow \<Rightarrow> real) \<Rightarrow> real \<Rightarrow> real \<Rightarrow> flow list \<Rightarrow> string \<Rightarrow> real" where
  "equation_factor w g b rs i = 1 / (\<Sum>r\<leftarrow>from_origin i rs. w r powr g * Dist r powr (- b))"

definition equation_flow :: "(flow \<Rightarrow> real) \<Rightarrow> real \<Rightarrow> real \<Rightarrow> flow list \<Rightarrow> flow \<Rightarrow> real" where
  "equation_flow w g b rs r =
     equation_factor w g b rs (OrigCodeNew r) * origin_total rs (OrigCodeNew r)
       * w r powr g * Dist r powr (- b)"

section \<open>A table to run the notebook on\<close>

text \<open>
  A frame with exactly the eight columns that the cells read, as \<^verbatim>\<open>pd.read_csv\<close> would
  deliver it.
\<close>

definition table_of :: "flow list \<Rightarrow> frame" where
  "table_of rs =
     [(''OrigCodeNew'', text_column OrigCodeNew rs),
      (''DestCodeNew'', text_column DestCodeNew rs),
      (''Total'', number_column Total rs),
      (''Dj2_destsal'', number_column Dj2_destsal rs),
      (''Dist'', number_column Dist rs),
      (''log_Dj2_destsal'', number_column log_Dj2_destsal rs),
      (''log_Dist'', number_column log_Dist rs),
      (''log_Oi1_origpop'', number_column log_Oi1_origpop rs)]"

text \<open>
  A row with origin \<open>i\<close>, destination \<open>j\<close>, flow \<open>t\<close>, destination salary \<open>w\<close>, distance
  \<open>d\<close> and origin population \<open>n\<close>; its three log columns are the logarithms of \<open>w\<close>, \<open>d\<close>
  and \<open>n\<close>.
\<close>

definition flow_row :: "string \<Rightarrow> string \<Rightarrow> real \<Rightarrow> real \<Rightarrow> real \<Rightarrow> real \<Rightarrow> flow" where
  "flow_row i j t w d n =
     \<lparr>OrigCodeNew = i, DestCodeNew = j, Total = t, Dj2_destsal = w, Dist = d,
      log_Dj2_destsal = ln w, log_Dist = ln d, log_Oi1_origpop = ln n\<rparr>"

text \<open>
  Seven origins with two destinations each. The flows are chosen so that both Poisson
  models fit them exactly: every flow is the destination salary divided by the distance.
\<close>

definition example_rows :: "flow list" where
  "example_rows =
     [flow_row ''E09000001'' ''E09000002'' 2 16200 8100 110000,
      flow_row ''E09000001'' ''E09000003'' 2 32400 16200 110000,
      flow_row ''E09000002'' ''E09000003'' 4 32400 8100 120000,
      flow_row ''E09000002'' ''E09000001'' 2 32400 16200 120000,
      flow_row ''E09000003'' ''E09000002'' 2 16200 8100 130000,
      flow_row ''E09000003'' ''E09000001'' 2 32400 16200 130000,
      flow_row ''E09000004'' ''E09000002'' 2 16200 8100 140000,
      flow_row ''E09000004'' ''E09000003'' 2 32400 16200 140000,
      flow_row ''E09000005'' ''E09000002'' 2 16200 8100 150000,
      flow_row ''E09000005'' ''E09000003'' 2 32400 16200 150000,
      flow_row ''E09000006'' ''E09000002'' 2 16200 8100 160000,
      flow_row ''E09000006'' ''E09000003'' 2 32400 16200 160000,
      flow_row ''E09000007'' ''E09000002'' 2 16200 8100 170000,
      flow_row ''E09000007'' ''E09000003'' 2 32400 16200 170000]"

definition example_table :: frame where
  "example_table = table_of example_rows"

text \<open>
  The coefficients of the two fits on this table: every \<open>\<alpha>\<^sub>i\<close> is 0, \<open>\<gamma>\<close> is 1 and the
  coefficient of the log distance is -1 in the production-constrained model; the
  destination effects are the log salaries, the coefficient of the log population is 0 and
  that of the log distance is -1 in the attraction-constrained model.
\<close>

definition example_prodSim :: "(string \<times> real) list" where
  "example_prodSim =
     [(''OrigCodeNew[E09000001]'', 0), (''OrigCodeNew[E09000002]'', 0),
      (''OrigCodeNew[E09000003]'', 0), (''OrigCodeNew[E09000004]'', 0),
      (''OrigCodeNew[E09000005]'', 0), (''OrigCodeNew[E09000006]'', 0),
      (''OrigCodeNew[E09000007]'', 0), (''log_Dj2_destsal'', 1), (''log_Dist'', - 1)]"

definition example_attrSim :: "(string \<times> real) list" where
  "example_attrSim =
     [(''DestCodeNew[E09000001]'', ln 32400), (''DestCodeNew[E09000002]'', ln 16200),
      (''DestCodeNew[E09000003]'', ln 32400), (''log_Oi1_origpop'', 0), (''log_Dist'', - 1)]"

definition example_effects :: "string \<Rightarrow> real" where
  "example_effects l = (if l = ''E09000002'' then ln 16200 else ln 32400)"

section \<open>Rounding\<close>

lemma round_half_even_error: "\<bar>of_int (round_half_even x) - x\<bar> \<le> 1 / 2"
  unfolding round_half_even_def Let_def by (auto; linarith)

lemma round_half_even_eqI:
  "of_int k - 1 / 2 < x \<Longrightarrow> x < of_int k + 1 / 2 \<Longrightarrow> round_half_even x = k"
proof -
  assume a: "of_int k - 1 / 2 < x" "x < of_int k + 1 / 2"
  have "\<lfloor>x\<rfloor> = k \<or> \<lfloor>x\<rfloor> = k - 1" using a by linarith
  then show ?thesis
  proof
    assume f: "\<lfloor>x\<rfloor> = k"
    then have "x - of_int k < 1 / 2" using a by simp
    then show ?thesis using f by (simp add: round_half_even_def Let_def)
  next
    assume f: "\<lfloor>x\<rfloor> = k - 1"
    then have "1 / 2 < x - of_int (k - 1)" using a by simp
    then show ?thesis using f by (simp add: round_half_even_def Let_def)
  qed
qed

lemma round_half_even_nearest:
  "\<bar>of_int (round_half_even x) - x\<bar> \<le> \<bar>of_int (j::int) - x\<bar>"
proof (cases "j = round_half_even x")
  case True
  then show ?thesis by simp
next
  case False
  then have "1 \<le> \<bar>j - round_half_even x\<bar>" by linarith
  then have "1 \<le> \<bar>(of_int j :: real) - of_int (round_half_even x)\<bar>"
    by (metis of_int_1_le_iff of_int_abs of_int_diff)
  then show ?thesis using round_half_even_error[of x] by linarith
qed

lemma py_round_error: "\<bar>py_round x 3 - x\<bar> \<le> 1 / 2000"
proof -
  have "\<bar>of_int (round_half_even (x * 1000)) - x * 1000\<bar> \<le> 1 / 2"
    by (rule round_half_even_error)
  then show ?thesis unfolding py_round_def by (simp add: field_simps abs_le_iff)
qed

lemma py_round_nearest:
  "\<bar>py_round x 3 - x\<bar> \<le> \<bar>of_int (j::int) / 1000 - x\<bar>"
proof -
  have "\<bar>of_int (round_half_even (x * 1000)) - x * 1000\<bar> \<le> \<bar>of_int j - x * 1000\<bar>"
    by (rule round_half_even_nearest)
  then have "\<bar>(py_round x 3 - x) * 1000\<bar> \<le> \<bar>(of_int j / 1000 - x) * 1000\<bar>"
    by (simp add: py_round_def algebra_simps)
  then show ?thesis by (simp only: abs_mult) simp
qed

section \<open>The root mean square error helper\<close>

lemma sum_list_pow2_sub:
  "length xs = length ys \<Longrightarrow>
   sum_list (series_pow2 (series_sub xs ys)) = (\<Sum>i<length xs. (xs ! i - ys ! i) ^ 2)"
  unfolding series_pow2_def series_sub_def
  by (simp add: sum_list_sum_nth atLeast0LessThan)

lemma CalcRMSE_eq:
  assumes "length observed = length estimated" "observed \<noteq> []"
  shows "CalcRMSE observed estimated = Inr (Fin (py_round (root_mean_square_error observed estimated) 3))"
proof -
  let ?res = "series_pow2 (series_sub observed estimated)"
  have ne: "?res \<noteq> []" using assms by (cases observed; cases estimated) (simp_all add: series_pow2_def series_sub_def)
  have len: "length ?res = length observed" using assms by (simp add: series_pow2_def series_sub_def)
  have nonneg: "0 \<le> sum_list ?res / real (length ?res)"
    by (intro divide_nonneg_nonneg sum_list_nonneg) (auto simp: series_pow2_def)
  show ?thesis
    using ne nonneg len sum_list_pow2_sub[OF assms(1)]
    by (simp add: CalcRMSE_def series_mean_def math_sqrt_def root_mean_square_error_def Let_def)
qed

text \<open>
  Two runs traced by hand. On observed \<open>[1, 0]\<close> and estimated \<open>[0, 0]\<close> the squared
  differences are \<open>[1, 0]\<close>, their mean is \<open>1/2\<close>, its root is \<open>0.70710...\<close>, and
  \<^verbatim>\<open>round(..., 3)\<close> gives \<open>0.707\<close>.
\<close>

lemma sqrt_half_bounds: "706.5 < sqrt (1 / 2) * 1000" "sqrt (1 / 2) * 1000 < 707.5"
proof -
  have e: "sqrt (1 / 2) * 1000 = sqrt 500000"
  proof -
    have "sqrt 500000 = sqrt (1 / 2 * 1000\<^sup>2)" by simp
    also have "\<dots> = sqrt (1 / 2) * 1000" by (simp only: real_sqrt_mult real_sqrt_abs)
    finally show ?thesis by simp
  qed
  show "706.5 < sqrt (1 / 2) * 1000" unfolding e by (rule real_less_rsqrt) (simp add: power2_eq_square)
  show "sqrt (1 / 2) * 1000 < 707.5" unfolding e by (rule real_less_lsqrt) (simp_all add: power2_eq_square)
qed

lemma CalcRMSE_example: "CalcRMSE [1, 0] [0, 0] = Inr (Fin (707 / 1000))"
proof -
  have "round_half_even (sqrt (1 / 2) * 1000) = 707"
    using sqrt_half_bounds by (intro round_half_even_eqI) simp_all
  then show ?thesis
    by (simp add: CalcRMSE_def series_pow2_def series_sub_def series_mean_def math_sqrt_def py_round_def)
qed

lemma rmse_example: "root_mean_square_error [1, 0] [0, 0] = sqrt (1 / 2)"
  by (simp add: root_mean_square_error_def lessThan_Suc numeral_2_eq_2)

lemma collide: "CalcRMSE [1 / 10000] [0] = Inr (Fin 0)" "CalcRMSE [1 / 5000] [0] = Inr (Fin 0)"
  "root_mean_square_error [1 / 10000] [0] = 1 / 10000"
  "root_mean_square_error [1 / 5000] [0] = 1 / 5000"
proof -
  have a: "round_half_even (1 / 10) = 0" by (intro round_half_even_eqI) simp_all
  have b: "round_half_even (1 / 5) = 0" by (intro round_half_even_eqI) simp_all
  show "CalcRMSE [1 / 10000] [0] = Inr (Fin 0)" using a
    by (simp add: CalcRMSE_def series_pow2_def series_sub_def series_mean_def math_sqrt_def py_round_def real_sqrt_divide)
  show "CalcRMSE [1 / 5000] [0] = Inr (Fin 0)" using b
    by (simp add: CalcRMSE_def series_pow2_def series_sub_def series_mean_def math_sqrt_def py_round_def real_sqrt_divide)
  show "root_mean_square_error [1 / 10000] [0] = 1 / 10000"
    by (simp add: root_mean_square_error_def real_sqrt_divide)
  show "root_mean_square_error [1 / 5000] [0] = 1 / 5000"
    by (simp add: root_mean_square_error_def real_sqrt_divide)
qed

text \<open>
  C6, as stated: \<^verbatim>\<open>CalcRMSE\<close> returns the square root of the mean of the squared
  differences. It does not: on observed \<open>[1, 0]\<close> and estimated \<open>[0, 0]\<close> it returns
  \<open>0.707\<close>, and the root mean square error is \<open>sqrt (1/2)\<close>.
\<close>

theorem CalcRMSE_not_exact_rmse:
  "CalcRMSE [1, 0] [0, 0] = Inr (Fin (707 / 1000)) \<and>
   CalcRMSE [1, 0] [0, 0] \<noteq> Inr (Fin (root_mean_square_error [1, 0] [0, 0]))"
proof -
  have "sqrt (1 / 2) \<noteq> 707 / 1000"
  proof
    assume "sqrt (1 / 2) = 707 / 1000"
    then have "(sqrt (1 / 2))\<^sup>2 = (707 / 1000 :: real)\<^sup>2" by (rule arg_cong)
    moreover have "(sqrt (1 / 2))\<^sup>2 = 1 / 2" by (rule real_sqrt_pow2) simp
    ultimately have "(1 / 2 :: real) = (707 / 1000)\<^sup>2" by (simp only:)
    then show False by (simp add: power2_eq_square)
  qed
  then show ?thesis by (simp add: CalcRMSE_example rmse_example)
qed

text \<open>
  C6, amended: for equal-length non-empty series \<^verbatim>\<open>CalcRMSE\<close> returns the root mean
  square error rounded to three decimal places (ties to even), a value within \<open>0.0005\<close> of
  the root mean square error.
\<close>

theorem CalcRMSE_rounded_rmse:
  assumes "length observed = length estimated" "observed \<noteq> []"
  shows "CalcRMSE observed estimated
           = Inr (Fin (py_round (root_mean_square_error observed estimated) 3))
         \<and> \<bar>py_round (root_mean_square_error observed estimated) 3
              - root_mean_square_error observed estimated\<bar> \<le> 1 / 2000"
  using CalcRMSE_eq[OF assms] py_round_error by simp

text \<open>
  Witness for C6 (amended): the hypotheses hold for observed \<open>[1, 0]\<close>, estimated
  \<open>[0, 0]\<close>.
\<close>

theorem CalcRMSE_rounded_rmse_witness:
  "length [1, 0 :: real] = length [0, 0 :: real] \<and> [1, 0 :: real] \<noteq> [] \<and>
   CalcRMSE [1, 0] [0, 0] = Inr (Fin (py_round (root_mean_square_error [1, 0] [0, 0]) 3)) \<and>
   \<bar>py_round (root_mean_square_error [1, 0] [0, 0]) 3 - root_mean_square_error [1, 0] [0, 0]\<bar>
     \<le> 1 / 2000"
  using CalcRMSE_rounded_rmse[of "[1, 0]" "[0, 0]"] by simp

text \<open>
  C8: \<^verbatim>\<open>CalcRMSE\<close> returns a number with three decimal places, the multiple of
  \<open>0.001\<close> nearest to the root mean square error, not the error itself. Inputs whose
  errors differ by less than the granularity can therefore give the same result: the
  errors \<open>0.0001\<close> and \<open>0.0002\<close> both come back as \<open>0\<close>.
\<close>

theorem CalcRMSE_three_decimals:
  assumes "length observed = length estimated" "observed \<noteq> []"
  shows "(\<exists>k::int. CalcRMSE observed estimated = Inr (Fin (of_int k / 1000)) \<and>
            (\<forall>j::int. \<bar>of_int k / 1000 - root_mean_square_error observed estimated\<bar>
                        \<le> \<bar>of_int j / 1000 - root_mean_square_error observed estimated\<bar>))
         \<and> CalcRMSE [1 / 10000] [0] = CalcRMSE [1 / 5000] [0]
         \<and> root_mean_square_error [1 / 10000] [0] \<noteq> root_mean_square_error [1 / 5000] [0]
         \<and> CalcRMSE [1 / 10000] [0] \<noteq> Inr (Fin (root_mean_square_error [1 / 10000] [0]))"
proof -
  let ?x = "root_mean_square_error observed estimated"
  let ?k = "round_half_even (?x * 10 ^ 3)"
  have "CalcRMSE observed estimated = Inr (Fin (of_int ?k / 1000))"
    using CalcRMSE_eq[OF assms] by (simp add: py_round_def)
  moreover have "\<forall>j::int. \<bar>of_int ?k / 1000 - ?x\<bar> \<le> \<bar>of_int j / 1000 - ?x\<bar>"
    using py_round_nearest[of ?x] by (simp add: py_round_def)
  ultimately have "\<exists>k::int. CalcRMSE observed estimated = Inr (Fin (of_int k / 1000)) \<and>
            (\<forall>j::int. \<bar>of_int k / 1000 - ?x\<bar> \<le> \<bar>of_int j / 1000 - ?x\<bar>)"
    by blast
  then show ?thesis by (simp add: collide)
qed

text \<open>
  Witness for C8: the hypotheses hold for observed \<open>[1, 0]\<close>, estimated \<open>[0, 0]\<close>.
\<close>

theorem CalcRMSE_three_decimals_witness:
  "length [1, 0 :: real] = length [0, 0 :: real] \<and> [1, 0 :: real] \<noteq> [] \<and>
   (\<exists>k::int. CalcRMSE [1, 0] [0, 0] = Inr (Fin (of_int k / 1000)) \<and>
            (\<forall>j::int. \<bar>of_int k / 1000 - root_mean_square_error [1, 0] [0, 0]\<bar>
                        \<le> \<bar>of_int j / 1000 - root_mean_square_error [1, 0] [0, 0]\<bar>))"
  using CalcRMSE_three_decimals[of "[1, 0]" "[0, 0]"] by simp

section \<open>The R-squared helper\<close>

text \<open>
  The clamp in \<^verbatim>\<open>pearsonr\<close> never acts on exact numbers: by the Cauchy-Schwarz
  inequality the normalised dot product lies between \<open>-1\<close> and \<open>1\<close>.
\<close>

lemma cs_step:
  fixes a b A B C :: real
  assumes "C\<^sup>2 \<le> A * B" "0 \<le> A" "0 \<le> B"
  shows "(a * b + C)\<^sup>2 \<le> (a * a + A) * (b * b + B)"
proof -
  have "(a * b * C)\<^sup>2 = (a * b)\<^sup>2 * C\<^sup>2" by (simp add: power_mult_distrib)
  also have "\<dots> \<le> (a * b)\<^sup>2 * (A * B)" using assms(1) by (intro mult_left_mono) simp_all
  also have "\<dots> = (a * a * B) * (b * b * A)" by (simp add: power2_eq_square)
  also have "\<dots> \<le> ((a * a * B + b * b * A) / 2)\<^sup>2"
  proof -
    have "0 \<le> (a * a * B - b * b * A)\<^sup>2" by simp
    then show ?thesis by (simp add: power2_eq_square field_simps)
  qed
  finally have "(a * b * C)\<^sup>2 \<le> ((a * a * B + b * b * A) / 2)\<^sup>2" .
  moreover have "0 \<le> (a * a * B + b * b * A) / 2" using assms(2,3) by simp
  ultimately have "a * b * C \<le> (a * a * B + b * b * A) / 2" by (rule power2_le_imp_le)
  then have "2 * (a * b * C) \<le> a * a * B + b * b * A" by simp
  moreover have "(a * b + C)\<^sup>2 = (a * b)\<^sup>2 + 2 * (a * b * C) + C\<^sup>2" by (simp add: power2_eq_square algebra_simps)
  moreover have "(a * a + A) * (b * b + B) = (a * b)\<^sup>2 + (a * a * B + b * b * A) + A * B" by (simp add: power2_eq_square algebra_simps)
  ultimately show ?thesis using assms(1) by linarith
qed

lemma sum_list_squares_nonneg: "0 \<le> sum_list (map (\<lambda>v::real. v * v) xs)"
  by (intro sum_list_nonneg) auto

lemma dot_Cauchy_Schwarz:
  "length xs = length ys \<Longrightarrow>
   (dot xs ys)\<^sup>2 \<le> sum_list (map (\<lambda>v. v * v) xs) * sum_list (map (\<lambda>v. v * v) ys)"
proof (induction xs ys rule: list_induct2)
  case Nil
  then show ?case by (simp add: dot_def)
next
  case (Cons x xs y ys)
  then show ?case
    using cs_step[of "dot xs ys" "sum_list (map (\<lambda>v. v * v) xs)" "sum_list (map (\<lambda>v. v * v) ys)" x y]
    by (simp add: dot_def sum_list_squares_nonneg)
qed

lemma dot_le_norms: "length xs = length ys \<Longrightarrow> \<bar>dot xs ys\<bar> \<le> norm2 xs * norm2 ys"
proof -
  assume l: "length xs = length ys"
  have "(dot xs ys)\<^sup>2 \<le> (norm2 xs * norm2 ys)\<^sup>2"
    using dot_Cauchy_Schwarz[OF l]
    by (simp add: norm2_def power_mult_distrib sum_list_squares_nonneg)
  moreover have "0 \<le> norm2 xs * norm2 ys" by (simp add: norm2_def sum_list_squares_nonneg)
  ultimately show ?thesis by (metis abs_le_square_iff abs_of_nonneg)
qed

lemma dot_scaled: "dot (map (\<lambda>v. v / a) xs) (map (\<lambda>v. v / b) ys) = dot xs ys / (a * b)"
proof (induction xs arbitrary: ys)
  case Nil
  then show ?case by (simp add: dot_def)
next
  case (Cons x xs)
  then show ?case by (cases ys) (simp_all add: dot_def add_divide_distrib)
qed

lemma clamp_unit: "\<bar>r\<bar> \<le> 1 \<Longrightarrow> max (min r 1) (- 1) = (r::real)"
  by (simp add: abs_le_iff)

lemma normalised_dot_bounded:
  assumes "length xs = length ys" "norm2 xs \<noteq> 0" "norm2 ys \<noteq> 0"
  shows "\<bar>dot xs ys / (norm2 xs * norm2 ys)\<bar> \<le> 1"
proof -
  have p: "0 < norm2 xs * norm2 ys"
    using assms(2,3) by (simp add: norm2_def sum_list_squares_nonneg zero_less_mult_iff less_le)
  have "\<bar>dot xs ys / (norm2 xs * norm2 ys)\<bar> = \<bar>dot xs ys\<bar> / (norm2 xs * norm2 ys)"
    using p by (simp only: abs_divide abs_of_pos)
  also have "\<dots> \<le> 1" using p dot_le_norms[OF assms(1)] by (simp only: divide_le_eq_1_pos)
  finally show ?thesis .
qed

text \<open>
  The textbook coefficient, covariance over the product of the standard deviations, is
  the normalised dot product of the deviations from the means.
\<close>

lemma sum_dev_eq:
  "length xs = length ys \<Longrightarrow>
   (\<Sum>i<length xs. (xs ! i - a) * (ys ! i - b)) = dot (map (\<lambda>v. v - a) xs) (map (\<lambda>v. v - b) ys)"
  by (simp add: dot_def sum_list_sum_nth atLeast0LessThan)

lemma sum_dev_sq_eq:
  "(\<Sum>i<length xs. (xs ! i - a) * (xs ! i - a)) = sum_list (map (\<lambda>v. v * v) (map (\<lambda>v. v - a) xs))"
  by (simp add: sum_list_sum_nth atLeast0LessThan)

lemma sqrt_variance:
  "sqrt (variance xs) = norm2 (map (\<lambda>v. v - mean xs) xs) / sqrt (real (length xs))"
  by (simp add: variance_def covariance_def sum_dev_sq_eq norm2_def real_sqrt_divide)

lemma pearson_correlation_eq:
  assumes "length xs = length ys" "xs \<noteq> []"
  shows "pearson_correlation xs ys =
         dot (map (\<lambda>v. v - mean xs) xs) (map (\<lambda>v. v - mean ys) ys)
           / (norm2 (map (\<lambda>v. v - mean xs) xs) * norm2 (map (\<lambda>v. v - mean ys) ys))"
proof -
  have n: "0 < real (length xs)" using assms(2) by simp
  have alg: "(A / n) / ((p / sqrt n) * (q / sqrt n)) = A / (p * q)" if "0 < n" for A p q n :: real
  proof -
    have "(p / sqrt n) * (q / sqrt n) = (p * q) / (sqrt n * sqrt n)" by simp
    also have "\<dots> = (p * q) / n" using that by simp
    finally show ?thesis using that by simp
  qed
  have "covariance xs ys = dot (map (\<lambda>v. v - mean xs) xs) (map (\<lambda>v. v - mean ys) ys) / real (length xs)"
    by (simp only: covariance_def sum_dev_eq[OF assms(1)])
  then show ?thesis
    unfolding pearson_correlation_def sqrt_variance
    using alg[OF n] assms(1) by simp
qed

lemma all_equal_first_variance:
  assumes "all_equal_first xs"
  shows "variance xs = 0"
proof (cases xs)
  case Nil
  then show ?thesis by (simp add: variance_def covariance_def)
next
  case (Cons x xs')
  have all: "\<forall>v\<in>set xs. v = x" using assms Cons by (simp add: all_equal_first_def list_all_iff)
  then have "xs = replicate (length xs) x" by (simp add: replicate_length_same)
  then have "sum_list xs = real (length xs) * x" by (metis sum_list_replicate)
  then have m: "mean xs = x" using Cons by (simp add: mean_def)
  have "\<And>i. i < length xs \<Longrightarrow> xs ! i = x" using all by simp
  then show ?thesis by (simp add: variance_def covariance_def m)
qed

lemma variance_norm2:
  "variance xs \<noteq> 0 \<Longrightarrow> norm2 (map (\<lambda>v. v - mean xs) xs) \<noteq> 0"
  using sqrt_variance[of xs] by auto

text \<open>
  The shortcut for two points, the product of the signs of the two differences, is
  the coefficient as well.
\<close>

lemma sum_two: "(\<Sum>i<length [p, q]. f i) = f 0 + (f (Suc 0) :: real)"
  by (simp add: lessThan_Suc eval_nat_numeral)

lemma pearson_two:
  fixes a b c d :: real
  assumes "a \<noteq> b" "c \<noteq> d"
  shows "pearson_correlation [a, b] [c, d] = sgn (b - a) * sgn (d - c)"
proof -
  have ma: "mean [a, b] = (a + b) / 2" and mc: "mean [c, d] = (c + d) / 2"
    by (simp_all add: mean_def)
  have da: "a - (a + b) / 2 = (a - b) / 2" "b - (a + b) / 2 = (b - a) / 2"
   and dc: "c - (c + d) / 2 = (c - d) / 2" "d - (c + d) / 2 = (d - c) / 2"
    by (simp_all add: field_simps)
  have cov: "covariance [a, b] [c, d] = (b - a) * (d - c) / 4"
    unfolding covariance_def ma mc sum_two by (simp add: da dc) (simp add: algebra_simps)
  have va: "variance [a, b] = ((b - a) / 2)\<^sup>2"
    unfolding variance_def covariance_def ma sum_two by (simp add: da power2_eq_square) (simp add: algebra_simps)
  have vc: "variance [c, d] = ((d - c) / 2)\<^sup>2"
    unfolding variance_def covariance_def mc sum_two by (simp add: dc power2_eq_square) (simp add: algebra_simps)
  have "pearson_correlation [a, b] [c, d] = ((b - a) * (d - c) / 4) / (\<bar>(b - a) / 2\<bar> * \<bar>(d - c) / 2\<bar>)"
    unfolding pearson_correlation_def cov va vc by (simp only: real_sqrt_abs)
  also have "\<dots> = ((b - a) / \<bar>b - a\<bar>) * ((d - c) / \<bar>d - c\<bar>)"
    by (simp add: abs_divide)
  also have "\<dots> = sgn (b - a) * sgn (d - c)"
    by (simp only: real_sgn_eq)
  finally show ?thesis .
qed

lemma pearsonr_eq:
  assumes len: "length x = length y" and two: "2 \<le> length x"
    and vx: "variance x \<noteq> 0" and vy: "variance y \<noteq> 0"
  shows "pearsonr x y = Inr (Fin (pearson_correlation x y))"
proof -
  have nc: "\<not> all_equal_first x" "\<not> all_equal_first y"
    using vx vy all_equal_first_variance by blast+
  have ne: "x \<noteq> []" using two by auto
  show ?thesis
  proof (cases "length x = 2")
    case True
    then obtain a b where x: "x = [a, b]"
      by (cases x; cases "tl x"; cases "tl (tl x)") auto
    from True len obtain c d where y: "y = [c, d]"
      by (cases y; cases "tl y"; cases "tl (tl y)") auto
    have "a \<noteq> b" "c \<noteq> d" using nc by (auto simp: x y all_equal_first_def)
    then show ?thesis using nc pearson_two[of a b c d]
      by (simp add: pearsonr_def x y)
  next
    case False
    let ?xm = "map (\<lambda>v. v - mean x) x" and ?ym = "map (\<lambda>v. v - mean y) y"
    have b: "\<bar>dot ?xm ?ym / (norm2 ?xm * norm2 ?ym)\<bar> \<le> 1"
      using len variance_norm2[OF vx] variance_norm2[OF vy]
      by (intro normalised_dot_bounded) simp_all
    show ?thesis
      using False len two nc clamp_unit[OF b]
      by (simp add: pearsonr_def Let_def dot_scaled pearson_correlation_eq[OF len ne])
  qed
qed

lemma dot_commute: "dot xs ys = dot ys xs"
proof (induction xs arbitrary: ys)
  case Nil
  then show ?case by (simp add: dot_def)
next
  case (Cons x xs)
  then show ?case by (cases ys) (simp_all add: dot_def mult.commute)
qed

lemma pearsonr_commute: "pearsonr x y = pearsonr y x"
  unfolding pearsonr_def Let_def by (subst dot_commute) (auto simp: mult.commute)

lemma variance_example: "variance [1, 2, 4] \<noteq> 0" "variance [1, 3, 2] \<noteq> 0"
  by (simp_all add: variance_def covariance_def mean_def lessThan_Suc eval_nat_numeral)

text \<open>
  C5: for equal-length series with at least two elements and nonzero variance,
  \<^verbatim>\<open>CalcRSquared(observed, estimated)\<close> returns the square of the Pearson correlation
  coefficient of the two series.
\<close>

theorem CalcRSquared_is_squared_pearson:
  assumes "length observed = length estimated" "2 \<le> length observed"
    "variance observed \<noteq> 0" "variance estimated \<noteq> 0"
  shows "CalcRSquared observed estimated = Inr (Fin ((pearson_correlation observed estimated)\<^sup>2))"
  using pearsonr_eq[OF assms] by (simp add: CalcRSquared_def)

text \<open>
  Witness for C5: the hypotheses hold for observed \<open>[1, 2, 4]\<close>, estimated
  \<open>[1, 3, 2]\<close>.
\<close>

theorem CalcRSquared_is_squared_pearson_witness:
  "length [1, 2, 4 :: real] = length [1, 3, 2 :: real] \<and> 2 \<le> length [1, 2, 4 :: real] \<and>
   variance [1, 2, 4] \<noteq> 0 \<and> variance [1, 3, 2] \<noteq> 0 \<and>
   CalcRSquared [1, 2, 4] [1, 3, 2] = Inr (Fin ((pearson_correlation [1, 2, 4] [1, 3, 2])\<^sup>2))"
  using CalcRSquared_is_squared_pearson[of "[1, 2, 4]" "[1, 3, 2]"] variance_example by simp

text \<open>
  C10: \<^verbatim>\<open>CalcRSquared\<close> is symmetric in its two arguments. This holds for every pair
  of series, those of the claim (equal length, nonzero variance) included: the length
  test, the constant-input test, the two-point shortcut and the dot product are each
  symmetric.
\<close>

theorem CalcRSquared_symmetric: "CalcRSquared observed estimated = CalcRSquared estimated observed"
  by (simp add: CalcRSquared_def pearsonr_commute[of observed estimated])

text \<open>
  C10 at observed \<open>[1, 2, 4]\<close>, estimated \<open>[1, 3, 2]\<close>.
\<close>

theorem CalcRSquared_symmetric_witness:
  "CalcRSquared [1, 2, 4] [1, 3, 2] = CalcRSquared [1, 3, 2] [1, 2, 4]"
  by (rule CalcRSquared_symmetric)

section \<open>Columns, assignments and merges\<close>

lemma and_then_Inr [simp]: "and_then (Inr v) f = f v"
  by (simp add: and_then_def)

lemma and_then_Inl [simp]: "and_then (Inl e) f = Inl e"
  by (simp add: and_then_def)

lemma and_then_eq_Inr:
  "and_then m f = Inr r \<longleftrightarrow> (\<exists>v. m = Inr v \<and> f v = Inr r)"
  by (cases m) simp_all

lemma traverse_map:
  "(\<And>x. x \<in> set xs \<Longrightarrow> f x = Inr (g x)) \<Longrightarrow> traverse f xs = Inr (map g xs)"
  by (induction xs) simp_all

lemma traverse_length: "traverse f xs = Inr ys \<Longrightarrow> length ys = length xs"
  by (induction xs arbitrary: ys) (auto simp: and_then_eq_Inr)

lemma traverse_nth:
  "traverse f xs = Inr ys \<Longrightarrow> i < length xs \<Longrightarrow> f (xs ! i) = Inr (ys ! i)"
proof (induction xs arbitrary: ys i)
  case Nil
  then show ?case by simp
next
  case (Cons x xs)
  then show ?case by (cases i) (auto simp: and_then_eq_Inr)
qed

lemma column_Some: "map_of df c = Some s \<Longrightarrow> column df c = Inr s"
  by (simp add: column_def)

lemma column_eq_Inr: "column df c = Inr s \<longleftrightarrow> map_of df c = Some s"
  by (simp add: column_def split: option.splits)

lemma traverse_as_float: "traverse as_float (map Num v) = Inr v"
  by (induction v) simp_all

lemma traverse_as_float_eq: "traverse as_float s = Inr v \<longleftrightarrow> s = map Num v"
proof (induction s arbitrary: v)
  case Nil
  then show ?case by auto
next
  case (Cons c s)
  show ?case
  proof (cases c)
    case (Str x)
    then show ?thesis by auto
  next
    case (Num x)
    then show ?thesis using Cons by (cases v) (auto simp: and_then_eq_Inr)
  qed
qed

lemma numeric_eq_Inr: "numeric df c = Inr v \<longleftrightarrow> map_of df c = Some (map Num v)"
  by (auto simp: numeric_def and_then_eq_Inr column_eq_Inr traverse_as_float_eq)

lemma map_of_assign: "map_of (assign c s df) = (map_of df)(c \<mapsto> s)"
  by (induction df) (auto simp: fun_eq_iff)

lemma well_formed_assign:
  "well_formed n df \<Longrightarrow> length s = n \<Longrightarrow> well_formed n (assign c s df)"
  by (induction df) (auto simp: well_formed_def)

lemma well_formed_length: "well_formed n df \<Longrightarrow> map_of df c = Some s \<Longrightarrow> length s = n"
  by (force simp: well_formed_def list_all_iff dest!: map_of_SomeD)

text \<open>
  With distinct right keys a left row finds at most one partner, so a left merge keeps
  the rows of the left frame as they are, one for one and in order.
\<close>

lemma matches_distinct:
  assumes "distinct keys"
  shows "matches keys k = [] \<or> (\<exists>j. matches keys k = [j])"
proof (cases "matches keys k")
  case Nil
  then show ?thesis by simp
next
  case (Cons j js)
  have d: "distinct (matches keys k)" by (simp add: matches_def)
  have jin: "j \<in> set (matches keys k)" using Cons by simp
  have same: "i = j" if "i \<in> set (matches keys k)" for i
  proof -
    have i: "i < length keys" "keys ! i = k" using that by (simp_all add: matches_def)
    have j: "j < length keys" "keys ! j = k" using jin by (simp_all add: matches_def)
    show ?thesis using i j nth_eq_iff_index_eq[OF assms, of i j] by simp
  qed
  have "js = []"
  proof (cases js)
    case Nil
    then show ?thesis .
  next
    case (Cons j' js')
    then have "j' \<in> set (matches keys k)" using \<open>matches keys k = j # js\<close> by simp
    then have "j' = j" by (rule same)
    then show ?thesis using d \<open>matches keys k = j # js\<close> Cons by simp
  qed
  then show ?thesis using Cons by simp
qed

lemma join_index_distinct:
  assumes "distinct right_keys"
  shows "join_index left_keys right_keys
           = map (\<lambda>i. (i, position right_keys (left_keys ! i))) [0..<length left_keys]"
proof -
  have one: "(case matches right_keys k of [] \<Rightarrow> [(i, None)] | j # js \<Rightarrow> map (\<lambda>j. (i, Some j)) (j # js))
          = [(i, position right_keys k)]" for i :: nat and k
  proof -
    consider "matches right_keys k = []" | j where "matches right_keys k = [j]"
      using matches_distinct[OF assms, of k] by blast
    then show ?thesis by cases (simp_all add: position_def)
  qed
  have "concat (map (\<lambda>i. [(i, position right_keys (left_keys ! i))]) [0..<length left_keys])
         = map (\<lambda>i. (i, position right_keys (left_keys ! i))) [0..<length left_keys]"
    by (rule concat_map_singleton)
  then show ?thesis unfolding join_index_def by (simp only: one)
qed

lemma take_left_join_index:
  assumes "distinct right_keys" "length s = length left_keys"
  shows "take_left (join_index left_keys right_keys) s = s"
proof -
  have "map ((!) s) [0..<length s] = s" by (rule map_nth)
  then show ?thesis
    using assms(2) by (simp add: take_left_def join_index_distinct[OF assms(1)] comp_def)
qed

lemma map_nth_fun: "map (\<lambda>i. f (xs ! i)) [0..<length xs] = map f xs"
proof -
  have "map (\<lambda>i. f (xs ! i)) [0..<length xs] = map f (map ((!) xs) [0..<length xs])"
    by (simp only: map_map comp_def)
  then show ?thesis by (simp only: map_nth)
qed

lemma take_right_join_index:
  assumes "distinct right_keys"
  shows "take_right (join_index left_keys right_keys) s = map (brought right_keys s) left_keys"
proof -
  have "take_right (join_index left_keys right_keys) s
          = map (\<lambda>i. brought right_keys s (left_keys ! i)) [0..<length left_keys]"
    by (simp add: take_right_def join_index_distinct[OF assms] comp_def brought_def)
  also have "\<dots> = map (brought right_keys s) left_keys"
    by (rule map_nth_fun)
  finally show ?thesis .
qed

lemma position_Some:
  assumes "distinct keys" "j < length keys"
  shows "position keys (keys ! j) = Some j"
proof -
  have "j \<in> set (matches keys (keys ! j))" using assms(2) by (simp add: matches_def)
  then show ?thesis using matches_distinct[OF assms(1), of "keys ! j"] by (auto simp: position_def)
qed

lemma position_None: "k \<notin> set keys \<Longrightarrow> position keys k = None"
proof -
  assume "k \<notin> set keys"
  then have "matches keys k = []" by (auto simp: matches_def filter_empty_conv)
  then show ?thesis by (simp add: position_def)
qed

lemma length_join_index:
  "distinct right_keys \<Longrightarrow> length (join_index left_keys right_keys) = length left_keys"
  by (simp add: join_index_distinct)

lemma has_column_iff: "has_column df c \<longleftrightarrow> c \<in> fst ` set df"
  by (simp add: has_column_def map_of_eq_None_iff)

lemma map_of_renamed:
  assumes "map_of l c = Some s" "\<not> has_column right c"
    and "\<And>r. has_column right r \<Longrightarrow> c \<noteq> r @ ''_x''"
  shows "map_of (map (\<lambda>p. (if has_column right (fst p) then fst p @ ''_x'' else fst p, f (snd p))) l) c
           = Some (f s)"
  using assms(1)
proof (induction l)
  case Nil
  then show ?case by simp
next
  case (Cons p l)
  show ?case
  proof (cases "fst p = c")
    case True
    then show ?thesis using Cons.prems assms(2) by (cases p) simp
  next
    case False
    then have "map_of l c = Some s" using Cons.prems by (cases p) simp
    then show ?thesis using False Cons.IH assms(3)[of "fst p"] by auto
  qed
qed

lemma merge_left_keeps:
  assumes m: "merge_left left left_on right_keys right = Inr df'"
    and d: "distinct right_keys"
    and wf: "well_formed n left"
    and c: "map_of left c = Some s"
    and nr: "\<not> has_column right c"
    and nx: "\<And>r. has_column right r \<Longrightarrow> c \<noteq> r @ ''_x''"
  shows "map_of df' c = Some s"
proof -
  from m obtain lk where lk: "map_of left left_on = Some lk"
    and df': "df' = map (\<lambda>p. (if has_column right (fst p) then fst p @ ''_x'' else fst p,
                           take_left (join_index lk right_keys) (snd p))) left
             @ map (\<lambda>p. (if has_column left (fst p) then fst p @ ''_y'' else fst p,
                           take_right (join_index lk right_keys) (snd p))) right"
    by (auto simp: merge_left_def and_then_eq_Inr column_eq_Inr Let_def)
  have "length s = length lk"
    using well_formed_length[OF wf c] well_formed_length[OF wf lk] by simp
  then have "take_left (join_index lk right_keys) s = s"
    by (rule take_left_join_index[OF d])
  then show ?thesis
    unfolding df' using map_of_renamed[OF c nr nx, of "take_left (join_index lk right_keys)"]
    by (simp add: map_add_def)
qed

lemma merge_left_well_formed:
  assumes m: "merge_left left left_on right_keys right = Inr df'"
    and d: "distinct right_keys"
    and wf: "well_formed n left"
  shows "well_formed n df'"
proof -
  from m obtain lk where lk: "map_of left left_on = Some lk"
    and df': "df' = map (\<lambda>p. (if has_column right (fst p) then fst p @ ''_x'' else fst p,
                           take_left (join_index lk right_keys) (snd p))) left
             @ map (\<lambda>p. (if has_column left (fst p) then fst p @ ''_y'' else fst p,
                           take_right (join_index lk right_keys) (snd p))) right"
    by (auto simp: merge_left_def and_then_eq_Inr column_eq_Inr Let_def)
  have "length (join_index lk right_keys) = n"
    using length_join_index[OF d] well_formed_length[OF wf lk] by simp
  then show ?thesis
    unfolding df' by (auto simp: well_formed_def list_all_iff take_left_def take_right_def)
qed

lemma merge_left_fresh:
  assumes lk: "map_of left left_on = Some lk"
    and d: "distinct right_keys"
    and wf: "well_formed n left"
    and fresh: "\<And>p. p \<in> set right \<Longrightarrow> map_of left (fst p) = None"
  shows "merge_left left left_on right_keys right
           = Inr (left @ map (\<lambda>p. (fst p, map (brought right_keys (snd p)) lk)) right)"
proof -
  let ?idx = "join_index lk right_keys"
  have n: "length lk = n" using well_formed_length[OF wf lk] .
  have L: "map (\<lambda>p. (if has_column right (fst p) then fst p @ ''_x'' else fst p,
                       take_left ?idx (snd p))) left = left"
  proof (rule map_idI)
    fix p assume p: "p \<in> set left"
    have "\<not> has_column right (fst p)"
    proof
      assume "has_column right (fst p)"
      then obtain q where "q \<in> set right" "fst q = fst p" by (auto simp: has_column_iff)
      then have "map_of left (fst p) = None" using fresh by metis
      then show False using p by (simp add: map_of_eq_None_iff)
    qed
    moreover have "length (snd p) = length lk"
      using wf p n by (simp add: well_formed_def list_all_iff)
    ultimately show "(if has_column right (fst p) then fst p @ ''_x'' else fst p,
                       take_left ?idx (snd p)) = p"
      using take_left_join_index[OF d] by simp
  qed
  have R: "map (\<lambda>p. (if has_column left (fst p) then fst p @ ''_y'' else fst p,
                       take_right ?idx (snd p))) right
           = map (\<lambda>p. (fst p, map (brought right_keys (snd p)) lk)) right"
    using fresh by (simp add: has_column_def take_right_join_index[OF d])
  show ?thesis using lk by (simp add: merge_left_def column_Some Let_def L R)
qed

lemma brought_map:
  assumes "distinct ks" "k \<in> set ks"
  shows "brought ks (map f ks) k = f k"
proof -
  from assms(2) obtain j where j: "j < length ks" "ks ! j = k" by (auto simp: in_set_conv_nth)
  then show ?thesis using position_Some[OF assms(1) j(1)] by (simp add: brought_def)
qed

lemma brought_missing: "k \<notin> set ks \<Longrightarrow> brought ks s k = Num NaN"
  by (simp add: brought_def position_None)

lemma distinct_group_keys: "distinct (group_keys keys)"
  by (simp add: group_keys_def)

lemma set_group_keys: "set (group_keys keys) = set keys - {Num NaN}"
  by (auto simp: group_keys_def)

lemma fst_groupby_sum: "map fst (groupby_sum keys vals) = group_keys keys"
  by (simp add: groupby_sum_def comp_def)

lemma brought_groups:
  assumes "k \<in> set keys"
  shows "brought (group_keys keys) (map f (group_keys keys)) k = (if k = Num NaN then Num NaN else f k)"
proof (cases "k = Num NaN")
  case True
  then show ?thesis by (simp add: brought_missing set_group_keys)
next
  case False
  then have "k \<in> set (group_keys keys)" using assms by (simp add: set_group_keys)
  then show ?thesis using False brought_map[OF distinct_group_keys] by simp
qed

text \<open>
  Merging the group sums back on their own key gives every row the sum of its group.
\<close>

lemma merge_totals_effect:
  assumes wf: "well_formed n df"
    and keys: "map_of df key = Some keys"
    and total: "map_of df ''Total'' = Some (map Num tot)"
    and fresh: "map_of df name = None"
  shows "merge_totals key name df
           = Inr (df @ [(name, map (\<lambda>k. if k = Num NaN then Num NaN
                                          else Num (Fin (group_sum keys tot k))) keys)])"
proof -
  let ?g = "groupby_sum keys tot"
  let ?f = "\<lambda>k. Num (Fin (group_sum keys tot k))"
  have cols: "map (\<lambda>p. Num (snd p)) ?g = map ?f (group_keys keys)"
    by (simp add: groupby_sum_def comp_def)
  have "merge_left df key (group_keys keys) [(name, map ?f (group_keys keys))]
          = Inr (df @ [(name, map (brought (group_keys keys) (map ?f (group_keys keys))) keys)])"
    using merge_left_fresh[OF keys distinct_group_keys[of keys] wf,
        where right = "[(name, map ?f (group_keys keys))]"] fresh
    by simp
  moreover have "map (brought (group_keys keys) (map ?f (group_keys keys))) keys
      = map (\<lambda>k. if k = Num NaN then Num NaN else ?f k) keys"
    by (rule map_cong[OF refl]) (rule brought_groups)
  ultimately show ?thesis
    using keys total
    by (simp add: merge_totals_def column_Some numeric_def traverse_as_float Let_def
        fst_groupby_sum cols)
qed

section \<open>The cells of the production-constrained model\<close>

lemma flow_table_fresh:
  assumes "flow_table df rs"
  shows "map_of df ''O_i'' = None" "map_of df ''D_j'' = None" "map_of df ''coef'' = None"
    "map_of df ''alpha_i'' = None" "map_of df ''prodsimest1'' = None"
    "map_of df ''Dj3_destsalScenario'' = None" "map_of df ''prodsimest2'' = None"
    "map_of df ''Ai1'' = None" "map_of df ''A_i'' = None" "map_of df ''prodsimest3'' = None"
    "map_of df ''A_i2'' = None" "map_of df ''prodsimest4'' = None"
    "map_of df ''attrsimFitted'' = None"
  using assms by (simp_all add: flow_table_def derived_columns_def)

lemma flow_table_columns:
  assumes "flow_table df rs"
  shows "map_of df ''OrigCodeNew'' = Some (text_column OrigCodeNew rs)"
    "map_of df ''DestCodeNew'' = Some (text_column DestCodeNew rs)"
    "map_of df ''Total'' = Some (number_column Total rs)"
    "map_of df ''Dj2_destsal'' = Some (number_column Dj2_destsal rs)"
    "map_of df ''Dist'' = Some (number_column Dist rs)"
    "map_of df ''log_Dj2_destsal'' = Some (number_column log_Dj2_destsal rs)"
    "map_of df ''log_Dist'' = Some (number_column log_Dist rs)"
    "map_of df ''log_Oi1_origpop'' = Some (number_column log_Oi1_origpop rs)"
    "well_formed (length rs) df"
  using assms by (simp_all add: flow_table_def)

lemma number_column_Num: "number_column f rs = map Num (map (\<lambda>r. Fin (f r)) rs)"
  by (simp add: number_column_def)

lemma length_columns [simp]:
  "length (number_column f rs) = length rs" "length (text_column h rs) = length rs"
  by (simp_all add: number_column_def text_column_def)

lemma column_append:
  "column (df @ xs) c = (case map_of df c of None \<Rightarrow> column xs c | Some s \<Rightarrow> Inr s)"
  by (simp add: column_def map_add_def split: option.splits)

lemma column_Cons: "column ((c', s) # xs) c = (if c' = c then Inr s else column xs c)"
  by (simp add: column_def)

lemma numeric_append:
  "numeric (df @ xs) c = (case map_of df c of None \<Rightarrow> numeric xs c | Some s \<Rightarrow> traverse as_float s)"
  by (simp add: numeric_def column_append split: option.splits)

lemma numeric_Cons:
  "numeric ((c', s) # xs) c = (if c' = c then traverse as_float s else numeric xs c)"
  by (simp add: numeric_def column_Cons)

lemma traverse_as_float_number [simp]:
  "traverse as_float (number_column f rs) = Inr (map (\<lambda>r. Fin (f r)) rs)"
  unfolding number_column_Num by (rule traverse_as_float)

lemma assign_append_fresh: "map_of df c = None \<Longrightarrow> assign c s (df @ xs) = df @ assign c s xs"
  by (induction df) (auto split: if_splits)

lemma well_formed_append:
  "well_formed n (df @ xs) \<longleftrightarrow> well_formed n df \<and> well_formed n xs"
  by (auto simp: well_formed_def)

lemma well_formed_Cons:
  "well_formed n ((c, s) # xs) \<longleftrightarrow> length s = n \<and> well_formed n xs"
  by (auto simp: well_formed_def)

lemma well_formed_Nil: "well_formed n []"
  by (simp add: well_formed_def)

lemma group_sum_rows:
  "group_sum (map (\<lambda>r. Str (h r)) rs) (map (\<lambda>r. Fin (v r)) rs) (Str i)
     = (\<Sum>r\<leftarrow>filter (\<lambda>r. h r = i) rs. v r)"
  by (induction rs) (simp_all add: group_sum_def)

lemma totals_column:
  "map (\<lambda>k. if k = Num NaN then Num NaN
           else Num (Fin (group_sum (text_column h rs) (map (\<lambda>r. Fin (v r)) rs) k)))
     (text_column h rs)
   = number_column (\<lambda>r. \<Sum>r'\<leftarrow>filter (\<lambda>r'. h r' = h r) rs. v r') rs"
  by (simp add: text_column_def number_column_def group_sum_rows comp_def)

text \<open>
  What each cell does to a table that holds the rows \<open>rs\<close>, cell by cell.
\<close>

lemma cell_O_i_D_j_effect:
  assumes ft: "flow_table df rs" and s: "cdatasub s = df"
  shows "cell_O_i_D_j s = Inr (s\<lparr>cdatasub := df @ totals_columns rs\<rparr>)"
proof -
  note c = flow_table_columns[OF ft] and f = flow_table_fresh[OF ft]
  let ?O = "number_column (\<lambda>r. origin_total rs (OrigCodeNew r)) rs"
  have 1: "merge_totals ''OrigCodeNew'' ''O_i'' df = Inr (df @ [(''O_i'', ?O)])"
    using merge_totals_effect[OF c(9) c(1) _ f(1), of "map (\<lambda>r. Fin (Total r)) rs"] c(3)
    by (simp add: number_column_Num totals_column origin_total_def from_origin_def)
  have wf1: "well_formed (length rs) (df @ [(''O_i'', ?O)])"
    using c(9) by (simp add: well_formed_append well_formed_Cons well_formed_Nil)
  have 2: "merge_totals ''DestCodeNew'' ''D_j'' (df @ [(''O_i'', ?O)])
             = Inr ((df @ [(''O_i'', ?O)]) @
                 [(''D_j'', number_column (\<lambda>r. destination_total rs (DestCodeNew r)) rs)])"
    using merge_totals_effect[OF wf1, of "''DestCodeNew''" "text_column DestCodeNew rs"
        "map (\<lambda>r. Fin (Total r)) rs" "''D_j''"] c(2) c(3) f(2)
    by (simp add: number_column_Num totals_column destination_total_def to_destination_def
        map_add_def)
  show ?thesis
    using s by (simp add: cell_O_i_D_j_def 1 2 totals_columns_def)
qed

lemma clean_regressors:
  "clean_name ''log_Dj2_destsal'' = ''log_Dj2_destsal''" "clean_name ''log_Dist'' = ''log_Dist''"
  by (simp_all add: clean_name_def remove_all.simps)

text \<open>
  The levels of a factor are sorted and free of duplicates, so they, and the order of
  the coefficient table, depend on the set of values of the factor only, not on the
  order of the rows.
\<close>

lemma sorted_levels: "sorted (levels obs)"
  by (simp add: levels_def)

lemma distinct_levels: "distinct (levels obs)"
  by (simp add: levels_def)

lemma set_levels: "set (levels obs) = category ` set obs"
  by (simp add: levels_def)

lemma levels_row_order:
  assumes "set (map category obs) = set (map category obs')"
  shows "levels obs = levels obs'"
  using assms
  by (intro sorted_distinct_set_unique sorted_levels distinct_levels) (simp add: set_levels)

lemma set_levels_production: "set (levels (production_design rs)) = OrigCodeNew ` set rs"
  by (simp add: set_levels production_design_def image_image)

lemma coef_keys:
  assumes "list_all plain_code (map OrigCodeNew rs)"
  shows "map (\<lambda>p. Str (clean_name (fst p)))
           (params_of ''OrigCodeNew'' ''log_Dj2_destsal'' ''log_Dist''
              (levels (production_design rs)) a g c)
         = map Str (levels (production_design rs) @ [''log_Dj2_destsal'', ''log_Dist''])"
proof -
  have "clean_name (level_name ''OrigCodeNew'' l) = l" if "l \<in> set (levels (production_design rs))" for l
    using that assms by (auto simp: set_levels_production list_all_iff plain_code_def)
  then have "map (\<lambda>l. Str (clean_name (level_name ''OrigCodeNew'' l))) (levels (production_design rs))
           = map Str (levels (production_design rs))"
    by (intro map_cong) simp_all
  then show ?thesis by (simp add: params_of_def comp_def clean_regressors)
qed

lemma distinct_coef_keys:
  assumes "list_all plain_code (map OrigCodeNew rs)"
  shows "distinct (map Str (levels (production_design rs) @ [''log_Dj2_destsal'', ''log_Dist'']))"
proof -
  have "l \<noteq> ''log_Dj2_destsal'' \<and> l \<noteq> ''log_Dist''" if "l \<in> set (levels (production_design rs))" for l
    using that assms by (auto simp: set_levels_production list_all_iff plain_code_def)
  then have "distinct (levels (production_design rs) @ [''log_Dj2_destsal'', ''log_Dist''])"
    by (auto simp: distinct_levels)
  moreover have "inj_on Str (set (levels (production_design rs) @ [''log_Dj2_destsal'', ''log_Dist'']))"
    by (simp add: inj_on_def)
  ultimately show ?thesis by (simp only: distinct_map)
qed

lemma coef_values:
  assumes "list_all plain_code (map OrigCodeNew rs)"
  shows "map (\<lambda>p. Num (Fin (snd p)))
           (params_of ''OrigCodeNew'' ''log_Dj2_destsal'' ''log_Dist''
              (levels (production_design rs)) a g c)
         = map (coefficient_cell a g c)
             (map Str (levels (production_design rs) @ [''log_Dj2_destsal'', ''log_Dist'']))"
proof -
  have "l \<noteq> ''log_Dj2_destsal'' \<and> l \<noteq> ''log_Dist''" if "l \<in> set (levels (production_design rs))" for l
    using that assms by (auto simp: set_levels_production list_all_iff plain_code_def)
  then have "map (\<lambda>l. Num (Fin (a l))) (levels (production_design rs))
           = map (\<lambda>l. coefficient_cell a g c (Str l)) (levels (production_design rs))"
    by (intro map_cong) (simp_all add: coefficient_cell_def)
  then show ?thesis by (simp add: params_of_def comp_def coefficient_cell_def)
qed

lemma filter_fresh: "map_of df c = None \<Longrightarrow> filter (\<lambda>p. fst p \<noteq> c) df = df"
  by (induction df) (auto split: if_splits)

lemma cell_coefs_effect:
  assumes wf: "well_formed (length rs) fr"
    and key: "map_of fr ''OrigCodeNew'' = Some (text_column OrigCodeNew rs)"
    and fresh: "map_of fr ''coef'' = None" "map_of fr ''alpha_i'' = None"
    and plain: "list_all plain_code (map OrigCodeNew rs)"
    and s: "cdatasub s = fr"
    and p: "prodSim = params_of ''OrigCodeNew'' ''log_Dj2_destsal'' ''log_Dist''
              (levels (production_design rs)) a g c"
  shows "cell_coefs prodSim s
           = Inr (s\<lparr>cdatasub := fr @ [(''alpha_i'', number_column (\<lambda>r. a (OrigCodeNew r)) rs)]\<rparr>)"
proof -
  define ks where "ks = map Str (levels (production_design rs) @ [''log_Dj2_destsal'', ''log_Dist''])"
  define al where "al = map (coefficient_cell a g c) ks"
  have d: "distinct ks" unfolding ks_def by (rule distinct_coef_keys[OF plain])
  have k1: "map (\<lambda>p. Str (clean_name (fst p))) prodSim = ks"
    unfolding p ks_def by (rule coef_keys[OF plain])
  have k2: "map (\<lambda>p. Num (Fin (snd p))) prodSim = al"
    unfolding p al_def ks_def by (rule coef_values[OF plain])
  have m: "merge_left fr ''OrigCodeNew'' ks [(''coef'', ks), (''alpha_i'', al)]
             = Inr (fr @ [(''coef'', map (brought ks ks) (text_column OrigCodeNew rs)),
                          (''alpha_i'', map (brought ks al) (text_column OrigCodeNew rs))])"
  proof -
    have "merge_left fr ''OrigCodeNew'' ks R
            = Inr (fr @ map (\<lambda>p. (fst p, map (brought ks (snd p)) (text_column OrigCodeNew rs))) R)"
      if "R = [(''coef'', ks), (''alpha_i'', al)]" for R
      by (rule merge_left_fresh[OF key d wf]) (use that fresh in auto)
    then show ?thesis by simp
  qed
  have b: "brought ks al (Str (OrigCodeNew r)) = Num (Fin (a (OrigCodeNew r)))" if "r \<in> set rs" for r
  proof -
    have in_ks: "Str (OrigCodeNew r) \<in> set ks"
      using that by (simp add: ks_def set_levels_production)
    have ne: "OrigCodeNew r \<noteq> ''log_Dj2_destsal'' \<and> OrigCodeNew r \<noteq> ''log_Dist''"
      using that plain by (auto simp: list_all_iff plain_code_def)
    show ?thesis using brought_map[OF d in_ks, of "coefficient_cell a g c"] ne
      by (simp add: coefficient_cell_def al_def)
  qed
  have col: "map (brought ks al) (text_column OrigCodeNew rs) = number_column (\<lambda>r. a (OrigCodeNew r)) rs"
    unfolding text_column_def number_column_def map_map comp_def
    by (rule map_cong[OF refl]) (rule b)
  have dr: "drop_column ''coef'' (fr @ [(''coef'', map (brought ks ks) (text_column OrigCodeNew rs)),
                          (''alpha_i'', map (brought ks al) (text_column OrigCodeNew rs))])
        = Inr (fr @ [(''alpha_i'', number_column (\<lambda>r. a (OrigCodeNew r)) rs)])"
    using fresh by (simp add: drop_column_def map_add_def filter_fresh col)
  show ?thesis
    unfolding cell_coefs_def k1 k2 Let_def
    using s m dr by simp
qed

lemma param_at_production:
  assumes "length ls = 7"
  shows "param_at (params_of cat xname1 xname2 ls a g c) 7 = Inr g"
    "param_at (params_of cat xname1 xname2 ls a g c) 8 = Inr c"
  using assms by (simp_all add: param_at_def params_of_def nth_append)

lemma cell_parameters_effect:
  assumes "length ls = 7" "prodSim = params_of cat xname1 xname2 ls a g c"
  shows "cell_parameters prodSim s
           = Inr (s\<lparr>alpha_i := Some (take 7 prodSim), gamma := Some g, beta := Some (- c)\<rparr>)"
  using assms by (simp add: cell_parameters_def param_at_production)

lemma exp_linear_rows:
  "exp_linear (map (\<lambda>r. Fin (f1 r)) rs) g (map (\<lambda>r. Fin (f2 r)) rs) b (map (\<lambda>r. Fin (f3 r)) rs)
     = map (\<lambda>r. Fin (exp (f1 r + g * f2 r - b * f3 r))) rs"
  by (induction rs) (simp_all add: exp_linear_def)

lemma traverse_as_float_rows [simp]:
  "traverse as_float (map (\<lambda>r. Num (Fin (f r))) rs) = Inr (map (\<lambda>r. Fin (f r)) rs)"
  using traverse_as_float[of "map (\<lambda>r. Fin (f r)) rs"] by (simp add: comp_def)

lemma map_Num_Fin: "map Num (map (\<lambda>r. Fin (f r)) rs) = number_column f rs"
  by (simp add: number_column_def)

lemma map_round_Fin: "map (\<lambda>x. Num (f_round x)) (map (\<lambda>r. Fin (f r)) rs) = number_column (\<lambda>r. rounded (f r)) rs"
  by (simp add: number_column_def rounded_def)

lemma cell_prodsimest1_effect:
  assumes ft: "flow_table df rs"
    and s: "cdatasub s = df @ totals_columns rs @ [(''alpha_i'', number_column (\<lambda>r. a (OrigCodeNew r)) rs)]"
    and v: "gamma s = Some g" "beta s = Some b"
  shows "cell_prodsimest1 s
           = Inr (s\<lparr>cdatasub := df @ totals_columns rs @
                    [(''alpha_i'', number_column (\<lambda>r. a (OrigCodeNew r)) rs),
                     (''prodsimest1'', number_column (fitted_flow a g b) rs)]\<rparr>)"
proof -
  note c = flow_table_columns[OF ft] and f = flow_table_fresh[OF ft]
  show ?thesis
    unfolding cell_prodsimest1_def s
    using c f v
    by (simp add: numeric_append numeric_Cons totals_columns_def variable_def exp_linear_rows
        assign_append_fresh number_column_def fitted_flow_def)
qed

lemma cell_round_prodsimest1_effect:
  assumes ft: "flow_table df rs"
    and s: "cdatasub s = df @ totals_columns rs @
                    [(''alpha_i'', al), (''prodsimest1'', number_column f rs)]"
  shows "cell_round_prodsimest1 s
           = Inr (s\<lparr>cdatasub := df @ totals_columns rs @
                    [(''alpha_i'', al), (''prodsimest1'', number_column (\<lambda>r. rounded (f r)) rs)]\<rparr>)"
proof -
  note f = flow_table_fresh[OF ft]
  show ?thesis
    unfolding cell_round_prodsimest1_def round_column_def s
    using f
    by (simp add: numeric_append numeric_Cons totals_columns_def assign_append_fresh
        number_column_def rounded_def)
qed

lemma production_model_effect:
  assumes ft: "flow_table df rs"
    and plain: "list_all plain_code (map OrigCodeNew rs)"
    and p: "prodSim = params_of ''OrigCodeNew'' ''log_Dj2_destsal'' ''log_Dist''
              (levels (production_design rs)) a g c"
    and seven: "length (levels (production_design rs)) = 7"
  shows "run (production_model prodSim) (start df)
           = Inr ((start df)\<lparr>cdatasub := df @ production_columns rs a g (- c),
                    alpha_i := Some (take 7 prodSim), gamma := Some g, beta := Some (- c)\<rparr>)"
proof -
  note c = flow_table_columns[OF ft] and f = flow_table_fresh[OF ft]
  let ?s1 = "(start df)\<lparr>cdatasub := df @ totals_columns rs\<rparr>"
  have 1: "cell_O_i_D_j (start df) = Inr ?s1"
    by (rule cell_O_i_D_j_effect[OF ft]) (simp add: start_def)
  let ?A = "(''alpha_i'', number_column (\<lambda>r. a (OrigCodeNew r)) rs)"
  let ?s2 = "?s1\<lparr>cdatasub := (df @ totals_columns rs) @ [?A]\<rparr>"
  have wf1: "well_formed (length rs) (df @ totals_columns rs)"
    using c(9) by (simp add: well_formed_append well_formed_Cons well_formed_Nil totals_columns_def)
  have 2: "cell_coefs prodSim ?s1 = Inr ?s2"
    by (rule cell_coefs_effect[OF wf1 _ _ _ plain _ p])
       (use c f in \<open>simp_all add: map_add_def totals_columns_def\<close>)
  let ?s3 = "?s2\<lparr>alpha_i := Some (take 7 prodSim), gamma := Some g, beta := Some (- c)\<rparr>"
  have 3: "cell_parameters prodSim ?s2 = Inr ?s3"
    by (rule cell_parameters_effect[OF seven p])
  let ?s4 = "?s3\<lparr>cdatasub := df @ totals_columns rs @
                    [?A, (''prodsimest1'', number_column (fitted_flow a g (- c)) rs)]\<rparr>"
  have 4: "cell_prodsimest1 ?s3 = Inr ?s4"
    by (rule cell_prodsimest1_effect[OF ft]) simp_all
  let ?s5 = "?s4\<lparr>cdatasub := df @ totals_columns rs @
                    [?A, (''prodsimest1'', number_column (\<lambda>r. rounded (fitted_flow a g (- c) r)) rs)]\<rparr>"
  have 5: "cell_round_prodsimest1 ?s4 = Inr ?s5"
    by (rule cell_round_prodsimest1_effect[OF ft]) simp
  have "run (production_model prodSim) (start df) = Inr ?s5"
    by (simp only: production_model_def run.simps 1 2 3 4 5 and_then_Inr)
  then show ?thesis by (simp add: production_columns_def)
qed

section \<open>The maximum of the likelihood\<close>

lemma linear_predictor_shift:
  "linear_predictor (a(l := a l + t)) b1 b2 ob
     = linear_predictor a b1 b2 ob + (if category ob = l then t else 0)"
  by (simp add: linear_predictor_def)

lemma log_likelihood_Cons:
  "log_likelihood (ob # obs) a b1 b2
     = (response ob * linear_predictor a b1 b2 ob - exp (linear_predictor a b1 b2 ob))
       + log_likelihood obs a b1 b2"
  by (simp add: log_likelihood_def)

text \<open>
  The score equation of a categorical effect. Shifting the coefficient of one level by
  \<open>t\<close> changes the log-likelihood differentiably, with the derivative at 0 equal to the
  sum of \<open>observed - fitted\<close> over the rows of that level. At a maximum the derivative is
  0: the fitted values of a level add up to its observed total.
\<close>

lemma log_likelihood_shift_deriv:
  "((\<lambda>t. log_likelihood obs (a(l := a l + t)) b1 b2) has_real_derivative
      (\<Sum>ob\<leftarrow>obs. if category ob = l then response ob - exp (linear_predictor a b1 b2 ob) else 0))
     (at 0)"
proof (induction obs)
  case Nil
  then show ?case by (simp add: log_likelihood_def)
next
  case (Cons ob obs)
  let ?e = "linear_predictor a b1 b2 ob"
  have head: "((\<lambda>t. response ob * (?e + (if category ob = l then t else 0))
                     - exp (?e + (if category ob = l then t else 0))) has_real_derivative
                (if category ob = l then response ob - exp ?e else 0)) (at 0)"
    by (cases "category ob = l") (auto intro!: derivative_eq_intros)
  have D: "((\<lambda>t. (response ob * (?e + (if category ob = l then t else 0))
                     - exp (?e + (if category ob = l then t else 0)))
              + log_likelihood obs (a(l := a l + t)) b1 b2) has_real_derivative
          ((if category ob = l then response ob - exp ?e else 0)
           + (\<Sum>ob\<leftarrow>obs. if category ob = l then response ob - exp (linear_predictor a b1 b2 ob) else 0)))
         (at 0)"
    by (rule DERIV_add[OF head Cons.IH])
  have E: "(\<lambda>t. log_likelihood (ob # obs) (a(l := a l + t)) b1 b2)
      = (\<lambda>t. (response ob * (?e + (if category ob = l then t else 0))
                     - exp (?e + (if category ob = l then t else 0)))
              + log_likelihood obs (a(l := a l + t)) b1 b2)"
    by (simp only: log_likelihood_Cons linear_predictor_shift)
  show ?case unfolding E list.map sum_list.Cons by (rule D)
qed

lemma sum_list_filter_if:
  "(\<Sum>x\<leftarrow>xs. if P x then f x else (0::real)) = (\<Sum>x\<leftarrow>filter P xs. f x)"
  by (induction xs) simp_all

lemma score_category:
  assumes "maximum_likelihood obs a b1 b2"
  shows "(\<Sum>ob\<leftarrow>filter (\<lambda>ob. category ob = l) obs. exp (linear_predictor a b1 b2 ob))
           = (\<Sum>ob\<leftarrow>filter (\<lambda>ob. category ob = l) obs. response ob)"
proof -
  let ?f = "\<lambda>t. log_likelihood obs (a(l := a l + t)) b1 b2"
  let ?D = "\<Sum>ob\<leftarrow>obs. if category ob = l then response ob - exp (linear_predictor a b1 b2 ob) else 0"
  have d: "DERIV ?f 0 :> ?D" by (rule log_likelihood_shift_deriv)
  have "?f t \<le> ?f 0" for t
    using assms by (simp add: maximum_likelihood_def)
  then have "\<forall>t. \<bar>0 - t\<bar> < 1 \<longrightarrow> ?f t \<le> ?f 0" by blast
  then have "?D = 0" using DERIV_local_max[OF d, of 1] by simp
  then have "(\<Sum>ob\<leftarrow>filter (\<lambda>ob. category ob = l) obs. response ob - exp (linear_predictor a b1 b2 ob)) = 0"
    by (simp only: sum_list_filter_if)
  then show ?thesis by (simp add: sum_list_subtractf)
qed

lemma rounded_error: "\<bar>rounded x - x\<bar> \<le> 1 / 2"
  unfolding rounded_def by (rule round_half_even_error)

lemma sum_rounded_error:
  "\<bar>(\<Sum>x\<leftarrow>xs. rounded (f x)) - (\<Sum>x\<leftarrow>xs. f x)\<bar> \<le> real (length xs) / 2"
proof (induction xs)
  case Nil
  then show ?case by simp
next
  case (Cons x xs)
  have "\<bar>rounded (f x) - f x\<bar> \<le> 1 / 2" by (rule rounded_error)
  moreover have "(\<Sum>y\<leftarrow>x # xs. rounded (f y)) - (\<Sum>y\<leftarrow>x # xs. f y)
      = (rounded (f x) - f x) + ((\<Sum>y\<leftarrow>xs. rounded (f y)) - (\<Sum>y\<leftarrow>xs. f y))"
    by simp
  moreover have "real (length (x # xs)) / 2 = 1 / 2 + real (length xs) / 2"
    by (simp add: field_simps)
  ultimately show ?case using Cons by linarith
qed

lemma traverse_design_rows:
  "traverse (\<lambda>(l, u, v, t). design_row l u v t)
     (zip (map (\<lambda>r. Str (h r)) rs)
        (zip (map (\<lambda>r. Num (Fin (f1 r))) rs)
           (zip (map (\<lambda>r. Num (Fin (f2 r))) rs) (map (\<lambda>r. Num (Fin (f3 r))) rs))))
   = Inr (map (\<lambda>r. \<lparr>category = h r, regressor1 = f1 r, regressor2 = f2 r, response = f3 r\<rparr>) rs)"
  by (induction rs) simp_all

lemma design_production:
  assumes "flow_table df rs"
  shows "design df ''Total'' ''OrigCodeNew'' ''log_Dj2_destsal'' ''log_Dist''
           = Inr (production_design rs)"
  using flow_table_columns[OF assms]
  by (simp add: design_def column_Some text_column_def number_column_def traverse_design_rows
      production_design_def)

lemma design_attraction:
  assumes "flow_table df rs"
  shows "design df ''Total'' ''DestCodeNew'' ''log_Oi1_origpop'' ''log_Dist''
           = Inr (attraction_design rs)"
  using flow_table_columns[OF assms]
  by (simp add: design_def column_Some text_column_def number_column_def traverse_design_rows
      attraction_design_def)

lemma length_params_of: "length (params_of cat xname1 xname2 ls a g c) = length ls + 2"
  by (simp add: params_of_def)

lemma filter_production_design:
  "filter (\<lambda>ob. category ob = i) (production_design rs)
     = production_design (from_origin i rs)"
  by (simp add: production_design_def from_origin_def filter_map comp_def)

lemma production_score:
  assumes "maximum_likelihood (production_design rs) a g c"
  shows "(\<Sum>r\<leftarrow>from_origin i rs. fitted_flow a g (- c) r) = origin_total rs i"
proof -
  have "(\<Sum>ob\<leftarrow>production_design (from_origin i rs). exp (linear_predictor a g c ob))
          = (\<Sum>ob\<leftarrow>production_design (from_origin i rs). response ob)"
    using score_category[OF assms, of i] by (simp only: filter_production_design)
  then show ?thesis
    by (simp add: production_design_def origin_total_def fitted_flow_def linear_predictor_def
        comp_def)
qed

text \<open>
  C1: for the production-constrained model and every origin \<open>i\<close>, the rounded estimates
  \<^verbatim>\<open>prodsimest1\<close> of the rows with that origin add up to the origin total \<open>O\<^sub>i\<close> to within
  rounding error: each of the rounded terms is off by at most one half. The estimates are
  \<open>exp (alpha_i + gamma * log_Dj2_destsal - beta * log_Dist)\<close> with the fitted
  coefficients, and the column \<^verbatim>\<open>O_i\<close> holds the sum of \<^verbatim>\<open>Total\<close> over the rows with the
  row's origin. The hypotheses: the table holds the rows \<open>rs\<close>; \<^verbatim>\<open>prodSim\<close> is the fit of
  the notebook's formula to this table, with nine coefficients (seven origins, as the
  positions 7 and 8 of \<^verbatim>\<open>gamma\<close> and \<^verbatim>\<open>beta\<close> presuppose); the origin codes are plain.
\<close>

theorem production_constraint:
  assumes ft: "flow_table df rs"
    and plain: "list_all plain_code (map OrigCodeNew rs)"
    and fit: "glm_fit df ''Total'' ''OrigCodeNew'' ''log_Dj2_destsal'' ''log_Dist'' prodSim"
    and nine: "length prodSim = 9"
  shows "\<exists>s a g b.
           run (production_model prodSim) (start df) = Inr s \<and>
           gamma s = Some g \<and> beta s = Some b \<and>
           column (cdatasub s) ''alpha_i'' = Inr (number_column (\<lambda>r. a (OrigCodeNew r)) rs) \<and>
           column (cdatasub s) ''O_i''
             = Inr (number_column (\<lambda>r. origin_total rs (OrigCodeNew r)) rs) \<and>
           column (cdatasub s) ''prodsimest1''
             = Inr (number_column (\<lambda>r. rounded (fitted_flow a g b r)) rs) \<and>
           (\<forall>i. \<bar>(\<Sum>r\<leftarrow>from_origin i rs. rounded (fitted_flow a g b r)) - origin_total rs i\<bar>
                  \<le> real (length (from_origin i rs)) / 2)"
proof -
  from fit obtain a g c where ml: "maximum_likelihood (production_design rs) a g c"
    and p: "prodSim = params_of ''OrigCodeNew'' ''log_Dj2_destsal'' ''log_Dist''
              (levels (production_design rs)) a g c"
    by (auto simp: glm_fit_def design_production[OF ft])
  have seven: "length (levels (production_design rs)) = 7"
    using nine by (simp add: p length_params_of)
  note f = flow_table_fresh[OF ft]
  let ?s = "(start df)\<lparr>cdatasub := df @ production_columns rs a g (- c),
                    alpha_i := Some (take 7 prodSim), gamma := Some g, beta := Some (- c)\<rparr>"
  have run: "run (production_model prodSim) (start df) = Inr ?s"
    by (rule production_model_effect[OF ft plain p seven])
  have cols: "column (cdatasub ?s) ''alpha_i'' = Inr (number_column (\<lambda>r. a (OrigCodeNew r)) rs)"
    "column (cdatasub ?s) ''O_i'' = Inr (number_column (\<lambda>r. origin_total rs (OrigCodeNew r)) rs)"
    "column (cdatasub ?s) ''prodsimest1''
       = Inr (number_column (\<lambda>r. rounded (fitted_flow a g (- c) r)) rs)"
    using f by (simp_all add: column_append column_Cons production_columns_def totals_columns_def)
  have sums: "\<bar>(\<Sum>r\<leftarrow>from_origin i rs. rounded (fitted_flow a g (- c) r)) - origin_total rs i\<bar>
                  \<le> real (length (from_origin i rs)) / 2" for i
    using sum_rounded_error[of "fitted_flow a g (- c)" "from_origin i rs"]
    by (simp only: production_score[OF ml])
  show ?thesis
    using run cols sums by (intro exI[of _ ?s] exI[of _ a] exI[of _ g] exI[of _ "- c"]) simp
qed

section \<open>The scenario and the balancing factors\<close>

lemma map_of_row_at: "map_of (row_at df k) c = map_option (\<lambda>s. s ! k) (map_of df c)"
  by (induction df) (auto simp: row_at_def)

lemma row_get_row_at:
  "row_get (row_at df k) c = (case map_of df c of None \<Rightarrow> Inl KeyError | Some s \<Rightarrow> Inr (s ! k))"
  by (simp add: row_get_def map_of_row_at split: option.splits)

lemma nrows_flow_table:
  assumes "flow_table df rs"
  shows "nrows (df @ xs) = length rs"
proof -
  note c = flow_table_columns[OF assms]
  from c(1) obtain p df' where df: "df = p # df'" by (cases df) auto
  then have "length (snd p) = length rs" using c(9) by (simp add: well_formed_def)
  then show ?thesis by (simp add: nrows_def df)
qed

lemma traverse_map_map:
  "(\<And>x. x \<in> set xs \<Longrightarrow> f (h x) = Inr (g x)) \<Longrightarrow> traverse f (map h xs) = Inr (map g xs)"
  by (induction xs) simp_all

lemma new_sal_row:
  assumes dest: "map_of fr ''DestCodeNew'' = Some (text_column DestCodeNew rs)"
    and sal: "map_of fr ''Dj2_destsal'' = Some (number_column Dj2_destsal rs)"
    and k: "k < length rs"
  shows "new_sal (row_at fr k) = Inr (Num (Fin (scenario_salary (rs ! k))))"
  using assms
  by (simp add: new_sal_def row_get_row_at text_column_def number_column_def scenario_salary_def)

lemma cell_scenario_effect:
  assumes ft: "flow_table df rs"
    and fresh: "map_of xs ''DestCodeNew'' = None" "map_of xs ''Dj2_destsal'' = None"
    and s: "cdatasub s = df @ xs"
  shows "cell_scenario s
           = Inr (s\<lparr>cdatasub := df @ assign ''Dj3_destsalScenario'' (number_column scenario_salary rs) xs\<rparr>)"
proof -
  note c = flow_table_columns[OF ft] and f = flow_table_fresh[OF ft]
  have "new_sal (row_at (df @ xs) k) = Inr (Num (Fin (scenario_salary (rs ! k))))" if "k < length rs" for k
    by (rule new_sal_row[OF _ _ that]) (use c in \<open>simp_all add: map_add_def\<close>)
  then have "traverse new_sal (rows (df @ xs))
               = Inr (map (\<lambda>k. Num (Fin (scenario_salary (rs ! k)))) [0..<length rs])"
    unfolding rows_def nrows_flow_table[OF ft]
    by (intro traverse_map_map) simp
  also have "map (\<lambda>k. Num (Fin (scenario_salary (rs ! k)))) [0..<length rs]
               = number_column scenario_salary rs"
    unfolding number_column_def by (rule map_nth_fun)
  finally show ?thesis
    using f by (simp add: cell_scenario_def s assign_append_fresh)
qed

lemma f_power_positive: "0 < x \<Longrightarrow> f_power (Fin x) p = Inr (Fin (x powr p))"
  by (simp add: f_power_def)

lemma series_power_rows:
  assumes "\<And>r. r \<in> set rs \<Longrightarrow> 0 < w r"
  shows "series_power (map (\<lambda>r. Fin (w r)) rs) p = Inr (map (\<lambda>r. Fin (w r powr p)) rs)"
  unfolding series_power_def
  by (rule traverse_map_map) (simp add: f_power_positive assms)

lemma f_log_rows:
  assumes "\<And>r. r \<in> set rs \<Longrightarrow> 0 < w r"
  shows "traverse f_log (map (\<lambda>r. Fin (w r)) rs) = Inr (map (\<lambda>r. Fin (ln (w r))) rs)"
  by (rule traverse_map_map) (simp add: assms)

lemma map2_f_mul_rows:
  "map2 f_mul (map (\<lambda>r. Fin (p r)) rs) (map (\<lambda>r. Fin (q r)) rs) = map (\<lambda>r. Fin (p r * q r)) rs"
  by (induction rs) simp_all

lemma balanced_estimate_rows:
  "balanced_estimate (map (\<lambda>r. Fin (f1 r)) rs) (map (\<lambda>r. Fin (f2 r)) rs)
     (map (\<lambda>r. Fin (f3 r)) rs) (map (\<lambda>r. Fin (f4 r)) rs)
   = map (\<lambda>r. Fin (f1 r * f2 r * f3 r * f4 r)) rs"
  by (simp add: balanced_estimate_def map2_f_mul_rows)

lemma sum_list_pos_rows:
  assumes "xs \<noteq> []" "\<And>x. x \<in> set xs \<Longrightarrow> 0 < (f x :: real)"
  shows "0 < (\<Sum>x\<leftarrow>xs. f x)"
  using assms
proof (induction xs)
  case Nil
  then show ?case by simp
next
  case (Cons x xs)
  show ?case
  proof (cases "xs = []")
    case True
    then show ?thesis using Cons.prems by simp
  next
    case False
    then have "0 < (\<Sum>x\<leftarrow>xs. f x)" using Cons by simp
    moreover have "0 < f x" using Cons.prems by simp
    ultimately show ?thesis by simp
  qed
qed

lemma well_formed_assign_append:
  "well_formed n fr \<Longrightarrow> length s = n \<Longrightarrow> well_formed n (assign c s fr)"
  by (rule well_formed_assign)

lemma balancing_factors_effect:
  assumes wf: "well_formed (length rs) fr"
    and key: "map_of fr ''OrigCodeNew'' = Some (text_column OrigCodeNew rs)"
    and fresh: "map_of fr name = None" "name \<noteq> ''Ai1''"
    and pos: "\<And>r. r \<in> set rs \<Longrightarrow> 0 < p r * q r"
  shows "balancing_factors name (map (\<lambda>r. Fin (p r)) rs) (map (\<lambda>r. Fin (q r)) rs) fr
           = Inr (assign ''Ai1'' (number_column (\<lambda>r. p r * q r) rs) fr
                  @ [(name, number_column
                        (\<lambda>r. 1 / (\<Sum>r'\<leftarrow>from_origin (OrigCodeNew r) rs. p r' * q r')) rs)])"
proof -
  define ai1 where "ai1 = map (\<lambda>r. Fin (p r * q r)) rs"
  define keys where "keys = text_column OrigCodeNew rs"
  define fr1 where "fr1 = assign ''Ai1'' (number_column (\<lambda>r. p r * q r) rs) fr"
  have a1: "map Num (map2 f_mul (map (\<lambda>r. Fin (p r)) rs) (map (\<lambda>r. Fin (q r)) rs))
              = number_column (\<lambda>r. p r * q r) rs"
    by (simp add: map2_f_mul_rows number_column_def)
  have wf1: "well_formed (length rs) fr1"
    unfolding fr1_def using wf by (rule well_formed_assign) simp
  have key1: "map_of fr1 ''OrigCodeNew'' = Some keys"
    using key by (simp add: fr1_def keys_def map_of_assign)
  have num1: "numeric fr1 ''Ai1'' = Inr ai1"
    by (simp add: fr1_def numeric_eq_Inr map_of_assign ai1_def number_column_def)
  have fresh1: "map_of fr1 name = None"
    using fresh by (simp add: fr1_def map_of_assign)
  have gs: "group_sum keys ai1 (Str i) = (\<Sum>r\<leftarrow>from_origin i rs. p r * q r)" for i
    unfolding keys_def ai1_def text_column_def from_origin_def by (rule group_sum_rows)
  have gpos: "0 < group_sum keys ai1 k" if "k \<in> set (group_keys keys)" for k
  proof -
    from that obtain r where r: "r \<in> set rs" "k = Str (OrigCodeNew r)"
      by (auto simp: set_group_keys keys_def text_column_def)
    have "from_origin (OrigCodeNew r) rs \<noteq> []"
      using r(1) by (auto simp: from_origin_def filter_empty_conv)
    moreover have "\<And>x. x \<in> set (from_origin (OrigCodeNew r) rs) \<Longrightarrow> 0 < p x * q x"
      using pos by (simp add: from_origin_def)
    ultimately show ?thesis unfolding r(2) gs by (rule sum_list_pos_rows)
  qed
  have rec: "traverse f_recip (map snd (groupby_sum keys ai1))
               = Inr (map (\<lambda>k. Fin (1 / group_sum keys ai1 k)) (group_keys keys))"
  proof -
    have "traverse f_recip (map (\<lambda>k. Fin (group_sum keys ai1 k)) (group_keys keys))
            = Inr (map (\<lambda>k. Fin (1 / group_sum keys ai1 k)) (group_keys keys))"
      by (rule traverse_map_map) (use gpos in force)
    then show ?thesis by (simp add: groupby_sum_def comp_def)
  qed
  let ?f = "\<lambda>k. Num (Fin (1 / group_sum keys ai1 k))"
  have m: "merge_left fr1 ''OrigCodeNew'' (group_keys keys) [(name, map ?f (group_keys keys))]
          = Inr (fr1 @ [(name, map (brought (group_keys keys) (map ?f (group_keys keys))) keys)])"
    using merge_left_fresh[OF key1 distinct_group_keys[of keys] wf1,
        where right = "[(name, map ?f (group_keys keys))]"] fresh1
    by simp
  have "map (brought (group_keys keys) (map ?f (group_keys keys))) keys
      = map (\<lambda>k. if k = Num NaN then Num NaN else ?f k) keys"
    by (rule map_cong[OF refl]) (rule brought_groups)
  also have "\<dots> = number_column (\<lambda>r. 1 / (\<Sum>r'\<leftarrow>from_origin (OrigCodeNew r) rs. p r' * q r')) rs"
    by (simp add: keys_def text_column_def number_column_def gs[unfolded keys_def text_column_def] comp_def)
  finally have col: "map (brought (group_keys keys) (map ?f (group_keys keys))) keys
      = number_column (\<lambda>r. 1 / (\<Sum>r'\<leftarrow>from_origin (OrigCodeNew r) rs. p r' * q r')) rs" .
  show ?thesis
    unfolding balancing_factors_def a1 Let_def fr1_def[symmetric]
    using key1 num1 rec m
    by (simp add: column_Some fst_groupby_sum col comp_def)
qed

lemma traverse_as_float_comp [simp]: "traverse as_float (map (Num \<circ> f) rs) = Inr (map f rs)"
  using traverse_as_float[of "map f rs"] by simp

lemmas frame_simps =
  numeric_append numeric_Cons column_append column_Cons assign_append_fresh
  production_columns_def totals_columns_def scenario_columns_def
  well_formed_append well_formed_Cons well_formed_Nil map_add_def

lemma cell_prodsimest2_effect:
  assumes ft: "flow_table df rs"
    and pos: "\<And>r. r \<in> set rs \<Longrightarrow> 0 < Dj2_destsal r"
    and s: "cdatasub s = df @ production_columns rs a g b
                @ [(''Dj3_destsalScenario'', number_column scenario_salary rs)]"
    and v: "gamma s = Some g" "beta s = Some b"
  shows "cell_prodsimest2 s
           = Inr (s\<lparr>cdatasub := df @ production_columns rs a g b @ scenario_columns rs a g b\<rparr>)"
proof -
  note c = flow_table_columns[OF ft] and f = flow_table_fresh[OF ft]
  have lg: "traverse f_log (map (\<lambda>r. Fin (scenario_salary r)) rs)
              = Inr (map (\<lambda>r. Fin (ln (scenario_salary r))) rs)"
    by (rule f_log_rows) (use pos in \<open>simp add: scenario_salary_def\<close>)
  show ?thesis
    unfolding cell_prodsimest2_def round_column_def s
    using c f v
    by (simp add: frame_simps variable_def lg exp_linear_rows number_column_def
        scenario_flow_def rounded_def)
qed

lemma variable_Some: "variable (Some x) = Inr x"
  by (simp add: variable_def)

lemma cell_A_i_effect:
  assumes ft: "flow_table df rs"
    and pos: "\<And>r. r \<in> set rs \<Longrightarrow> 0 < Dj2_destsal r \<and> 0 < Dist r"
    and s: "cdatasub s = df @ production_columns rs a g b @ scenario_columns rs a g b"
    and v: "gamma s = Some g" "beta s = Some b"
  shows "cell_A_i s
           = Inr (s\<lparr>cdatasub := df @ production_columns rs a g b @ scenario_columns rs a g b @
                      [(''Ai1'', number_column (\<lambda>r. Dj2_destsal r powr g * Dist r powr b) rs),
                       (''A_i'', number_column
                          (\<lambda>r. computed_factor Dj2_destsal g b rs (OrigCodeNew r)) rs)],
                    Dj2_gamma := Some (map (\<lambda>r. Fin (Dj2_destsal r powr g)) rs),
                    dist_beta := Some (map (\<lambda>r. Fin (Dist r powr b)) rs)\<rparr>)"
proof -
  note c = flow_table_columns[OF ft] and f = flow_table_fresh[OF ft]
  let ?fr = "df @ production_columns rs a g b @ scenario_columns rs a g b"
  have n1: "numeric (cdatasub s) ''Dj2_destsal'' = Inr (map (\<lambda>r. Fin (Dj2_destsal r)) rs)"
    and n2: "numeric (cdatasub s) ''Dist'' = Inr (map (\<lambda>r. Fin (Dist r)) rs)"
    unfolding s using c f by (simp_all add: frame_simps number_column_def)
  have p1: "series_power (map (\<lambda>r. Fin (Dj2_destsal r)) rs) g
              = Inr (map (\<lambda>r. Fin (Dj2_destsal r powr g)) rs)"
    by (rule series_power_rows) (simp add: pos)
  have p2: "series_power (map (\<lambda>r. Fin (Dist r)) rs) b
              = Inr (map (\<lambda>r. Fin (Dist r powr b)) rs)"
    by (rule series_power_rows) (simp add: pos)
  have pp: "0 < Dj2_destsal r powr g * Dist r powr b" if "r \<in> set rs" for r
    using pos[OF that] by simp
  have bf: "balancing_factors ''A_i'' (map (\<lambda>r. Fin (Dj2_destsal r powr g)) rs)
              (map (\<lambda>r. Fin (Dist r powr b)) rs) (cdatasub s)
            = Inr (assign ''Ai1'' (number_column (\<lambda>r. Dj2_destsal r powr g * Dist r powr b) rs) ?fr
                  @ [(''A_i'', number_column
                        (\<lambda>r. 1 / (\<Sum>r'\<leftarrow>from_origin (OrigCodeNew r) rs.
                                     Dj2_destsal r' powr g * Dist r' powr b)) rs)])"
    unfolding s
    by (rule balancing_factors_effect) (use c f pp in \<open>simp_all add: frame_simps\<close>)
  have raw: "assign ''Ai1'' (number_column (\<lambda>r. Dj2_destsal r powr g * Dist r powr b) rs) ?fr
                  @ [(''A_i'', number_column
                        (\<lambda>r. 1 / (\<Sum>r'\<leftarrow>from_origin (OrigCodeNew r) rs.
                                     Dj2_destsal r' powr g * Dist r' powr b)) rs)]
      = df @ production_columns rs a g b @ scenario_columns rs a g b @
                      [(''Ai1'', number_column (\<lambda>r. Dj2_destsal r powr g * Dist r powr b) rs),
                       (''A_i'', number_column
                          (\<lambda>r. computed_factor Dj2_destsal g b rs (OrigCodeNew r)) rs)]"
    using f by (simp add: frame_simps computed_factor_def)
  show ?thesis
    unfolding cell_A_i_def
    by (simp only: n1 n2 v variable_Some p1 p2 bf raw and_then_Inr)
qed

lemma cell_prodsimest3_effect:
  assumes ft: "flow_table df rs"
    and s: "cdatasub s = df @ production_columns rs a g b @ scenario_columns rs a g b @
                      [(''Ai1'', ai1),
                       (''A_i'', number_column
                          (\<lambda>r. computed_factor Dj2_destsal g b rs (OrigCodeNew r)) rs)]"
    and v: "Dj2_gamma s = Some (map (\<lambda>r. Fin (Dj2_destsal r powr g)) rs)"
      "dist_beta s = Some (map (\<lambda>r. Fin (Dist r powr b)) rs)"
  shows "cell_prodsimest3 s
           = Inr (s\<lparr>cdatasub := df @ production_columns rs a g b @ scenario_columns rs a g b @
                      [(''Ai1'', ai1),
                       (''A_i'', number_column
                          (\<lambda>r. computed_factor Dj2_destsal g b rs (OrigCodeNew r)) rs),
                       (''prodsimest3'', number_column
                          (\<lambda>r. rounded (computed_flow Dj2_destsal g b rs r)) rs)]\<rparr>)"
proof -
  note c = flow_table_columns[OF ft] and f = flow_table_fresh[OF ft]
  show ?thesis
    unfolding cell_prodsimest3_def round_column_def s
    using c f v
    by (simp add: frame_simps variable_def balanced_estimate_rows number_column_def
        computed_flow_def rounded_def)
qed

lemma cell_A_i2_effect:
  assumes ft: "flow_table df rs"
    and pos: "\<And>r. r \<in> set rs \<Longrightarrow> 0 < Dj2_destsal r \<and> 0 < Dist r"
    and s: "cdatasub s = df @ production_columns rs a g b @ scenario_columns rs a g b @
              [(''Ai1'', number_column f1 rs), (''A_i'', number_column f2 rs),
               (''prodsimest3'', number_column f3 rs)]"
    and v: "gamma s = Some g" "dist_beta s = Some (map (\<lambda>r. Fin (Dist r powr b)) rs)"
  shows "cell_A_i2 s
           = Inr (s\<lparr>cdatasub := df @ production_columns rs a g b @ scenario_columns rs a g b @
                      [(''Ai1'', number_column (\<lambda>r. scenario_salary r powr g * Dist r powr b) rs),
                       (''A_i'', number_column f2 rs),
                       (''prodsimest3'', number_column f3 rs),
                       (''A_i2'', number_column
                          (\<lambda>r. computed_factor scenario_salary g b rs (OrigCodeNew r)) rs)],
                    Dj3_gamma := Some (map (\<lambda>r. Fin (scenario_salary r powr g)) rs)\<rparr>)"
proof -
  note c = flow_table_columns[OF ft] and f = flow_table_fresh[OF ft]
  let ?fr = "df @ production_columns rs a g b @ scenario_columns rs a g b @
              [(''Ai1'', number_column f1 rs), (''A_i'', number_column f2 rs),
               (''prodsimest3'', number_column f3 rs)]"
  have n1: "numeric (cdatasub s) ''Dj3_destsalScenario'' = Inr (map (\<lambda>r. Fin (scenario_salary r)) rs)"
    unfolding s using c f by (simp_all add: frame_simps number_column_def)
  have sp: "0 < scenario_salary r" if "r \<in> set rs" for r
    using pos[OF that] by (simp add: scenario_salary_def)
  have p1: "series_power (map (\<lambda>r. Fin (scenario_salary r)) rs) g
              = Inr (map (\<lambda>r. Fin (scenario_salary r powr g)) rs)"
    by (rule series_power_rows) (rule sp)
  have pp: "0 < scenario_salary r powr g * Dist r powr b" if "r \<in> set rs" for r
    using pos[OF that] sp[OF that] by simp
  have bf: "balancing_factors ''A_i2'' (map (\<lambda>r. Fin (scenario_salary r powr g)) rs)
              (map (\<lambda>r. Fin (Dist r powr b)) rs) (cdatasub s)
            = Inr (assign ''Ai1'' (number_column (\<lambda>r. scenario_salary r powr g * Dist r powr b) rs) ?fr
                  @ [(''A_i2'', number_column
                        (\<lambda>r. 1 / (\<Sum>r'\<leftarrow>from_origin (OrigCodeNew r) rs.
                                     scenario_salary r' powr g * Dist r' powr b)) rs)])"
    unfolding s
    by (rule balancing_factors_effect) (use c f pp in \<open>simp_all add: frame_simps\<close>)
  have raw: "assign ''Ai1'' (number_column (\<lambda>r. scenario_salary r powr g * Dist r powr b) rs) ?fr
                  @ [(''A_i2'', number_column
                        (\<lambda>r. 1 / (\<Sum>r'\<leftarrow>from_origin (OrigCodeNew r) rs.
                                     scenario_salary r' powr g * Dist r' powr b)) rs)]
      = df @ production_columns rs a g b @ scenario_columns rs a g b @
                      [(''Ai1'', number_column (\<lambda>r. scenario_salary r powr g * Dist r powr b) rs),
                       (''A_i'', number_column f2 rs),
                       (''prodsimest3'', number_column f3 rs),
                       (''A_i2'', number_column
                          (\<lambda>r. computed_factor scenario_salary g b rs (OrigCodeNew r)) rs)]"
    using f by (simp add: frame_simps computed_factor_def)
  show ?thesis
    unfolding cell_A_i2_def
    by (simp only: n1 v variable_Some p1 bf raw and_then_Inr)
qed

lemma cell_prodsimest4_effect:
  assumes ft: "flow_table df rs"
    and s: "cdatasub s = df @ production_columns rs a g b @ scenario_columns rs a g b @
                      [(''Ai1'', ai1), (''A_i'', ai), (''prodsimest3'', e3),
                       (''A_i2'', number_column
                          (\<lambda>r. computed_factor scenario_salary g b rs (OrigCodeNew r)) rs)]"
    and v: "Dj3_gamma s = Some (map (\<lambda>r. Fin (scenario_salary r powr g)) rs)"
      "dist_beta s = Some (map (\<lambda>r. Fin (Dist r powr b)) rs)"
  shows "cell_prodsimest4 s
           = Inr (s\<lparr>cdatasub := df @ production_columns rs a g b @ scenario_columns rs a g b @
                      [(''Ai1'', ai1), (''A_i'', ai), (''prodsimest3'', e3),
                       (''A_i2'', number_column
                          (\<lambda>r. computed_factor scenario_salary g b rs (OrigCodeNew r)) rs),
                       (''prodsimest4'', number_column
                          (\<lambda>r. rounded (computed_flow scenario_salary g b rs r)) rs)]\<rparr>)"
proof -
  note c = flow_table_columns[OF ft] and f = flow_table_fresh[OF ft]
  show ?thesis
    unfolding cell_prodsimest4_def round_column_def s
    using c f v
    by (simp add: frame_simps variable_def balanced_estimate_rows number_column_def
        computed_flow_def rounded_def)
qed

lemma map_of_level_names:
  "map_of (map (\<lambda>l. (level_name cat l, a l)) ls) (level_name cat k)
     = (if k \<in> set ls then Some (a k) else None)"
  by (induction ls) (auto simp: level_name_def)

lemma map_of_params_level:
  assumes "l \<in> set ls"
  shows "map_of (params_of cat xname1 xname2 ls a g c) (level_name cat l) = Some (a l)"
  using assms by (simp add: params_of_def map_add_def map_of_level_names)

lemma map_of_level_names_other:
  assumes "\<And>l. level_name cat l \<noteq> x"
  shows "map_of (map (\<lambda>l. (level_name cat l, a l)) ls) x = None"
  using assms by (induction ls) auto

lemma attraction_names:
  "level_name ''DestCodeNew'' l \<noteq> ''log_Oi1_origpop''" "level_name ''DestCodeNew'' l \<noteq> ''log_Dist''"
  by (simp_all add: level_name_def)

lemma map_of_params_attraction:
  "map_of (params_of ''DestCodeNew'' ''log_Oi1_origpop'' ''log_Dist'' ls a g c) ''log_Oi1_origpop'' = Some g"
  "map_of (params_of ''DestCodeNew'' ''log_Oi1_origpop'' ''log_Dist'' ls a g c) ''log_Dist'' = Some c"
  by (simp_all add: params_of_def map_add_def map_of_level_names_other attraction_names)

lemma set_levels_attraction: "set (levels (attraction_design rs)) = DestCodeNew ` set rs"
  by (simp add: set_levels attraction_design_def image_image)

lemma predict_rows:
  assumes "\<And>r. r \<in> set rs \<Longrightarrow> f (h r) (u r) (v r) = Inr (w r)"
  shows "traverse (\<lambda>(l, u, v). f l u v) (zip (map h rs) (zip (map u rs) (map v rs)))
           = Inr (map w rs)"
  using assms by (induction rs) simp_all

lemma assign_fresh: "map_of xs c = None \<Longrightarrow> assign c s xs = xs @ [(c, s)]"
  by (induction xs) (auto split: if_splits)

lemma cell_attrsimFitted_effect:
  assumes ft: "flow_table df rs"
    and fresh: "map_of xs ''attrsimFitted'' = None"
    and s: "cdatasub s = df @ xs"
    and p: "attrSim = params_of ''DestCodeNew'' ''log_Oi1_origpop'' ''log_Dist''
              (levels (attraction_design rs)) a g c"
  shows "cell_attrsimFitted attrSim s
           = Inr (s\<lparr>cdatasub := df @ xs @
                    [(''attrsimFitted'', number_column (\<lambda>r. rounded (attraction_flow a g c r)) rs)]\<rparr>)"
proof -
  note c = flow_table_columns[OF ft] and f = flow_table_fresh[OF ft]
  have row: "predict_row attrSim ''DestCodeNew'' ''log_Oi1_origpop'' ''log_Dist''
               (Str (DestCodeNew r)) (Num (Fin (log_Oi1_origpop r))) (Num (Fin (log_Dist r)))
             = Inr (Fin (attraction_flow a g c r))" if "r \<in> set rs" for r
    using that
    by (simp add: p map_of_params_level set_levels_attraction map_of_params_attraction
        attraction_flow_def)
  have tr: "traverse (\<lambda>(l, u, v). predict_row attrSim ''DestCodeNew'' ''log_Oi1_origpop'' ''log_Dist'' l u v)
              (zip (map (\<lambda>r. Str (DestCodeNew r)) rs)
                 (zip (map (\<lambda>r. Num (Fin (log_Oi1_origpop r))) rs)
                      (map (\<lambda>r. Num (Fin (log_Dist r))) rs)))
            = Inr (map (\<lambda>r. Fin (attraction_flow a g c r)) rs)"
    by (rule predict_rows[where f = "predict_row attrSim ''DestCodeNew'' ''log_Oi1_origpop'' ''log_Dist''"])
       (rule row)
  have pr: "glm_predict attrSim (cdatasub s) ''DestCodeNew'' ''log_Oi1_origpop'' ''log_Dist''
              = Inr (map (\<lambda>r. Fin (attraction_flow a g c r)) rs)"
    unfolding glm_predict_def s using c
    by (simp add: column_append text_column_def number_column_def tr)
  have raw: "assign ''attrsimFitted''
               (map (\<lambda>x. Num (f_round x)) (map (\<lambda>r. Fin (attraction_flow a g c r)) rs)) (df @ xs)
             = df @ xs @ [(''attrsimFitted'',
                 number_column (\<lambda>r. rounded (attraction_flow a g c r)) rs)]"
    using f fresh by (simp add: assign_append_fresh assign_fresh number_column_def rounded_def)
  show ?thesis
    unfolding cell_attrsimFitted_def pr and_then_Inr
    by (simp only: s raw)
qed

section \<open>The whole notebook\<close>

text \<open>
  The states that a run goes through: one more than there are cells, the last of them
  the result of the run.
\<close>

lemma trace_run: "trace cs s = Inr ss \<Longrightarrow> run cs s = Inr (last ss) \<and> length ss = Suc (length cs)"
proof (induction cs arbitrary: s ss)
  case Nil
  then show ?case by auto
next
  case (Cons c cs)
  from Cons.prems obtain s' ss' where c: "c s = Inr s'" and t: "trace cs s' = Inr ss'"
    and ss: "ss = s # ss'"
    by (auto simp: and_then_eq_Inr)
  from Cons.IH[OF t] have "run cs s' = Inr (last ss')" "length ss' = Suc (length cs)" by simp_all
  then show ?case using c ss by (cases ss') simp_all
qed

lemma notebook_trace:
  assumes ft: "flow_table df rs"
    and plain: "list_all plain_code (map OrigCodeNew rs)"
    and pos: "\<And>r. r \<in> set rs \<Longrightarrow> 0 < Dj2_destsal r \<and> 0 < Dist r"
    and p: "prodSim = params_of ''OrigCodeNew'' ''log_Dj2_destsal'' ''log_Dist''
              (levels (production_design rs)) a g c"
    and seven: "length (levels (production_design rs)) = 7"
    and q: "attrSim = params_of ''DestCodeNew'' ''log_Oi1_origpop'' ''log_Dist''
              (levels (attraction_design rs)) a' g' c'"
  shows "\<exists>states. trace (notebook prodSim attrSim) (start df) = Inr states \<and>
           map cdatasub states = map ((@) df) (notebook_stages rs a g (- c) a' g' c') \<and>
           last states =
             \<lparr>cdatasub = df @ notebook_columns rs a g (- c) a' g' c',
              alpha_i = Some (take 7 prodSim), gamma = Some g, beta = Some (- c),
              Dj2_gamma = Some (map (\<lambda>r. Fin (Dj2_destsal r powr g)) rs),
              dist_beta = Some (map (\<lambda>r. Fin (Dist r powr (- c))) rs),
              Dj3_gamma = Some (map (\<lambda>r. Fin (scenario_salary r powr g)) rs)\<rparr>"
proof -
  note cl = flow_table_columns[OF ft] and f = flow_table_fresh[OF ft]
  let ?P = "production_columns rs a g (- c)"
  let ?S = "scenario_columns rs a g (- c)"
  let ?s0 = "start df"
  let ?s1 = "?s0\<lparr>cdatasub := df @ totals_columns rs\<rparr>"
  have 1: "cell_O_i_D_j ?s0 = Inr ?s1"
    by (rule cell_O_i_D_j_effect[OF ft]) (simp add: start_def)
  let ?A = "(''alpha_i'', number_column (\<lambda>r. a (OrigCodeNew r)) rs)"
  let ?s2 = "?s1\<lparr>cdatasub := (df @ totals_columns rs) @ [?A]\<rparr>"
  have wf1: "well_formed (length rs) (df @ totals_columns rs)"
    using cl(9) by (simp add: well_formed_append well_formed_Cons well_formed_Nil totals_columns_def)
  have 2: "cell_coefs prodSim ?s1 = Inr ?s2"
    by (rule cell_coefs_effect[OF wf1 _ _ _ plain _ p])
       (use cl f in \<open>simp_all add: map_add_def totals_columns_def\<close>)
  let ?s3 = "?s2\<lparr>alpha_i := Some (take 7 prodSim), gamma := Some g, beta := Some (- c)\<rparr>"
  have 3: "cell_parameters prodSim ?s2 = Inr ?s3"
    by (rule cell_parameters_effect[OF seven p])
  let ?s4 = "?s3\<lparr>cdatasub := df @ totals_columns rs @
                    [?A, (''prodsimest1'', number_column (fitted_flow a g (- c)) rs)]\<rparr>"
  have 4: "cell_prodsimest1 ?s3 = Inr ?s4"
    by (rule cell_prodsimest1_effect[OF ft]) simp_all
  let ?s5 = "?s4\<lparr>cdatasub := df @ totals_columns rs @
                    [?A, (''prodsimest1'', number_column (\<lambda>r. rounded (fitted_flow a g (- c) r)) rs)]\<rparr>"
  have 5: "cell_round_prodsimest1 ?s4 = Inr ?s5"
    by (rule cell_round_prodsimest1_effect[OF ft]) simp
  have e5: "cdatasub ?s5 = df @ ?P" "gamma ?s5 = Some g" "beta ?s5 = Some (- c)"
    by (simp_all add: production_columns_def)
  let ?s6 = "?s5\<lparr>cdatasub := df @ assign ''Dj3_destsalScenario'' (number_column scenario_salary rs) ?P\<rparr>"
  have 6: "cell_scenario ?s5 = Inr ?s6"
    by (rule cell_scenario_effect[OF ft _ _ e5(1)]) (simp_all add: frame_simps)
  have e6: "assign ''Dj3_destsalScenario'' (number_column scenario_salary rs) ?P
             = ?P @ [(''Dj3_destsalScenario'', number_column scenario_salary rs)]"
    by (simp add: frame_simps)
  let ?s7 = "?s6\<lparr>cdatasub := df @ ?P @ ?S\<rparr>"
  have 7: "cell_prodsimest2 ?s6 = Inr ?s7"
    by (rule cell_prodsimest2_effect[OF ft]) (simp_all add: pos e6)
  let ?s8 = "?s7\<lparr>cdatasub := df @ ?P @ ?S @
                      [(''Ai1'', number_column (\<lambda>r. Dj2_destsal r powr g * Dist r powr (- c)) rs),
                       (''A_i'', number_column
                          (\<lambda>r. computed_factor Dj2_destsal g (- c) rs (OrigCodeNew r)) rs)],
                    Dj2_gamma := Some (map (\<lambda>r. Fin (Dj2_destsal r powr g)) rs),
                    dist_beta := Some (map (\<lambda>r. Fin (Dist r powr (- c))) rs)\<rparr>"
  have 8: "cell_A_i ?s7 = Inr ?s8"
    by (rule cell_A_i_effect[OF ft pos]) simp_all
  let ?s9 = "?s8\<lparr>cdatasub := df @ ?P @ ?S @
                      [(''Ai1'', number_column (\<lambda>r. Dj2_destsal r powr g * Dist r powr (- c)) rs),
                       (''A_i'', number_column
                          (\<lambda>r. computed_factor Dj2_destsal g (- c) rs (OrigCodeNew r)) rs),
                       (''prodsimest3'', number_column
                          (\<lambda>r. rounded (computed_flow Dj2_destsal g (- c) rs r)) rs)]\<rparr>"
  have 9: "cell_prodsimest3 ?s8 = Inr ?s9"
    by (rule cell_prodsimest3_effect[OF ft]) simp_all
  let ?s10 = "?s9\<lparr>cdatasub := df @ ?P @ ?S @
                      [(''Ai1'', number_column (\<lambda>r. scenario_salary r powr g * Dist r powr (- c)) rs),
                       (''A_i'', number_column
                          (\<lambda>r. computed_factor Dj2_destsal g (- c) rs (OrigCodeNew r)) rs),
                       (''prodsimest3'', number_column
                          (\<lambda>r. rounded (computed_flow Dj2_destsal g (- c) rs r)) rs),
                       (''A_i2'', number_column
                          (\<lambda>r. computed_factor scenario_salary g (- c) rs (OrigCodeNew r)) rs)],
                    Dj3_gamma := Some (map (\<lambda>r. Fin (scenario_salary r powr g)) rs)\<rparr>"
  have 10: "cell_A_i2 ?s9 = Inr ?s10"
    by (rule cell_A_i2_effect[OF ft pos]) simp_all
  let ?s11 = "?s10\<lparr>cdatasub := df @ ?P @ ?S @ balancing_columns rs g (- c)\<rparr>"
  have 11: "cell_prodsimest4 ?s10 = Inr ?s11"
    unfolding balancing_columns_def
    by (rule cell_prodsimest4_effect[OF ft]) simp_all
  let ?s12 = "?s11\<lparr>cdatasub := df @ (?P @ ?S @ balancing_columns rs g (- c)) @
                    [(''attrsimFitted'', number_column (\<lambda>r. rounded (attraction_flow a' g' c' r)) rs)]\<rparr>"
  have 12: "cell_attrsimFitted attrSim ?s11 = Inr ?s12"
    by (rule cell_attrsimFitted_effect[OF ft _ _ q])
       (simp_all add: frame_simps balancing_columns_def)
  have t: "trace (notebook prodSim attrSim) (start df)
             = Inr [?s0, ?s1, ?s2, ?s3, ?s4, ?s5, ?s6, ?s7, ?s8, ?s9, ?s10, ?s11, ?s12]"
    unfolding notebook_def production_model_def scenario_def balancing_def append.simps
    by (simp only: trace.simps 1 2 3 4 5 6 7 8 9 10 11 12 and_then_Inr)
  have "map cdatasub [?s0, ?s1, ?s2, ?s3, ?s4, ?s5, ?s6, ?s7, ?s8, ?s9, ?s10, ?s11, ?s12]
          = map ((@) df) (notebook_stages rs a g (- c) a' g' c')"
    by (simp add: notebook_stages_def Let_def start_def frame_simps notebook_columns_def)
  moreover have "last [?s0, ?s1, ?s2, ?s3, ?s4, ?s5, ?s6, ?s7, ?s8, ?s9, ?s10, ?s11, ?s12] =
             \<lparr>cdatasub = df @ notebook_columns rs a g (- c) a' g' c',
              alpha_i = Some (take 7 prodSim), gamma = Some g, beta = Some (- c),
              Dj2_gamma = Some (map (\<lambda>r. Fin (Dj2_destsal r powr g)) rs),
              dist_beta = Some (map (\<lambda>r. Fin (Dist r powr (- c))) rs),
              Dj3_gamma = Some (map (\<lambda>r. Fin (scenario_salary r powr g)) rs)\<rparr>"
    by (simp add: notebook_columns_def start_def)
  ultimately show ?thesis using t by blast
qed

lemma notebook_effect:
  assumes ft: "flow_table df rs"
    and plain: "list_all plain_code (map OrigCodeNew rs)"
    and pos: "\<And>r. r \<in> set rs \<Longrightarrow> 0 < Dj2_destsal r \<and> 0 < Dist r"
    and p: "prodSim = params_of ''OrigCodeNew'' ''log_Dj2_destsal'' ''log_Dist''
              (levels (production_design rs)) a g c"
    and seven: "length (levels (production_design rs)) = 7"
    and q: "attrSim = params_of ''DestCodeNew'' ''log_Oi1_origpop'' ''log_Dist''
              (levels (attraction_design rs)) a' g' c'"
  shows "run (notebook prodSim attrSim) (start df)
           = Inr \<lparr>cdatasub = df @ notebook_columns rs a g (- c) a' g' c',
                  alpha_i = Some (take 7 prodSim), gamma = Some g, beta = Some (- c),
                  Dj2_gamma = Some (map (\<lambda>r. Fin (Dj2_destsal r powr g)) rs),
                  dist_beta = Some (map (\<lambda>r. Fin (Dist r powr (- c))) rs),
                  Dj3_gamma = Some (map (\<lambda>r. Fin (scenario_salary r powr g)) rs)\<rparr>"
  using notebook_trace[OF assms] trace_run by metis

section \<open>The example table\<close>

text \<open>
  The example table satisfies every hypothesis used below: its two coefficient tables
  are maximum-likelihood fits, because they reproduce every observed flow.
\<close>

lemma flow_table_table_of: "flow_table (table_of rs) rs"
  by (simp add: flow_table_def table_of_def well_formed_def derived_columns_def)

lemma perfect_fit_term:
  fixes t e e' :: real
  assumes "t = exp e"
  shows "t * e' - exp e' \<le> t * e - exp e"
proof -
  have "1 + (e' - e) \<le> exp (e' - e)" by (rule exp_ge_add_one_self)
  then have "exp e * (1 + (e' - e)) \<le> exp e * exp (e' - e)"
    by (intro mult_left_mono) simp_all
  also have "\<dots> = exp e'" by (simp add: exp_add[symmetric])
  finally show ?thesis by (simp add: assms algebra_simps)
qed

lemma perfect_fit_maximum:
  assumes "\<And>ob. ob \<in> set obs \<Longrightarrow> response ob = exp (linear_predictor a b1 b2 ob)"
  shows "maximum_likelihood obs a b1 b2"
  unfolding maximum_likelihood_def log_likelihood_def
  by (intro allI sum_list_mono perfect_fit_term assms)

lemma example_levels:
  "levels (production_design example_rows)
     = [''E09000001'', ''E09000002'', ''E09000003'', ''E09000004'', ''E09000005'',
        ''E09000006'', ''E09000007'']"
  "levels (attraction_design example_rows) = [''E09000001'', ''E09000002'', ''E09000003'']"
proof -
  show "levels (production_design example_rows)
     = [''E09000001'', ''E09000002'', ''E09000003'', ''E09000004'', ''E09000005'',
        ''E09000006'', ''E09000007'']"
  proof (rule sorted_distinct_set_unique[OF sorted_levels distinct_levels])
    show "set (levels (production_design example_rows))
            = set [''E09000001'', ''E09000002'', ''E09000003'', ''E09000004'', ''E09000005'',
                   ''E09000006'', ''E09000007'']"
      by (auto simp: set_levels_production example_rows_def flow_row_def)
  qed simp_all
  show "levels (attraction_design example_rows) = [''E09000001'', ''E09000002'', ''E09000003'']"
  proof (rule sorted_distinct_set_unique[OF sorted_levels distinct_levels])
    show "set (levels (attraction_design example_rows))
            = set [''E09000001'', ''E09000002'', ''E09000003'']"
      by (auto simp: set_levels_attraction example_rows_def flow_row_def)
  qed simp_all
qed

lemma example_prodSim_params:
  "example_prodSim = params_of ''OrigCodeNew'' ''log_Dj2_destsal'' ''log_Dist''
                       (levels (production_design example_rows)) (\<lambda>l. 0) 1 (- 1)"
  by (simp add: example_levels params_of_def level_name_def example_prodSim_def)

lemma example_attrSim_params:
  "example_attrSim = params_of ''DestCodeNew'' ''log_Oi1_origpop'' ''log_Dist''
                       (levels (attraction_design example_rows)) example_effects 0 (- 1)"
  by (simp add: example_levels params_of_def level_name_def example_attrSim_def
      example_effects_def)

lemma example_production_fit:
  "maximum_likelihood (production_design example_rows) (\<lambda>l. 0) 1 (- 1)"
  by (rule perfect_fit_maximum)
     (auto simp: production_design_def example_rows_def flow_row_def linear_predictor_def
        exp_diff exp_minus)

lemma example_attraction_fit:
  "maximum_likelihood (attraction_design example_rows) example_effects 0 (- 1)"
  by (rule perfect_fit_maximum)
     (auto simp: attraction_design_def example_rows_def flow_row_def linear_predictor_def
        example_effects_def exp_diff exp_minus)

lemma example_glm_fit:
  "glm_fit example_table ''Total'' ''OrigCodeNew'' ''log_Dj2_destsal'' ''log_Dist'' example_prodSim"
  "glm_fit example_table ''Total'' ''DestCodeNew'' ''log_Oi1_origpop'' ''log_Dist'' example_attrSim"
  unfolding glm_fit_def example_table_def
  using example_production_fit example_prodSim_params example_attraction_fit example_attrSim_params
    design_production[OF flow_table_table_of] design_attraction[OF flow_table_table_of]
  by blast+

text \<open>
  The two coefficient tables are the fits of the example rows in every order of the
  rows, and with rows repeated: the coefficients come sorted by level whichever row
  comes last.
\<close>

lemma example_fit_row_order:
  assumes "set rs = set example_rows"
  shows "glm_fit (table_of rs) ''Total'' ''OrigCodeNew'' ''log_Dj2_destsal'' ''log_Dist'' example_prodSim"
    and "glm_fit (table_of rs) ''Total'' ''DestCodeNew'' ''log_Oi1_origpop'' ''log_Dist'' example_attrSim"
proof -
  have lp: "levels (production_design rs) = levels (production_design example_rows)"
    by (rule levels_row_order) (simp add: production_design_def comp_def assms)
  have la: "levels (attraction_design rs) = levels (attraction_design example_rows)"
    by (rule levels_row_order) (simp add: attraction_design_def comp_def assms)
  have mp: "maximum_likelihood (production_design rs) (\<lambda>l. 0) 1 (- 1)"
  proof (rule perfect_fit_maximum)
    fix ob assume "ob \<in> set (production_design rs)"
    then have "ob \<in> set (production_design example_rows)"
      by (simp add: production_design_def assms)
    then show "response ob = exp (linear_predictor (\<lambda>l. 0) 1 (- 1) ob)"
      by (auto simp: production_design_def example_rows_def flow_row_def linear_predictor_def
          exp_diff exp_minus)
  qed
  have ma: "maximum_likelihood (attraction_design rs) example_effects 0 (- 1)"
  proof (rule perfect_fit_maximum)
    fix ob assume "ob \<in> set (attraction_design rs)"
    then have "ob \<in> set (attraction_design example_rows)"
      by (simp add: attraction_design_def assms)
    then show "response ob = exp (linear_predictor example_effects 0 (- 1) ob)"
      by (auto simp: attraction_design_def example_rows_def flow_row_def linear_predictor_def
          example_effects_def exp_diff exp_minus)
  qed
  show "glm_fit (table_of rs) ''Total'' ''OrigCodeNew'' ''log_Dj2_destsal'' ''log_Dist'' example_prodSim"
    unfolding glm_fit_def
    using mp example_prodSim_params[folded lp] design_production[OF flow_table_table_of, of rs]
    by blast
  show "glm_fit (table_of rs) ''Total'' ''DestCodeNew'' ''log_Oi1_origpop'' ''log_Dist'' example_attrSim"
    unfolding glm_fit_def
    using ma example_attrSim_params[folded la] design_attraction[OF flow_table_table_of, of rs]
    by blast
qed

lemma example_plain: "list_all plain_code (map OrigCodeNew example_rows)"
  by (simp add: example_rows_def flow_row_def plain_code_def clean_name_def level_name_def
      remove_all.simps)

lemma example_positive: "r \<in> set example_rows \<Longrightarrow> 0 < Dj2_destsal r \<and> 0 < Dist r"
  by (auto simp: example_rows_def flow_row_def)

text \<open>
  Witness for C1: the hypotheses hold for the example table and its fit.
\<close>

theorem production_constraint_witness:
  "flow_table example_table example_rows \<and>
   list_all plain_code (map OrigCodeNew example_rows) \<and>
   glm_fit example_table ''Total'' ''OrigCodeNew'' ''log_Dj2_destsal'' ''log_Dist'' example_prodSim \<and>
   length example_prodSim = 9 \<and>
   (\<exists>s a g b.
           run (production_model example_prodSim) (start example_table) = Inr s \<and>
           gamma s = Some g \<and> beta s = Some b \<and>
           column (cdatasub s) ''alpha_i'' = Inr (number_column (\<lambda>r. a (OrigCodeNew r)) example_rows) \<and>
           column (cdatasub s) ''O_i''
             = Inr (number_column (\<lambda>r. origin_total example_rows (OrigCodeNew r)) example_rows) \<and>
           column (cdatasub s) ''prodsimest1''
             = Inr (number_column (\<lambda>r. rounded (fitted_flow a g b r)) example_rows) \<and>
           (\<forall>i. \<bar>(\<Sum>r\<leftarrow>from_origin i example_rows. rounded (fitted_flow a g b r))
                    - origin_total example_rows i\<bar>
                  \<le> real (length (from_origin i example_rows)) / 2))"
proof -
  have h1: "flow_table example_table example_rows"
    unfolding example_table_def by (rule flow_table_table_of)
  have h4: "length example_prodSim = 9" by (simp add: example_prodSim_def)
  show ?thesis
    using production_constraint[OF h1 example_plain example_glm_fit(1) h4]
      h1 example_plain example_glm_fit(1) h4
    by blast
qed

section \<open>The attraction constraint\<close>

text \<open>
  The attraction-constrained model is fitted to the table as the earlier cells have left
  it. The added columns do not take part in the formula, so the fit is the fit to the
  input table.
\<close>

lemma design_append:
  assumes "flow_table df rs"
  shows "design (df @ xs) ''Total'' ''DestCodeNew'' ''log_Oi1_origpop'' ''log_Dist''
           = design df ''Total'' ''DestCodeNew'' ''log_Oi1_origpop'' ''log_Dist''"
  using flow_table_columns[OF assms] by (simp add: design_def column_append column_Some)

lemma glm_fit_append:
  assumes "flow_table df rs"
  shows "glm_fit (df @ xs) ''Total'' ''DestCodeNew'' ''log_Oi1_origpop'' ''log_Dist'' attrSim
           \<longleftrightarrow> glm_fit df ''Total'' ''DestCodeNew'' ''log_Oi1_origpop'' ''log_Dist'' attrSim"
  by (simp add: glm_fit_def design_append[OF assms])

lemma filter_attraction_design:
  "filter (\<lambda>ob. category ob = j) (attraction_design rs)
     = attraction_design (to_destination j rs)"
  by (simp add: attraction_design_def to_destination_def filter_map comp_def)

lemma attraction_score:
  assumes "maximum_likelihood (attraction_design rs) a g c"
  shows "(\<Sum>r\<leftarrow>to_destination j rs. attraction_flow a g c r) = destination_total rs j"
proof -
  have "(\<Sum>ob\<leftarrow>attraction_design (to_destination j rs). exp (linear_predictor a g c ob))
          = (\<Sum>ob\<leftarrow>attraction_design (to_destination j rs). response ob)"
    using score_category[OF assms, of j] by (simp only: filter_attraction_design)
  then show ?thesis
    by (simp add: attraction_design_def destination_total_def attraction_flow_def
        linear_predictor_def comp_def)
qed

lemma production_fit_params:
  assumes ft: "flow_table df rs"
    and fit: "glm_fit df ''Total'' ''OrigCodeNew'' ''log_Dj2_destsal'' ''log_Dist'' prodSim"
  obtains a g c where "maximum_likelihood (production_design rs) a g c"
    and "prodSim = params_of ''OrigCodeNew'' ''log_Dj2_destsal'' ''log_Dist''
              (levels (production_design rs)) a g c"
  using fit by (auto simp: glm_fit_def design_production[OF ft])

lemma attraction_fit_params:
  assumes ft: "flow_table df rs"
    and fit: "glm_fit df ''Total'' ''DestCodeNew'' ''log_Oi1_origpop'' ''log_Dist'' attrSim"
  obtains a g c where "maximum_likelihood (attraction_design rs) a g c"
    and "attrSim = params_of ''DestCodeNew'' ''log_Oi1_origpop'' ''log_Dist''
              (levels (attraction_design rs)) a g c"
  using fit by (auto simp: glm_fit_def design_attraction[OF ft])

text \<open>
  C2: for the attraction-constrained model and every destination \<open>j\<close>, the rounded
  estimates \<^verbatim>\<open>attrsimFitted\<close> of the rows with that destination add up to the destination
  total \<open>D\<^sub>j\<close> to within rounding error: each of the rounded terms is off by at most one
  half. The estimates are the fitted means
  \<open>exp (alpha_j + gamma * log_Oi1_origpop + c * log_Dist)\<close> of \<^verbatim>\<open>attrSim\<close>, and the column
  \<^verbatim>\<open>D_j\<close> holds the sum of \<^verbatim>\<open>Total\<close> over the rows with the row's destination. The cell
  runs at the end of the notebook, so the hypotheses are those of the whole run: the
  table holds the rows \<open>rs\<close>, with positive salaries and distances; \<^verbatim>\<open>prodSim\<close> and
  \<^verbatim>\<open>attrSim\<close> are the fits of the two formulas to this table.
\<close>

theorem attraction_constraint:
  assumes ft: "flow_table df rs"
    and plain: "list_all plain_code (map OrigCodeNew rs)"
    and pos: "list_all (\<lambda>r. 0 < Dj2_destsal r \<and> 0 < Dist r) rs"
    and fitP: "glm_fit df ''Total'' ''OrigCodeNew'' ''log_Dj2_destsal'' ''log_Dist'' prodSim"
    and nine: "length prodSim = 9"
    and fitA: "glm_fit df ''Total'' ''DestCodeNew'' ''log_Oi1_origpop'' ''log_Dist'' attrSim"
  shows "\<exists>s a g c.
           run (notebook prodSim attrSim) (start df) = Inr s \<and>
           attrSim = params_of ''DestCodeNew'' ''log_Oi1_origpop'' ''log_Dist''
                       (levels (attraction_design rs)) a g c \<and>
           column (cdatasub s) ''D_j''
             = Inr (number_column (\<lambda>r. destination_total rs (DestCodeNew r)) rs) \<and>
           column (cdatasub s) ''attrsimFitted''
             = Inr (number_column (\<lambda>r. rounded (attraction_flow a g c r)) rs) \<and>
           (\<forall>j. \<bar>(\<Sum>r\<leftarrow>to_destination j rs. rounded (attraction_flow a g c r))
                    - destination_total rs j\<bar>
                  \<le> real (length (to_destination j rs)) / 2)"
proof -
  from ft fitP obtain a g c where
    p: "prodSim = params_of ''OrigCodeNew'' ''log_Dj2_destsal'' ''log_Dist''
              (levels (production_design rs)) a g c"
    by (rule production_fit_params)
  from ft fitA obtain a' g' c' where ml: "maximum_likelihood (attraction_design rs) a' g' c'"
    and q: "attrSim = params_of ''DestCodeNew'' ''log_Oi1_origpop'' ''log_Dist''
              (levels (attraction_design rs)) a' g' c'"
    by (rule attraction_fit_params)
  have seven: "length (levels (production_design rs)) = 7"
    using nine by (simp add: p length_params_of)
  have pos': "\<And>r. r \<in> set rs \<Longrightarrow> 0 < Dj2_destsal r \<and> 0 < Dist r"
    using pos by (simp add: list_all_iff)
  note f = flow_table_fresh[OF ft]
  let ?s = "\<lparr>cdatasub = df @ notebook_columns rs a g (- c) a' g' c',
                  alpha_i = Some (take 7 prodSim), gamma = Some g, beta = Some (- c),
                  Dj2_gamma = Some (map (\<lambda>r. Fin (Dj2_destsal r powr g)) rs),
                  dist_beta = Some (map (\<lambda>r. Fin (Dist r powr (- c))) rs),
                  Dj3_gamma = Some (map (\<lambda>r. Fin (scenario_salary r powr g)) rs)\<rparr>"
  have run: "run (notebook prodSim attrSim) (start df) = Inr ?s"
    by (rule notebook_effect[OF ft plain pos' p seven q])
  have cols: "column (cdatasub ?s) ''D_j''
       = Inr (number_column (\<lambda>r. destination_total rs (DestCodeNew r)) rs)"
    "column (cdatasub ?s) ''attrsimFitted''
       = Inr (number_column (\<lambda>r. rounded (attraction_flow a' g' c' r)) rs)"
    using f by (simp_all add: frame_simps notebook_columns_def balancing_columns_def)
  have sums: "\<bar>(\<Sum>r\<leftarrow>to_destination j rs. rounded (attraction_flow a' g' c' r))
                 - destination_total rs j\<bar>
                  \<le> real (length (to_destination j rs)) / 2" for j
    using sum_rounded_error[of "attraction_flow a' g' c'" "to_destination j rs"]
    by (simp only: attraction_score[OF ml])
  show ?thesis
    using run q cols sums by (intro exI[of _ ?s] exI[of _ a'] exI[of _ g'] exI[of _ c']) simp
qed

text \<open>
  Witness for C2: the hypotheses hold for the example table and its two fits.
\<close>

theorem attraction_constraint_witness:
  "flow_table example_table example_rows \<and>
   list_all plain_code (map OrigCodeNew example_rows) \<and>
   list_all (\<lambda>r. 0 < Dj2_destsal r \<and> 0 < Dist r) example_rows \<and>
   glm_fit example_table ''Total'' ''OrigCodeNew'' ''log_Dj2_destsal'' ''log_Dist'' example_prodSim \<and>
   length example_prodSim = 9 \<and>
   glm_fit example_table ''Total'' ''DestCodeNew'' ''log_Oi1_origpop'' ''log_Dist'' example_attrSim \<and>
   (\<exists>s a g c.
           run (notebook example_prodSim example_attrSim) (start example_table) = Inr s \<and>
           example_attrSim = params_of ''DestCodeNew'' ''log_Oi1_origpop'' ''log_Dist''
                       (levels (attraction_design example_rows)) a g c \<and>
           column (cdatasub s) ''D_j''
             = Inr (number_column (\<lambda>r. destination_total example_rows (DestCodeNew r)) example_rows) \<and>
           column (cdatasub s) ''attrsimFitted''
             = Inr (number_column (\<lambda>r. rounded (attraction_flow a g c r)) example_rows) \<and>
           (\<forall>j. \<bar>(\<Sum>r\<leftarrow>to_destination j example_rows. rounded (attraction_flow a g c r))
                    - destination_total example_rows j\<bar>
                  \<le> real (length (to_destination j example_rows)) / 2))"
proof -
  have h1: "flow_table example_table example_rows"
    unfolding example_table_def by (rule flow_table_table_of)
  have h3: "list_all (\<lambda>r. 0 < Dj2_destsal r \<and> 0 < Dist r) example_rows"
    using example_positive by (simp add: list_all_iff)
  have h5: "length example_prodSim = 9" by (simp add: example_prodSim_def)
  show ?thesis
    using attraction_constraint[OF h1 example_plain h3 example_glm_fit(1) h5 example_glm_fit(2)]
      h1 example_plain h3 example_glm_fit h5
    by blast
qed

section \<open>The table through the run\<close>








section \<open>The round trip through the balancing factors\<close>

text \<open>
  With the balancing factor of the notebook's equation (3) the round trip does hold, for
  every maximum-likelihood fit: the fitted flows of an origin add up to its total, so
  \<open>exp \<alpha>\<^sub>i = A\<^sub>i O\<^sub>i\<close>, and equation (1) gives back the fitted flow of equation (4),
  before any rounding. Here \<open>- c\<close> is the notebook's \<^verbatim>\<open>beta\<close>, \<open>c\<close> being the fitted
  coefficient of the log distance.
\<close>

lemma fitted_flow_powers:
  assumes "0 < Dj2_destsal r" "0 < Dist r"
    and "log_Dj2_destsal r = ln (Dj2_destsal r)" "log_Dist r = ln (Dist r)"
  shows "fitted_flow a g (- c) r
           = exp (a (OrigCodeNew r)) * (Dj2_destsal r powr g * Dist r powr c)"
  using assms by (simp add: fitted_flow_def powr_def exp_add mult.commute)

lemma equation_flow_fitted:
  assumes ml: "maximum_likelihood (production_design rs) a g c"
    and logs: "\<And>r. r \<in> set rs \<Longrightarrow>
                 0 < Dj2_destsal r \<and> 0 < Dist r \<and>
                 log_Dj2_destsal r = ln (Dj2_destsal r) \<and> log_Dist r = ln (Dist r)"
    and r: "r \<in> set rs"
  shows "equation_flow Dj2_destsal g (- c) rs r = fitted_flow a g (- c) r"
proof -
  define i where "i = OrigCodeNew r"
  define S where "S = (\<Sum>x\<leftarrow>from_origin i rs. Dj2_destsal x powr g * Dist x powr c)"
  have mem: "r \<in> set (from_origin i rs)" using r by (simp add: from_origin_def i_def)
  have each: "fitted_flow a g (- c) x = exp (a i) * (Dj2_destsal x powr g * Dist x powr c)"
    if "x \<in> set (from_origin i rs)" for x
  proof -
    have "x \<in> set rs" "OrigCodeNew x = i" using that by (simp_all add: from_origin_def)
    then show ?thesis using fitted_flow_powers[of x a g c] logs[of x] by simp
  qed
  have "(\<Sum>x\<leftarrow>from_origin i rs. fitted_flow a g (- c) x)
          = (\<Sum>x\<leftarrow>from_origin i rs. exp (a i) * (Dj2_destsal x powr g * Dist x powr c))"
    by (rule arg_cong[where f = sum_list]) (simp add: each)
  also have "\<dots> = exp (a i) * S" by (simp add: S_def sum_list_const_mult)
  finally have tot: "origin_total rs i = exp (a i) * S" using production_score[OF ml, of i] by simp
  have "0 < S" unfolding S_def
  proof (rule sum_list_pos_rows)
    show "from_origin i rs \<noteq> []" using mem by auto
    show "0 < Dj2_destsal x powr g * Dist x powr c" if "x \<in> set (from_origin i rs)" for x
    proof -
      have "x \<in> set rs" using that by (simp add: from_origin_def)
      then show ?thesis using logs[of x] by simp
    qed
  qed
  then have "equation_flow Dj2_destsal g (- c) rs r
               = exp (a i) * (Dj2_destsal r powr g * Dist r powr c)"
    by (simp add: equation_flow_def equation_factor_def i_def[symmetric] S_def[symmetric] tot)
  then show ?thesis using each[OF mem] by simp
qed

text \<open>
  The cells do not compute equation (3). \<^verbatim>\<open>beta = -prodSim.params[8]\<close> is the positive
  decay parameter, the estimate \<^verbatim>\<open>prodsimest1\<close> uses \<^verbatim>\<open>- beta*cdatasub["log_Dist"]\<close>, but
  the balancing cell sets \<^verbatim>\<open>dist_beta = cdatasub["Dist"]**beta\<close>, the distance to the power
  \<open>+\<beta>\<close>. The run on the example table, where \<open>\<gamma> = 1\<close> and \<open>\<beta> = 1\<close>, shows the effect.
\<close>

lemma example_run:
  "\<exists>s. run (notebook example_prodSim example_attrSim) (start example_table) = Inr s \<and>
       cdatasub s = example_table @ notebook_columns example_rows (\<lambda>l. 0) 1 1 example_effects 0 (- 1) \<and>
       gamma s = Some 1 \<and> beta s = Some 1"
proof -
  have ft: "flow_table example_table example_rows"
    unfolding example_table_def by (rule flow_table_table_of)
  have seven: "length (levels (production_design example_rows)) = 7"
    by (simp add: example_levels)
  show ?thesis
    using notebook_effect[OF ft example_plain example_positive example_prodSim_params seven
        example_attrSim_params]
    by simp
qed

lemma example_derived_column:
  assumes "map_of example_table c = None"
  shows "column (example_table @ xs) c = column xs c"
  using assms by (simp add: column_append)

lemma example_origins:
  "from_origin ''E09000001'' example_rows
     = [flow_row ''E09000001'' ''E09000002'' 2 16200 8100 110000,
        flow_row ''E09000001'' ''E09000003'' 2 32400 16200 110000]"
  "from_origin ''E09000002'' example_rows
     = [flow_row ''E09000002'' ''E09000003'' 4 32400 8100 120000,
        flow_row ''E09000002'' ''E09000001'' 2 32400 16200 120000]"
  "from_origin ''E09000003'' example_rows
     = [flow_row ''E09000003'' ''E09000002'' 2 16200 8100 130000,
        flow_row ''E09000003'' ''E09000001'' 2 32400 16200 130000]"
  "from_origin ''E09000004'' example_rows
     = [flow_row ''E09000004'' ''E09000002'' 2 16200 8100 140000,
        flow_row ''E09000004'' ''E09000003'' 2 32400 16200 140000]"
  "from_origin ''E09000005'' example_rows
     = [flow_row ''E09000005'' ''E09000002'' 2 16200 8100 150000,
        flow_row ''E09000005'' ''E09000003'' 2 32400 16200 150000]"
  "from_origin ''E09000006'' example_rows
     = [flow_row ''E09000006'' ''E09000002'' 2 16200 8100 160000,
        flow_row ''E09000006'' ''E09000003'' 2 32400 16200 160000]"
  "from_origin ''E09000007'' example_rows
     = [flow_row ''E09000007'' ''E09000002'' 2 16200 8100 170000,
        flow_row ''E09000007'' ''E09000003'' 2 32400 16200 170000]"
  by (simp_all add: from_origin_def example_rows_def flow_row_def)

lemma example_row_values:
  "map (\<lambda>r. h (OrigCodeNew r) (Dj2_destsal r) (Dist r)) example_rows
     = [h ''E09000001'' 16200 8100, h ''E09000001'' 32400 16200,
        h ''E09000002'' 32400 8100, h ''E09000002'' 32400 16200,
        h ''E09000003'' 16200 8100, h ''E09000003'' 32400 16200,
        h ''E09000004'' 16200 8100, h ''E09000004'' 32400 16200,
        h ''E09000005'' 16200 8100, h ''E09000005'' 32400 16200,
        h ''E09000006'' 16200 8100, h ''E09000006'' 32400 16200,
        h ''E09000007'' 16200 8100, h ''E09000007'' 32400 16200]"
  by (simp add: example_rows_def flow_row_def)

lemma example_origin_sums:
  "origin_total example_rows ''E09000001'' = 4" "origin_total example_rows ''E09000002'' = 6"
  "origin_total example_rows ''E09000003'' = 4" "origin_total example_rows ''E09000004'' = 4"
  "origin_total example_rows ''E09000005'' = 4" "origin_total example_rows ''E09000006'' = 4"
  "origin_total example_rows ''E09000007'' = 4"
  by (simp_all add: origin_total_def example_origins flow_row_def)

lemma example_computed_factors:
  "computed_factor Dj2_destsal 1 1 example_rows ''E09000001'' = 1 / 656100000"
  "computed_factor Dj2_destsal 1 1 example_rows ''E09000002'' = 1 / 787320000"
  "computed_factor Dj2_destsal 1 1 example_rows ''E09000003'' = 1 / 656100000"
  "computed_factor Dj2_destsal 1 1 example_rows ''E09000004'' = 1 / 656100000"
  "computed_factor Dj2_destsal 1 1 example_rows ''E09000005'' = 1 / 656100000"
  "computed_factor Dj2_destsal 1 1 example_rows ''E09000006'' = 1 / 656100000"
  "computed_factor Dj2_destsal 1 1 example_rows ''E09000007'' = 1 / 656100000"
  by (simp_all add: computed_factor_def example_origins flow_row_def)

lemma example_equation_factors:
  "equation_factor Dj2_destsal 1 1 example_rows ''E09000001'' = 1 / 4"
  "equation_factor Dj2_destsal 1 1 example_rows ''E09000002'' = 1 / 6"
  "equation_factor Dj2_destsal 1 1 example_rows ''E09000003'' = 1 / 4"
  "equation_factor Dj2_destsal 1 1 example_rows ''E09000004'' = 1 / 4"
  "equation_factor Dj2_destsal 1 1 example_rows ''E09000005'' = 1 / 4"
  "equation_factor Dj2_destsal 1 1 example_rows ''E09000006'' = 1 / 4"
  "equation_factor Dj2_destsal 1 1 example_rows ''E09000007'' = 1 / 4"
  by (simp_all add: equation_factor_def example_origins flow_row_def powr_minus)

lemma example_computed_factor:
  "map (\<lambda>r. computed_factor Dj2_destsal 1 1 example_rows (OrigCodeNew r)) example_rows
     = [1 / 656100000, 1 / 656100000, 1 / 787320000, 1 / 787320000,
        1 / 656100000, 1 / 656100000, 1 / 656100000, 1 / 656100000,
        1 / 656100000, 1 / 656100000, 1 / 656100000, 1 / 656100000,
        1 / 656100000, 1 / 656100000]"
  using example_row_values[of "\<lambda>i w d. computed_factor Dj2_destsal 1 1 example_rows i"]
  by (simp only: example_computed_factors)

lemma example_equation_factor:
  "map (\<lambda>r. equation_factor Dj2_destsal 1 1 example_rows (OrigCodeNew r)) example_rows
     = [1 / 4, 1 / 4, 1 / 6, 1 / 6, 1 / 4, 1 / 4, 1 / 4, 1 / 4, 1 / 4, 1 / 4, 1 / 4, 1 / 4,
        1 / 4, 1 / 4]"
  using example_row_values[of "\<lambda>i w d. equation_factor Dj2_destsal 1 1 example_rows i"]
  by (simp only: example_equation_factors)

lemma rounded_eqI: "of_int k - 1 / 2 < x \<Longrightarrow> x < of_int k + 1 / 2 \<Longrightarrow> rounded x = of_int k"
  by (simp add: rounded_def round_half_even_eqI)

lemma example_rounded:
  "rounded 2 = 2" "rounded 4 = 4" "rounded (4 / 5) = 1" "rounded (16 / 5) = 3"
  using rounded_eqI[of 2 2] rounded_eqI[of 4 4] rounded_eqI[of 1 "4 / 5"]
    rounded_eqI[of 3 "16 / 5"]
  by simp_all

lemma example_fitted_flow:
  "map (\<lambda>r. rounded (fitted_flow (\<lambda>l. 0) 1 1 r)) example_rows
     = [2, 2, 4, 2, 2, 2, 2, 2, 2, 2, 2, 2, 2, 2]"
  by (simp add: example_rows_def flow_row_def fitted_flow_def exp_diff example_rounded)

lemma example_computed_flow:
  "map (\<lambda>r. rounded (computed_flow Dj2_destsal 1 1 example_rows r)) example_rows
     = [1, 3, 2, 4, 1, 3, 1, 3, 1, 3, 1, 3, 1, 3]"
  unfolding computed_flow_def
  using example_row_values[of "\<lambda>i w d. rounded (computed_factor Dj2_destsal 1 1 example_rows i
          * origin_total example_rows i * w powr 1 * d powr 1)"]
  by (simp only: example_computed_factors example_origin_sums) (simp add: example_rounded)

lemma example_equation_flow:
  "map (\<lambda>r. rounded (equation_flow Dj2_destsal 1 1 example_rows r)) example_rows
     = [2, 2, 4, 2, 2, 2, 2, 2, 2, 2, 2, 2, 2, 2]"
  unfolding equation_flow_def
  using example_row_values[of "\<lambda>i w d. rounded (equation_factor Dj2_destsal 1 1 example_rows i
          * origin_total example_rows i * w powr 1 * d powr (- 1))"]
  by (simp only: example_equation_factors example_origin_sums)
     (simp add: example_rounded powr_minus)

lemma number_column_map: "number_column f rs = map (\<lambda>x. Num (Fin x)) (map f rs)"
  by (simp add: number_column_def)

lemma example_fresh:
  "map_of example_table ''prodsimest1'' = None" "map_of example_table ''prodsimest3'' = None"
  "map_of example_table ''A_i'' = None"
  by (simp_all add: example_table_def table_of_def)

text \<open>
  C3: the claim that \<^verbatim>\<open>prodsimest3\<close> reproduces \<^verbatim>\<open>prodsimest1\<close> exactly fails on the
  code. On the example table, with its maximum-likelihood fit, the run gives
  \<^verbatim>\<open>prodsimest1\<close> = 2, 2, 4, 2, 2, 2, ... and \<^verbatim>\<open>prodsimest3\<close> = 1, 3, 2, 4, 1, 3, ...; the
  flows of equations (1) and (3), rounded, are 2, 2, 4, 2, 2, 2, ..., the same as
  \<^verbatim>\<open>prodsimest1\<close>. The notebook says of the two columns: "You should see that your new
  estimates are exactly the same as your first estimates. If they're not, then something
  has gone wrong." 
\<close>

theorem round_trip_differs:
  "\<exists>s. glm_fit example_table ''Total'' ''OrigCodeNew'' ''log_Dj2_destsal'' ''log_Dist'' example_prodSim \<and>
       run (notebook example_prodSim example_attrSim) (start example_table) = Inr s \<and>
       column (cdatasub s) ''prodsimest1''
         = Inr (map (\<lambda>x. Num (Fin x)) [2, 2, 4, 2, 2, 2, 2, 2, 2, 2, 2, 2, 2, 2]) \<and>
       column (cdatasub s) ''prodsimest3''
         = Inr (map (\<lambda>x. Num (Fin x)) [1, 3, 2, 4, 1, 3, 1, 3, 1, 3, 1, 3, 1, 3]) \<and>
       column (cdatasub s) ''prodsimest3'' \<noteq> column (cdatasub s) ''prodsimest1'' \<and>
       map (\<lambda>r. rounded (equation_flow Dj2_destsal 1 1 example_rows r)) example_rows
         = [2, 2, 4, 2, 2, 2, 2, 2, 2, 2, 2, 2, 2, 2]"
proof -
  from example_run obtain s where
    r: "run (notebook example_prodSim example_attrSim) (start example_table) = Inr s"
    and t: "cdatasub s = example_table @ notebook_columns example_rows (\<lambda>l. 0) 1 1 example_effects 0 (- 1)"
    by blast
  have e1: "column (cdatasub s) ''prodsimest1''
         = Inr (map (\<lambda>x. Num (Fin x)) [2, 2, 4, 2, 2, 2, 2, 2, 2, 2, 2, 2, 2, 2])"
    unfolding t example_derived_column[OF example_fresh(1)] example_fitted_flow[symmetric]
    by (simp add: notebook_columns_def production_columns_def totals_columns_def column_Cons
        number_column_map)
  have e3: "column (cdatasub s) ''prodsimest3''
         = Inr (map (\<lambda>x. Num (Fin x)) [1, 3, 2, 4, 1, 3, 1, 3, 1, 3, 1, 3, 1, 3])"
    unfolding t example_derived_column[OF example_fresh(2)] example_computed_flow[symmetric]
    by (simp add: notebook_columns_def production_columns_def totals_columns_def column_Cons
        scenario_columns_def balancing_columns_def number_column_map)
  have "column (cdatasub s) ''prodsimest3'' \<noteq> column (cdatasub s) ''prodsimest1''"
    unfolding e1 e3 by simp
  then show ?thesis
    by (intro exI[of _ s] conjI example_glm_fit(1) r e1 e3 example_equation_flow)
qed

text \<open>
  C4: the claim that the column \<^verbatim>\<open>A_i\<close> holds \<open>1 / (\<Sum>\<^sub>j D\<^sub>j\<^sup>\<gamma> d\<^sub>i\<^sub>j\<^sup>-\<^sup>\<beta>)\<close> fails on the code. On
  the example table the run has \<^verbatim>\<open>gamma\<close> = 1 and \<^verbatim>\<open>beta\<close> = 1 and gives the first origin
  \<^verbatim>\<open>A_i\<close> = 1 / (16200 * 8100 + 32400 * 16200) = 1 / 656100000, where equation (3) gives
  1 / (16200 / 8100 + 32400 / 16200) = 1 / 4.
\<close>

theorem balancing_factor_differs:
  "\<exists>s. glm_fit example_table ''Total'' ''OrigCodeNew'' ''log_Dj2_destsal'' ''log_Dist'' example_prodSim \<and>
       run (notebook example_prodSim example_attrSim) (start example_table) = Inr s \<and>
       gamma s = Some 1 \<and> beta s = Some 1 \<and>
       column (cdatasub s) ''A_i''
         = Inr (map (\<lambda>x. Num (Fin x))
                  [1 / 656100000, 1 / 656100000, 1 / 787320000, 1 / 787320000,
                   1 / 656100000, 1 / 656100000, 1 / 656100000, 1 / 656100000,
                   1 / 656100000, 1 / 656100000, 1 / 656100000, 1 / 656100000,
                   1 / 656100000, 1 / 656100000]) \<and>
       map (\<lambda>r. equation_factor Dj2_destsal 1 1 example_rows (OrigCodeNew r)) example_rows
         = [1 / 4, 1 / 4, 1 / 6, 1 / 6, 1 / 4, 1 / 4, 1 / 4, 1 / 4, 1 / 4, 1 / 4, 1 / 4, 1 / 4,
            1 / 4, 1 / 4]"
proof -
  from example_run obtain s where
    r: "run (notebook example_prodSim example_attrSim) (start example_table) = Inr s"
    and t: "cdatasub s = example_table @ notebook_columns example_rows (\<lambda>l. 0) 1 1 example_effects 0 (- 1)"
    and g: "gamma s = Some 1" and b: "beta s = Some 1"
    by blast
  have a: "column (cdatasub s) ''A_i''
         = Inr (map (\<lambda>x. Num (Fin x))
                  [1 / 656100000, 1 / 656100000, 1 / 787320000, 1 / 787320000,
                   1 / 656100000, 1 / 656100000, 1 / 656100000, 1 / 656100000,
                   1 / 656100000, 1 / 656100000, 1 / 656100000, 1 / 656100000,
                   1 / 656100000, 1 / 656100000])"
    unfolding t example_derived_column[OF example_fresh(3)] example_computed_factor[symmetric]
    by (simp add: notebook_columns_def production_columns_def totals_columns_def column_Cons
        scenario_columns_def balancing_columns_def number_column_map)
  show ?thesis
    by (intro exI[of _ s] conjI example_glm_fit(1) r g b a example_equation_factor)
qed

section \<open>The scenario function\<close>

text \<open>
  C9: the scenario function \<^verbatim>\<open>new_sal\<close>, applied to one row, returns 25000 when the row's
  \<^verbatim>\<open>DestCodeNew\<close> is \<^verbatim>\<open>"E09000002"\<close>, and the row's \<^verbatim>\<open>Dj2_destsal\<close> unchanged for every
  other row. The row is any row that has the two entries.
\<close>

theorem new_sal_scenario:
  assumes "map_of row ''DestCodeNew'' = Some code"
    and "map_of row ''Dj2_destsal'' = Some v"
  shows "new_sal row = Inr (if code = Str ''E09000002'' then Num (Fin 25000) else v)"
  using assms by (simp add: new_sal_def row_get_def)

text \<open>
  Witness for C9: the first two rows of the example table, one into \<^verbatim>\<open>E09000002\<close> and
  one into another zone.
\<close>

theorem new_sal_scenario_witness:
  "map_of (row_at example_table 0) ''DestCodeNew'' = Some (Str ''E09000002'') \<and>
   map_of (row_at example_table 0) ''Dj2_destsal'' = Some (Num (Fin 16200)) \<and>
   new_sal (row_at example_table 0) = Inr (Num (Fin 25000)) \<and>
   map_of (row_at example_table 1) ''DestCodeNew'' = Some (Str ''E09000003'') \<and>
   map_of (row_at example_table 1) ''Dj2_destsal'' = Some (Num (Fin 32400)) \<and>
   new_sal (row_at example_table 1) = Inr (Num (Fin 32400))"
proof -
  have d0: "map_of (row_at example_table 0) ''DestCodeNew'' = Some (Str ''E09000002'')"
    and s0: "map_of (row_at example_table 0) ''Dj2_destsal'' = Some (Num (Fin 16200))"
    and d1: "map_of (row_at example_table 1) ''DestCodeNew'' = Some (Str ''E09000003'')"
    and s1: "map_of (row_at example_table 1) ''Dj2_destsal'' = Some (Num (Fin 32400))"
    by (simp_all add: row_at_def example_table_def table_of_def example_rows_def flow_row_def
        text_column_def number_column_def)
  show ?thesis
    using new_sal_scenario[OF d0 s0] new_sal_scenario[OF d1 s1] d0 s0 d1 s1 by simp
qed

end
